(* ===== verification/Go_Prelude.thy ===== *)
theory Go_Prelude
  imports Main "HOL-Library.List_Lexorder" "HOL-Library.Char_ord"
begin

text \<open>
  What the components share: the Go values the source computes with (byte strings and
  \<^verbatim>\<open>strings.TrimSpace\<close>, instants, nil-able pointers), error values and the three loop
  shapes in which the validators return their first error, and list facts (first match, sorted
  duplicate-free enumerations of a set) used by the schedulers and by the ordering code.
  The collection \<^verbatim>\<open>guards\<close> holds the equations that turn
  "the validator returned nil" into the conjunction of the conditions it checked.
\<close>

named_theorems guards

section \<open>Identifiers, instants and pointers\<close>

type_synonym ident = string

text \<open>An instant counts nanoseconds from Go's zero \<^verbatim>\<open>time.Time\<close>; a pointer that may be
  nil is an option.\<close>

type_synonym instant = int

abbreviation (input) zero_time :: instant where "zero_time \<equiv> 0"

section \<open>Trimming\<close>

text \<open>The UTF-8 encodings of the runes for which \<^verbatim>\<open>unicode.IsSpace\<close> holds.\<close>

definition go_spaces :: "string list" where
  "go_spaces =
     [[CHR 0x09], [CHR 0x0A], [CHR 0x0B], [CHR 0x0C], [CHR 0x0D], [CHR 0x20],
      [CHR 0xC2, CHR 0x85], [CHR 0xC2, CHR 0xA0], [CHR 0xE1, CHR 0x9A, CHR 0x80],
      [CHR 0xE2, CHR 0x80, CHR 0x80], [CHR 0xE2, CHR 0x80, CHR 0x81],
      [CHR 0xE2, CHR 0x80, CHR 0x82], [CHR 0xE2, CHR 0x80, CHR 0x83],
      [CHR 0xE2, CHR 0x80, CHR 0x84], [CHR 0xE2, CHR 0x80, CHR 0x85],
      [CHR 0xE2, CHR 0x80, CHR 0x86], [CHR 0xE2, CHR 0x80, CHR 0x87],
      [CHR 0xE2, CHR 0x80, CHR 0x88], [CHR 0xE2, CHR 0x80, CHR 0x89],
      [CHR 0xE2, CHR 0x80, CHR 0x8A], [CHR 0xE2, CHR 0x80, CHR 0xA8],
      [CHR 0xE2, CHR 0x80, CHR 0xA9], [CHR 0xE2, CHR 0x80, CHR 0xAF],
      [CHR 0xE2, CHR 0x81, CHR 0x9F], [CHR 0xE3, CHR 0x80, CHR 0x80]]"

fun starts_with :: "string \<Rightarrow> string \<Rightarrow> bool" where
  "starts_with [] s = True"
| "starts_with (p # ps) [] = False"
| "starts_with (p # ps) (c # s) = (p = c \<and> starts_with ps s)"

text \<open>The length of the space at the front of a string, 0 when there is none.\<close>

definition lead_space :: "string list \<Rightarrow> string \<Rightarrow> nat" where
  "lead_space ws s = (case filter (\<lambda>w. starts_with w s) ws of [] \<Rightarrow> 0 | w # _ \<Rightarrow> length w)"

function trim_front :: "string list \<Rightarrow> string \<Rightarrow> string" where
  "trim_front ws s =
     (if s = [] \<or> lead_space ws s = 0 then s else trim_front ws (drop (lead_space ws s) s))"
  by pat_completeness auto
termination by (relation "measure (\<lambda>(ws, s). length s)") auto

declare trim_front.simps [simp del]

definition trim_space :: "string \<Rightarrow> string" where
  "trim_space s = rev (trim_front (map rev go_spaces) (rev (trim_front go_spaces s)))"

definition blank :: "string \<Rightarrow> bool" where
  "blank s = (trim_space s = [])"

lemma trim_front_Nil [simp]: "trim_front ws [] = []"
  by (simp add: trim_front.simps)

lemma trim_space_Nil [simp]: "trim_space [] = []"
  by (simp add: trim_space_def)

lemma blank_Nil [simp]: "blank []"
  by (simp add: blank_def)

lemma blank_iff: "blank s \<longleftrightarrow> trim_space s = []"
  by (simp add: blank_def)

lemma trim_front_stable:
  assumes "lead_space ws s = 0" shows "trim_front ws s = s"
  using assms by (simp add: trim_front.simps [of ws s])

lemma lead_space_trim_front: "trim_front ws s = [] \<or> lead_space ws (trim_front ws s) = 0"
proof (induction ws s rule: trim_front.induct)
  case (1 ws s)
  show ?case
    by (cases "s = [] \<or> lead_space ws s = 0")
      (use 1 in \<open>auto simp: trim_front.simps [of ws s]\<close>)
qed

text \<open>A string whose first and last bytes are printable ASCII is its own trimming; this is the
  rule that evaluates the validators on concrete identifiers.\<close>

definition plain :: "char \<Rightarrow> bool" where
  "plain c = (33 \<le> (of_char c :: nat) \<and> (of_char c :: nat) < 127)"

lemma go_spaces_not_plain:
  "\<forall>w\<in>set go_spaces. w \<noteq> [] \<and> \<not> plain (hd w)"
  "\<forall>w\<in>set (map rev go_spaces). w \<noteq> [] \<and> \<not> plain (hd w)"
  by (simp_all add: go_spaces_def plain_def)

lemma starts_with_hd: "starts_with w (c # s) \<Longrightarrow> w \<noteq> [] \<Longrightarrow> hd w = c"
  by (cases w) auto

lemma lead_space_plain:
  assumes "plain c" "\<forall>w\<in>set ws. w \<noteq> [] \<and> \<not> plain (hd w)"
  shows "lead_space ws (c # s) = 0"
proof -
  have "filter (\<lambda>w. starts_with w (c # s)) ws = []"
    using assms starts_with_hd by (fastforce simp: filter_empty_conv)
  then show ?thesis by (simp add: lead_space_def)
qed

lemma trim_front_plain:
  assumes "plain c" "\<forall>w\<in>set ws. w \<noteq> [] \<and> \<not> plain (hd w)"
  shows "trim_front ws (c # s) = c # s"
  using assms by (simp add: trim_front_stable lead_space_plain)

lemma trim_space_plain:
  assumes "plain c" "plain (last (c # s))"
  shows "trim_space (c # s) = c # s"
proof -
  have front: "trim_front go_spaces (c # s) = c # s"
    using assms(1) go_spaces_not_plain(1) by (rule trim_front_plain)
  have split: "rev (c # s) = last (c # s) # rev (butlast (c # s))"
    by (metis append_butlast_last_id list.distinct(1) rev_eq_Cons_iff rev_rev_ident)
  have "trim_front (map rev go_spaces) (rev (c # s)) = rev (c # s)"
    unfolding split using assms(2) go_spaces_not_plain(2) by (rule trim_front_plain)
  then show ?thesis
    unfolding trim_space_def front by (simp del: rev.simps)
qed

lemma trim_space_blank_plain [simp]:
  "plain c \<Longrightarrow> plain (last (c # s)) \<Longrightarrow> blank (c # s) = False"
  by (simp add: blank_iff trim_space_plain)

text \<open>Trimming a trimmed string changes nothing.\<close>

lemma starts_with_prefix: "starts_with p s \<Longrightarrow> starts_with p (s @ t)"
  by (induction p s rule: starts_with.induct) auto

lemma trim_front_suffix: "\<exists>front. s = front @ trim_front ws s"
proof (induction ws s rule: trim_front.induct)
  case (1 ws s)
  show ?case
  proof (cases "s = [] \<or> lead_space ws s = 0")
    case False
    from 1 [OF False] obtain f where "drop (lead_space ws s) s = f @ trim_front ws (drop (lead_space ws s) s)" by (rule exE)
    then have "s = (take (lead_space ws s) s @ f) @ trim_front ws s"
      using False by (metis append.assoc append_take_drop_id trim_front.simps)
    then show ?thesis ..
  qed (auto simp: trim_front.simps [of ws s])
qed

lemma no_lead_space: "lead_space go_spaces s = 0 \<longleftrightarrow> (\<forall>w\<in>set go_spaces. \<not> starts_with w s)"
proof -
  have some: "w \<noteq> []" if "w \<in> set go_spaces" for w using go_spaces_not_plain(1) that by auto
  show ?thesis
  proof (cases "filter (\<lambda>w. starts_with w s) go_spaces")
    case (Cons w ws)
    then have "w \<in> set (filter (\<lambda>w. starts_with w s) go_spaces)" by simp
    then have "w \<in> set go_spaces" "starts_with w s" by simp_all
    moreover have "lead_space go_spaces s = length w" using Cons by (simp add: lead_space_def)
    ultimately show ?thesis using some [of w] by auto
  qed (auto simp: lead_space_def filter_empty_conv)
qed

lemma trim_space_idem [simp]: "trim_space (trim_space s) = trim_space s"
proof (cases "trim_space s = []")
  case False
  let ?t = "trim_front go_spaces s" and ?u = "trim_space s"
  have rev_u: "rev ?u = trim_front (map rev go_spaces) (rev ?t)" by (simp add: trim_space_def)
  have "?t \<noteq> []" using False by (auto simp: trim_space_def)
  then have lead: "lead_space go_spaces ?t = 0" using lead_space_trim_front by blast
  obtain f where "rev ?t = f @ rev ?u" using trim_front_suffix [of "rev ?t"] rev_u by metis
  then have "?t = ?u @ rev f" by (metis rev_append rev_rev_ident)
  then have "lead_space go_spaces ?u = 0" using lead starts_with_prefix unfolding no_lead_space by metis
  then have "trim_front go_spaces ?u = ?u" by (rule trim_front_stable)
  moreover have "trim_front (map rev go_spaces) (rev ?u) = rev ?u"
    using lead_space_trim_front [of "map rev go_spaces" "rev ?t"] False unfolding rev_u [symmetric] by (auto intro: trim_front_stable)
  ultimately show ?thesis by (simp add: trim_space_def [of ?u])
qed simp

lemma starts_with_drop: "starts_with w s \<Longrightarrow> s = w @ drop (length w) s"
  by (induction w s rule: starts_with.induct) auto

text \<open>Trimming takes away no printable byte.\<close>

lemma plain_survives:
  assumes "plain c" "\<forall>w\<in>set ws. \<forall>x\<in>set w. \<not> plain x"
  shows "c \<in> set s \<Longrightarrow> c \<in> set (trim_front ws s)"
proof (induction s rule: measure_induct_rule [where f = length])
  case (less s)
  show ?case
  proof (cases "s = [] \<or> lead_space ws s = 0")
    case True
    then show ?thesis using less.prems by (auto simp: trim_front.simps [of ws s])
  next
    case False
    then obtain w rest where f: "filter (\<lambda>w. starts_with w s) ws = w # rest"
      by (auto simp: lead_space_def split: list.splits)
    then have "w \<in> set (filter (\<lambda>w. starts_with w s) ws)" by simp
    then have w: "w \<in> set ws" "starts_with w s" by simp_all
    have len: "lead_space ws s = length w" using f by (simp add: lead_space_def)
    have split: "s = w @ drop (length w) s" by (rule starts_with_drop [OF w(2)])
    have "c \<notin> set w" using assms w(1) by blast
    then have "c \<in> set (drop (length w) s)" using less.prems split by (metis Un_iff set_append)
    then have "c \<in> set (trim_front ws (drop (length w) s))" using False len by (intro less.IH) auto
    then show ?thesis using False len by (simp add: trim_front.simps [of ws s])
  qed
qed

lemma prefixed_not_blank: "plain c \<Longrightarrow> \<not> blank (c # s)"
proof -
  assume c: "plain c"
  have w: "\<forall>w\<in>set go_spaces. \<forall>x\<in>set w. \<not> plain x" "\<forall>w\<in>set (map rev go_spaces). \<forall>x\<in>set w. \<not> plain x"
    by (simp_all add: go_spaces_def plain_def)
  have "c \<in> set (trim_front go_spaces (c # s))" using plain_survives [OF c w(1)] by simp
  then have "c \<in> set (trim_front (map rev go_spaces) (rev (trim_front go_spaces (c # s))))"
    using plain_survives [OF c w(2)] by simp
  then show ?thesis by (auto simp: blank_iff trim_space_def)
qed

section \<open>Errors\<close>

text \<open>An error is \<^verbatim>\<open>fmt.Errorf\<close>'s format with the arguments it renders; \<^verbatim>\<open>%w\<close> keeps
  the wrapped error. A validator returns \<^verbatim>\<open>None\<close> for Go's nil.\<close>

datatype arg = Str string | Num int

datatype error = Errorf string "arg list" | Wrapf string "arg list" error

type_synonym validation = "error option"

text \<open>The classes of \<^verbatim>\<open>apierr\<close>: what a service refuses with. A plain error of a
  store or a port that the service passes on is \<^verbatim>\<open>Failure\<close>.\<close>

datatype api_error = NotFound string | Invalid string | Conflict string | Failure error

definition refuse :: "bool \<Rightarrow> 'e \<Rightarrow> 'e option" where
  "refuse c e = (if c then Some e else None)"

fun first_error :: "'e option list \<Rightarrow> 'e option" where
  "first_error [] = None"
| "first_error (None # es) = first_error es"
| "first_error (Some e # es) = Some e"

lemma refuse_None [guards]: "refuse c e = None \<longleftrightarrow> \<not> c"
  by (simp add: refuse_def)

lemma refuse_Some [guards]: "refuse c e = Some e' \<longleftrightarrow> c \<and> e' = e"
  by (auto simp: refuse_def)

lemma first_error_Cons [guards]:
  "first_error (e # es) = None \<longleftrightarrow> e = None \<and> first_error es = None"
  by (cases e) auto

lemma first_error_None: "first_error es = None \<longleftrightarrow> (\<forall>e\<in>set es. e = None)"
  by (induction es) (auto simp: guards)

declare first_error.simps(1) [simp del, guards]

text \<open>Sequencing of fallible steps: the first error ends the sequence.\<close>

fun and_then :: "'e + 'a \<Rightarrow> ('a \<Rightarrow> 'e + 'b) \<Rightarrow> 'e + 'b" where
  "and_then (Inl e) f = Inl e"
| "and_then (Inr x) f = f x"

lemma and_then_Inr: "and_then r f = Inr y \<longleftrightarrow> (\<exists>x. r = Inr x \<and> f x = Inr y)"
  by (cases r) auto

definition require :: "bool \<Rightarrow> 'e \<Rightarrow> 'e + unit" where
  "require c e = (if c then Inr () else Inl e)"

lemma require_Inr [simp]: "require c e = Inr u \<longleftrightarrow> c"
  by (simp add: require_def)

text \<open>Facts about a column survive an update that keeps what the column reads.\<close>

lemma map_factor:
  assumes "map h xs = map h ys" "\<And>x. k (h x) = k x"
  shows "map k xs = map k ys"
proof -
  have "map k zs = map k (map h zs)" for zs by (simp add: assms(2))
  then show ?thesis using assms(1) by metis
qed

lemma filter_factor:
  assumes "map h xs = map h ys" "\<And>x. P (h x) = P x"
  shows "map h (filter P xs) = map h (filter P ys)"
proof -
  have "map h (filter P zs) = filter P (map h zs)" for zs by (induction zs) (auto simp: assms(2))
  then show ?thesis using assms(1) by metis
qed

lemma map_conditional_keeps: "(\<And>x. h (f x) = h x) \<Longrightarrow> map h (map (\<lambda>x. if P x then f x else x) xs) = map h xs"
  by (induction xs) auto

section \<open>Loops that return their first error\<close>

fun each_from :: "nat \<Rightarrow> (nat \<Rightarrow> 'a \<Rightarrow> 'e option) \<Rightarrow> 'a list \<Rightarrow> 'e option" where
  "each_from i f [] = None"
| "each_from i f (x # xs) = (case f i x of Some e \<Rightarrow> Some e | None \<Rightarrow> each_from (Suc i) f xs)"

abbreviation each_index :: "(nat \<Rightarrow> 'a \<Rightarrow> 'e option) \<Rightarrow> 'a list \<Rightarrow> 'e option" where
  "each_index \<equiv> each_from 0"

fun each_elem :: "('a \<Rightarrow> 'e option) \<Rightarrow> 'a list \<Rightarrow> 'e option" where
  "each_elem f [] = None"
| "each_elem f (x # xs) = (case f x of Some e \<Rightarrow> Some e | None \<Rightarrow> each_elem f xs)"

lemma each_from_None:
  "each_from k f xs = None \<longleftrightarrow> (\<forall>i<length xs. f (k + i) (xs ! i) = None)"
  by (induction xs arbitrary: k) (auto split: option.splits simp: All_less_Suc2)

lemma each_index_None [guards]:
  "each_index f xs = None \<longleftrightarrow> (\<forall>i<length xs. f i (xs ! i) = None)"
  by (simp add: each_from_None)

lemma each_elem_None [guards]:
  "each_elem f xs = None \<longleftrightarrow> (\<forall>x\<in>set xs. f x = None)"
  by (induction xs) (auto split: option.splits)

text \<open>A loop that keeps a map of the keys it has seen: the body sees the keys of the earlier
  elements and its own index.\<close>

fun each_seen :: "('a \<Rightarrow> 'k) \<Rightarrow> (nat \<Rightarrow> 'k list \<Rightarrow> 'a \<Rightarrow> 'e option) \<Rightarrow> nat \<Rightarrow> 'k list \<Rightarrow> 'a list \<Rightarrow> 'e option"
where
  "each_seen key f i seen [] = None"
| "each_seen key f i seen (x # xs) =
     (case f i seen x of Some e \<Rightarrow> Some e | None \<Rightarrow> each_seen key f (Suc i) (key x # seen) xs)"

lemma each_seen_iff:
  "each_seen key f k seen xs = None \<longleftrightarrow>
     (\<forall>i<length xs. f (k + i) (rev (map key (take i xs)) @ seen) (xs ! i) = None)"
  by (induction xs arbitrary: k seen) (auto split: option.splits simp: All_less_Suc2)

lemma distinct_by_prefix:
  "(\<forall>i<length xs. key (xs ! i) \<notin> key ` set (take i xs)) \<longleftrightarrow> distinct (map key xs)"
proof (induction xs rule: rev_induct)
  case (snoc x xs)
  have "(\<forall>i<length (xs @ [x]). key ((xs @ [x]) ! i) \<notin> key ` set (take i (xs @ [x]))) \<longleftrightarrow>
        (\<forall>i<length xs. key (xs ! i) \<notin> key ` set (take i xs)) \<and> key x \<notin> key ` set xs"
    by (auto simp: less_Suc_eq nth_append)
  with snoc show ?case by auto
qed simp

text \<open>The usual body: a part that does not look at the seen keys, and one that refuses a key
  seen before.\<close>

lemma each_seen_fresh:
  assumes "\<And>i seen x. f i seen x = None \<longleftrightarrow> g i x \<and> key x \<notin> set seen"
  shows "each_seen key f 0 [] xs = None \<longleftrightarrow> (\<forall>i<length xs. g i (xs ! i)) \<and> distinct (map key xs)"
proof -
  have "each_seen key f 0 [] xs = None \<longleftrightarrow>
        (\<forall>i<length xs. g i (xs ! i)) \<and> (\<forall>i<length xs. key (xs ! i) \<notin> key ` set (take i xs))"
    by (auto simp: each_seen_iff assms)
  then show ?thesis by (simp add: distinct_by_prefix)
qed

lemma each_seen_fresh_elem:
  assumes "\<And>i seen x. f i seen x = None \<longleftrightarrow> g x \<and> key x \<notin> set seen"
  shows "each_seen key f 0 [] xs = None \<longleftrightarrow> (\<forall>x\<in>set xs. g x) \<and> distinct (map key xs)"
  using each_seen_fresh [of f "\<lambda>_. g" key xs] assms by (simp add: all_set_conv_all_nth)

section \<open>Sets as sorted lists\<close>

text \<open>Go collects a set in a map and sorts its keys; the result does not depend on the order in
  which the map is ranged over.\<close>

definition sorted_keys :: "'a::linorder list \<Rightarrow> 'a list" where
  "sorted_keys xs = sort (remdups xs)"

lemma set_sorted_keys [simp]: "set (sorted_keys xs) = set xs"
  by (simp add: sorted_keys_def)

lemma sorted_sorted_keys [simp]: "sorted (sorted_keys xs)"
  by (simp add: sorted_keys_def)

lemma distinct_sorted_keys [simp]: "distinct (sorted_keys xs)"
  by (simp add: sorted_keys_def)

lemma sorted_keys_cong: "set xs = set ys \<Longrightarrow> sorted_keys xs = sorted_keys ys"
  by (rule sorted_distinct_set_unique) simp_all

lemma sorted_keys_Nil_iff [simp]: "sorted_keys xs = [] \<longleftrightarrow> xs = []"
  by (metis set_empty set_sorted_keys)

lemma sort_Nil_iff [simp]: "sort_key f xs = [] \<longleftrightarrow> xs = []"
  by (metis length_0_conv length_sort)

text \<open>Gapless numbering from 1.\<close>

lemma upto_snoc: "(0 :: int) \<le> n \<Longrightarrow> [1..n + 1] = [1..n] @ [n + 1]"
  by (simp add: upto_rec2)

lemma gapless_snoc:
  assumes "xs = [1..int (length xs)]"
  shows "xs @ [int (length xs) + 1] = [1..int (length (xs @ [int (length xs) + 1]))]"
  using assms upto_snoc [of "int (length xs)"] by (simp add: add.commute)

lemma foldr_max_bound: "\<forall>x\<in>set xs. x \<le> m \<Longrightarrow> 0 \<le> m \<Longrightarrow> foldr max xs 0 \<le> (m :: int)"
  by (induction xs) auto

lemma foldr_max_upper: "x \<in> set xs \<Longrightarrow> x \<le> foldr max xs (0 :: int)"
  by (induction xs) auto

lemma foldr_max_gapless:
  assumes "xs = [1..int (length xs)]"
  shows "foldr max xs 0 = int (length xs)"
proof (cases "xs = []")
  case False
  have mem: "set xs = {1..int (length xs)}" using assms by (metis set_upto)
  then have "int (length xs) \<in> set xs" using False by (simp add: Suc_le_eq)
  moreover have "foldr max xs 0 \<le> int (length xs)"
    using mem by (intro foldr_max_bound) auto
  ultimately show ?thesis using foldr_max_upper by (meson order_antisym)
qed simp

section \<open>First match\<close>

lemma find_SomeD: "find P xs = Some x \<Longrightarrow> x \<in> set xs \<and> P x"
  by (induction xs) (auto split: if_splits)

lemma find_None_set: "find P xs = None \<longleftrightarrow> (\<forall>x\<in>set xs. \<not> P x)"
  by (auto simp: find_None_iff)

lemma find_first: "find P (ys @ x # zs) = Some x" if "P x" "\<forall>y\<in>set ys. \<not> P y"
  using that by (induction ys) auto

lemma distinct_map_unique:
  "distinct (map g xs) \<Longrightarrow> x \<in> set xs \<Longrightarrow> y \<in> set xs \<Longrightarrow> g x = g y \<Longrightarrow> x = y"
  by (metis distinct_map inj_onD)

end
