(* ===== verification/Contract.thy ===== *)
theory Contract
  imports Go_Prelude
begin

text \<open>
  Outcomes and their immutable contract revisions (internal/domain/outcome.go), with the parts of
  a contract that internal/domain/intake.go, execution_preference.go and harness.go declare: the
  authority ceiling, the typed facets, the preferred provider. Every \<^verbatim>\<open>Validate\<close> method is the
  list of its checks in source order; the lemmas say what a nil result guarantees.
\<close>

section \<open>Providers and preferences\<close>

text \<open>harness.go: a provider identity is any string; these are the ones Kennel knows.\<close>

type_synonym harness = string

definition HarnessClaudeCode :: harness where "HarnessClaudeCode = ''claude-code''"
definition HarnessCodex :: harness where "HarnessCodex = ''codex''"
definition HarnessOpenCode :: harness where "HarnessOpenCode = ''opencode''"
definition HarnessCursor :: harness where "HarnessCursor = ''cursor''"
definition HarnessPi :: harness where "HarnessPi = ''pi''"
definition HarnessFake :: harness where "HarnessFake = ''fake''"

lemmas harness_defs = HarnessClaudeCode_def HarnessCodex_def HarnessOpenCode_def
  HarnessCursor_def HarnessPi_def HarnessFake_def

definition AllHarnesses :: "harness list" where
  "AllHarnesses = [HarnessCodex, HarnessClaudeCode, HarnessOpenCode, HarnessCursor, HarnessPi]"

definition IsSelectableForNewWork :: "harness \<Rightarrow> bool" where
  "IsSelectableForNewWork h = (h \<in> set AllHarnesses)"

definition IsRecognizedPersisted :: "harness \<Rightarrow> bool" where
  "IsRecognizedPersisted h = (if h = HarnessFake then True else h \<in> set AllHarnesses)"

definition IsSelectableAsCoordinator :: "harness \<Rightarrow> bool" where
  "IsSelectableAsCoordinator h = (h \<in> set [HarnessCodex, HarnessClaudeCode, HarnessOpenCode])"

definition IsSelectableAsSwitchTarget :: "harness \<Rightarrow> bool" where
  "IsSelectableAsSwitchTarget h = (h \<in> set [HarnessCodex, HarnessClaudeCode, HarnessOpenCode])"

lemma selectable_hierarchy:
  "IsSelectableAsCoordinator h \<Longrightarrow> IsSelectableForNewWork h"
  "IsSelectableAsSwitchTarget h \<Longrightarrow> IsSelectableForNewWork h"
  "IsSelectableForNewWork h \<Longrightarrow> IsRecognizedPersisted h"
  by (auto simp: IsSelectableAsCoordinator_def IsSelectableAsSwitchTarget_def
      IsSelectableForNewWork_def IsRecognizedPersisted_def AllHarnesses_def)

text \<open>execution_preference.go\<close>

datatype pref_selection = PrefProviderDefault | PrefExplicit | PrefOther string

record execution_preference =
  xp_Provider :: harness
  xp_ModelSelection :: pref_selection
  xp_Model :: string

definition ExecutionPreference_Validate :: "execution_preference \<Rightarrow> validation" where
  "ExecutionPreference_Validate p = first_error
     [refuse (blank (xp_Provider p)) (Errorf ''execution preference provider is required'' []),
      refuse (\<not> IsSelectableForNewWork (xp_Provider p))
        (Errorf ''unsupported execution preference provider %q'' [Str (xp_Provider p)]),
      (case xp_ModelSelection p of
         PrefExplicit \<Rightarrow> refuse (blank (xp_Model p))
           (Errorf ''explicit execution preference model is required'' [])
       | PrefProviderDefault \<Rightarrow> refuse (\<not> blank (xp_Model p))
           (Errorf ''provider-default execution preference must not name a model'' [])
       | PrefOther s \<Rightarrow>
           Some (Errorf ''unsupported execution preference model selection %q'' [Str s]))]"

text \<open>The mutable Project baseline: the worker's harness and model.\<close>

record project_worker =
  pw_Harness :: string
  pw_Model :: string

definition ResolveEffectiveExecutionPreference ::
  "execution_preference option \<Rightarrow> project_worker \<Rightarrow> error + execution_preference option" where
  "ResolveEffectiveExecutionPreference outcome project =
     (case outcome of
        Some pref \<Rightarrow>
          (case ExecutionPreference_Validate pref of Some e \<Rightarrow> Inl e | None \<Rightarrow> Inr (Some pref))
      | None \<Rightarrow>
          (let provider = trim_space (pw_Harness project); model = trim_space (pw_Model project) in
           if provider = [] then
             if model \<noteq> [] then Inl (Errorf ''project worker model requires a provider'' [])
             else Inr None
           else
             let pref = (if model = []
                then \<lparr>xp_Provider = provider, xp_ModelSelection = PrefProviderDefault, xp_Model = []\<rparr>
                else \<lparr>xp_Provider = provider, xp_ModelSelection = PrefExplicit, xp_Model = model\<rparr>)
             in case ExecutionPreference_Validate pref of
                  Some e \<Rightarrow> Inl (Wrapf ''project worker execution preference: %w'' [] e)
                | None \<Rightarrow> Inr (Some pref)))"

lemma resolved_preference_valid:
  "ResolveEffectiveExecutionPreference o0 w = Inr (Some p) \<Longrightarrow> ExecutionPreference_Validate p = None"
  by (auto simp: ResolveEffectiveExecutionPreference_def Let_def
      split: option.splits if_splits)

section \<open>Authority ceilings and facets\<close>

record proposed_authority =
  ReadWorkspace :: bool
  WriteWorkspace :: bool
  ExecuteLocal :: bool
  UseNetwork :: bool
  CommitLocal :: bool
  CreatePR :: bool
  Deploy :: bool
  ExternalEffect :: bool

datatype facet_kind = FacetSoftware | FacetResearch | FacetDesign | FacetDocumentation
  | FacetInvestigation | FacetEvaluation | FacetOperations | FacetOther string

fun ContractFacetKind_Valid :: "facet_kind \<Rightarrow> bool" where
  "ContractFacetKind_Valid (FacetOther _) = False"
| "ContractFacetKind_Valid _ = True"

record contract_facet =
  cf_Kind :: facet_kind
  cf_Summary :: string
  cf_Requirements :: "string list"

definition ContractFacet_Validate :: "contract_facet \<Rightarrow> validation" where
  "ContractFacet_Validate f = first_error
     [refuse (\<not> ContractFacetKind_Valid (cf_Kind f))
        (Errorf ''unsupported contract facet kind %q''
           [case cf_Kind f of FacetOther k \<Rightarrow> Str k | _ \<Rightarrow> Str []]),
      refuse (blank (cf_Summary f)) (Errorf ''contract facet summary is required'' [])]"

section \<open>Outcomes and contract revisions\<close>

record contract_criterion =
  cc_ID :: ident
  cc_ContractRevisionID :: ident
  cc_Position :: int
  cc_Text :: string

record evidence_expectation =
  ee_CriterionID :: ident
  ee_Descriptions :: "string list"

definition ContractCriterion_Validate :: "contract_criterion \<Rightarrow> validation" where
  "ContractCriterion_Validate c = first_error
     [refuse (blank (cc_ID c)) (Errorf ''contract criterion id is required'' []),
      refuse (blank (cc_ContractRevisionID c)) (Errorf ''contract criterion revision id is required'' []),
      refuse (cc_Position c < 1) (Errorf ''contract criterion position must be at least 1'' []),
      refuse (blank (cc_Text c)) (Errorf ''contract criterion text is required'' [])]"

record outcome =
  o_ID :: ident
  o_SpaceID :: ident
  o_ParentID :: ident
  o_Title :: string
  o_CurrentRevisionNumber :: int
  o_CreatedAt :: instant
  o_UpdatedAt :: instant

definition IsContributing :: "outcome \<Rightarrow> bool" where
  "IsContributing r = (\<not> blank (o_ParentID r))"

definition Outcome_Validate :: "outcome \<Rightarrow> validation" where
  "Outcome_Validate r = first_error
     [refuse (blank (o_ID r)) (Errorf ''outcome id is required'' []),
      refuse (blank (o_SpaceID r)) (Errorf ''outcome responsibility space id is required'' []),
      refuse (blank (o_Title r)) (Errorf ''outcome title is required'' []),
      refuse (o_CurrentRevisionNumber r < 0)
        (Errorf ''outcome current revision number must not be negative'' []),
      refuse (o_ParentID r = o_ID r) (Errorf ''outcome cannot contribute to itself'' [])]"

record contract_revision =
  cr_ID :: ident
  cr_OutcomeID :: ident
  cr_Number :: int
  cr_Goal :: string
  cr_Criteria :: "contract_criterion list"
  cr_SuccessCriteria :: "string list"
  cr_Review :: string
  cr_Constraints :: "string list"
  cr_NonGoals :: "string list"
  cr_Clarification :: string
  cr_EvidenceExpectations :: "evidence_expectation list"
  cr_AuthorityCeiling :: proposed_authority
  cr_StopConditions :: "string list"
  cr_TemporalCondition :: "string option"
  cr_Facets :: "contract_facet list"
  cr_ExecutionPreference :: "execution_preference option"
  cr_CreatedAt :: instant

text \<open>The criterion loop of \<^verbatim>\<open>ContractRevision.Validate\<close>: index, keys seen, criterion.\<close>

definition criterion_check ::
  "contract_revision \<Rightarrow> nat \<Rightarrow> ident list \<Rightarrow> contract_criterion \<Rightarrow> validation" where
  "criterion_check r i seen c = first_error
     [(case ContractCriterion_Validate c of
         Some e \<Rightarrow> Some (Wrapf ''success criterion %d: %w'' [Num (int i + 1)] e) | None \<Rightarrow> None),
      refuse (cc_ContractRevisionID c \<noteq> cr_ID r)
        (Errorf ''success criterion %d binds another contract revision'' [Num (int i + 1)]),
      refuse (cc_Position c \<noteq> int i + 1)
        (Errorf ''success criterion %d has unstable position %d'' [Num (int i + 1), Num (cc_Position c)]),
      refuse (trim_space (cc_Text c) \<noteq> trim_space (cr_SuccessCriteria r ! i))
        (Errorf ''success criterion %d text differs from compatibility projection'' [Num (int i + 1)]),
      refuse (cc_ID c \<in> set seen)
        (Errorf ''success criterion %d reuses criterion id %s'' [Num (int i + 1), Str (cc_ID c)])]"

definition expectation_check :: "contract_revision \<Rightarrow> nat \<Rightarrow> evidence_expectation \<Rightarrow> validation" where
  "expectation_check r i e = first_error
     [refuse (blank (ee_CriterionID e))
        (Errorf ''evidence expectation %d criterion id is required'' [Num (int i + 1)]),
      refuse (cr_Criteria r \<noteq> [] \<and> ee_CriterionID e \<notin> set (map cc_ID (cr_Criteria r)))
        (Errorf ''evidence expectation %d binds an unknown criterion'' [Num (int i + 1)]),
      refuse (ee_Descriptions e = [])
        (Errorf ''evidence expectation %d requires a description'' [Num (int i + 1)]),
      each_elem (\<lambda>d. refuse (blank d)
        (Errorf ''evidence expectation %d contains a blank description'' [Num (int i + 1)]))
        (ee_Descriptions e)]"

definition ContractRevision_Validate :: "contract_revision \<Rightarrow> validation" where
  "ContractRevision_Validate r = first_error
     [refuse (blank (cr_ID r)) (Errorf ''contract revision id is required'' []),
      refuse (blank (cr_OutcomeID r)) (Errorf ''contract revision outcome id is required'' []),
      refuse (cr_Number r < 1) (Errorf ''contract revision number must be at least 1'' []),
      refuse (blank (cr_Goal r)) (Errorf ''contract revision goal is required'' []),
      refuse (cr_SuccessCriteria r = [])
        (Errorf ''contract revision requires at least one success criterion'' []),
      each_index (\<lambda>i c. refuse (blank c) (Errorf ''success criterion %d is blank'' [Num (int i + 1)]))
        (cr_SuccessCriteria r),
      (if cr_Criteria r = [] then None
       else if length (cr_Criteria r) \<noteq> length (cr_SuccessCriteria r)
       then Some (Errorf ''contract criterion identity count must match success criteria'' [])
       else each_seen cc_ID (criterion_check r) 0 [] (cr_Criteria r)),
      refuse (blank (cr_Review r)) (Errorf ''contract revision review is required'' []),
      each_index (expectation_check r) (cr_EvidenceExpectations r),
      each_elem (\<lambda>s. refuse (blank s) (Errorf ''contract stop condition is blank'' []))
        (cr_StopConditions r),
      (case cr_TemporalCondition r of None \<Rightarrow> None
       | Some t \<Rightarrow> refuse (blank t) (Errorf ''contract temporal condition is blank'' [])),
      each_elem ContractFacet_Validate (cr_Facets r),
      (case cr_ExecutionPreference r of None \<Rightarrow> None
       | Some p \<Rightarrow> ExecutionPreference_Validate p)]"

definition CriterionTexts :: "contract_revision \<Rightarrow> string list" where
  "CriterionTexts r =
     (if cr_Criteria r = [] then cr_SuccessCriteria r else map cc_Text (cr_Criteria r))"

lemma criterion_check_None:
  "criterion_check r i seen c = None \<longleftrightarrow>
     (ContractCriterion_Validate c = None \<and> cc_ContractRevisionID c = cr_ID r \<and>
      cc_Position c = int i + 1 \<and> trim_space (cc_Text c) = trim_space (cr_SuccessCriteria r ! i)) \<and>
     cc_ID c \<notin> set seen"
  by (auto simp: criterion_check_def guards split: option.splits)

text \<open>The criteria of a valid revision with stable identities: one per success criterion, in
  order, each bound to this revision, with pairwise different ids.\<close>

lemma contract_valid_criteria:
  assumes "ContractRevision_Validate r = None" "cr_Criteria r \<noteq> []"
  shows "length (cr_Criteria r) = length (cr_SuccessCriteria r)"
    and "distinct (map cc_ID (cr_Criteria r))"
    and "\<forall>i<length (cr_Criteria r).
           ContractCriterion_Validate (cr_Criteria r ! i) = None \<and>
           cc_ContractRevisionID (cr_Criteria r ! i) = cr_ID r \<and>
           cc_Position (cr_Criteria r ! i) = int i + 1 \<and>
           trim_space (cc_Text (cr_Criteria r ! i)) = trim_space (cr_SuccessCriteria r ! i)"
  using assms
  by (auto simp: ContractRevision_Validate_def guards
      each_seen_fresh [where g = "\<lambda>i c. ContractCriterion_Validate c = None \<and>
        cc_ContractRevisionID c = cr_ID r \<and> cc_Position c = int i + 1 \<and>
        trim_space (cc_Text c) = trim_space (cr_SuccessCriteria r ! i)", OF criterion_check_None]
      split: if_splits)

lemma contract_valid_expectations:
  assumes "ContractRevision_Validate r = None" "cr_Criteria r \<noteq> []"
  shows "\<forall>e\<in>set (cr_EvidenceExpectations r).
           ee_CriterionID e \<in> cc_ID ` set (cr_Criteria r) \<and> ee_Descriptions e \<noteq> [] \<and>
           (\<forall>d\<in>set (ee_Descriptions e). \<not> blank d)"
  using assms
  by (auto simp: ContractRevision_Validate_def expectation_check_def guards all_set_conv_all_nth)

end
