(* ===== verification/Execution.thy ===== *)
theory Execution
  imports Contract
begin

text \<open>
  Execution authority and routing: internal/domain/execution_binding.go (the exact provider and
  model a work unit is bound to) and internal/domain/routing.go (the deterministic choice of a
  candidate). Capability and model inventories are maps whose absent keys read as Go's zero value,
  which is not "supported".
\<close>

section \<open>Execution bindings\<close>

datatype model_selection = MsEmpty | MsProviderDefault | MsExplicit | MsHistoricalUnbound
  | MsOther string

record execution_binding =
  eb_Provider :: harness
  eb_ModelSelection :: model_selection
  eb_Model :: string

definition ValidateReadable :: "execution_binding \<Rightarrow> validation" where
  "ValidateReadable b = first_error
     [refuse (blank (eb_Provider b)) (Errorf ''execution binding provider is required'' []),
      refuse (\<not> IsRecognizedPersisted (eb_Provider b))
        (Errorf ''unsupported execution binding provider %q'' [Str (eb_Provider b)]),
      (case eb_ModelSelection b of
         MsExplicit \<Rightarrow> refuse (blank (eb_Model b))
           (Errorf ''explicit execution binding model is required'' [])
       | MsProviderDefault \<Rightarrow> refuse (\<not> blank (eb_Model b))
           (Errorf ''provider-default execution binding must not name a model'' [])
       | MsHistoricalUnbound \<Rightarrow> refuse (\<not> blank (eb_Model b))
           (Errorf ''historical-unbound execution binding must not name a model'' [])
       | MsEmpty \<Rightarrow> Some (Errorf ''unsupported execution binding model selection %q'' [Str []])
       | MsOther s \<Rightarrow>
           Some (Errorf ''unsupported execution binding model selection %q'' [Str s]))]"

definition ValidateForNewWork :: "execution_binding \<Rightarrow> validation" where
  "ValidateForNewWork b = first_error
     [ValidateReadable b,
      refuse (\<not> IsSelectableForNewWork (eb_Provider b))
        (Errorf ''execution binding provider %q is not selectable for new work''
           [Str (eb_Provider b)]),
      refuse (eb_ModelSelection b = MsHistoricalUnbound)
        (Errorf ''historical-unbound execution binding cannot authorize new work'' [])]"

definition ExecutionBindingFromPreference :: "execution_preference \<Rightarrow> execution_binding" where
  "ExecutionBindingFromPreference p =
     \<lparr>eb_Provider = xp_Provider p,
      eb_ModelSelection =
        (if xp_ModelSelection p = PrefExplicit then MsExplicit else MsProviderDefault),
      eb_Model = xp_Model p\<rparr>"

text \<open>A binding admitted for new work names a shipped provider and says how its model is chosen.\<close>

lemma new_work_binding:
  "ValidateForNewWork b = None \<longleftrightarrow>
     \<not> blank (eb_Provider b) \<and> eb_Provider b \<in> set AllHarnesses \<and>
     (eb_ModelSelection b = MsExplicit \<and> \<not> blank (eb_Model b) \<or>
      eb_ModelSelection b = MsProviderDefault \<and> blank (eb_Model b))"
  by (auto simp: ValidateForNewWork_def ValidateReadable_def guards IsRecognizedPersisted_def
      IsSelectableForNewWork_def split: model_selection.splits)

lemma preference_binding_valid:
  "ExecutionPreference_Validate p = None \<Longrightarrow>
   ValidateForNewWork (ExecutionBindingFromPreference p) = None"
  by (auto simp: new_work_binding ExecutionBindingFromPreference_def guards
      ExecutionPreference_Validate_def IsSelectableForNewWork_def split: pref_selection.splits)

section \<open>Routing\<close>

datatype routing_role = RoleWorker | RoleCoordinator | RoleOther string

datatype capability_support = Supported | Unsupported | SupportUnknown | SupportOther string

record routing_preference =
  rp_Provider :: string
  rp_ModelSelection :: pref_selection
  rp_Model :: string

record routing_requirements =
  rr_Role :: routing_role
  rr_HardCapabilities :: "string list"
  rr_Preference :: "routing_preference option"

record routing_candidate =
  rc_ID :: string
  rc_Provider :: string
  rc_ModelSelection :: model_selection
  rc_Model :: string
  rc_WorkerEligible :: bool
  rc_CoordinatorEligible :: bool
  rc_Readiness :: capability_support
  rc_Capabilities :: "string \<rightharpoonup> capability_support"
  rc_Models :: "string \<rightharpoonup> capability_support"

record candidate_evaluation =
  ce_CandidateID :: string
  ce_Provider :: string
  ce_Admissible :: bool
  ce_Preferred :: bool
  ce_RejectionCodes :: "string list"
  ce_Reasons :: "error list"

datatype decision_status = DecisionRecommended | DecisionNoValidCandidate | DecisionOther string

record routing_decision =
  rd_Status :: decision_status
  rd_PolicyVersion :: string
  rd_CapabilitySnapshot :: string
  rd_Role :: routing_role
  rd_EffectivePreference :: "routing_preference option"
  rd_Requirements :: routing_requirements
  rd_RecommendedCandidateID :: string
  rd_RecommendedProvider :: string
  rd_RecommendedModelSelection :: model_selection
  rd_RecommendedModel :: string
  rd_Evaluations :: "candidate_evaluation list"

definition RecommendedBinding :: "routing_decision \<Rightarrow> execution_binding option" where
  "RecommendedBinding d =
     (if rd_Status d \<noteq> DecisionRecommended \<or> blank (rd_RecommendedProvider d) then None
      else let b = \<lparr>eb_Provider = rd_RecommendedProvider d,
                    eb_ModelSelection = rd_RecommendedModelSelection d,
                    eb_Model = rd_RecommendedModel d\<rparr>
           in if ValidateForNewWork b \<noteq> None then None else Some b)"

definition support_of :: "(string \<rightharpoonup> capability_support) \<Rightarrow> string \<Rightarrow> capability_support" where
  "support_of m k = (case m k of Some s \<Rightarrow> s | None \<Rightarrow> SupportOther [])"

type_synonym rejection = "string \<times> error"

definition role_rejections :: "routing_requirements \<Rightarrow> routing_candidate \<Rightarrow> rejection list" where
  "role_rejections req c =
     (case rr_Role req of
        RoleWorker \<Rightarrow> if rc_WorkerEligible c then []
          else [(''ROLE_INELIGIBLE'', Errorf ''candidate is not eligible for worker execution'' [])]
      | RoleCoordinator \<Rightarrow> if rc_CoordinatorEligible c then []
          else [(''ROLE_INELIGIBLE'', Errorf ''candidate is not eligible for coordinator execution'' [])]
      | RoleOther _ \<Rightarrow> [(''ROLE_UNKNOWN'', Errorf ''requested role is unsupported'' [])])"

definition readiness_rejections :: "routing_candidate \<Rightarrow> rejection list" where
  "readiness_rejections c =
     (if rc_Readiness c \<noteq> Supported
      then [(if rc_Readiness c = Unsupported then ''NOT_READY'' else ''READINESS_UNKNOWN'',
             Errorf ''candidate readiness is not confirmed'' [])]
      else [])"

definition capability_rejections :: "routing_requirements \<Rightarrow> routing_candidate \<Rightarrow> rejection list" where
  "capability_rejections req c =
     concat (map (\<lambda>cap.
       if support_of (rc_Capabilities c) cap \<noteq> Supported
       then [(if support_of (rc_Capabilities c) cap = Unsupported then ''CAPABILITY_UNSUPPORTED''
              else ''CAPABILITY_UNKNOWN'',
              Errorf ''mandatory capability %s is not confirmed'' [Str cap])]
       else []) (rr_HardCapabilities req))"

definition model_code :: "capability_support \<Rightarrow> string" where
  "model_code s = (if s = Unsupported then ''MODEL_UNSUPPORTED'' else ''MODEL_UNKNOWN'')"

definition is_preferred :: "routing_requirements \<Rightarrow> routing_candidate \<Rightarrow> bool" where
  "is_preferred req c =
     (case rr_Preference req of None \<Rightarrow> False | Some p \<Rightarrow> rc_Provider c = rp_Provider p)"

definition fallback_binding :: "routing_candidate \<Rightarrow> execution_binding" where
  "fallback_binding c =
     \<lparr>eb_Provider = rc_Provider c, eb_ModelSelection = rc_ModelSelection c, eb_Model = rc_Model c\<rparr>"

text \<open>The model part of the loop body: the rejections and the binding it leaves.\<close>

definition preferred_model ::
  "routing_preference \<Rightarrow> routing_candidate \<Rightarrow> rejection list \<times> execution_binding" where
  "preferred_model p c =
     (let b = fallback_binding c in
      case rp_ModelSelection p of
        PrefExplicit \<Rightarrow>
          (let s = support_of (rc_Models c) (rp_Model p) in
           if s \<noteq> Supported
           then ([(model_code s,
                   Errorf ''preferred model is not supported by the preferred provider'' [])], b)
           else ([], b\<lparr>eb_ModelSelection := MsExplicit, eb_Model := rp_Model p\<rparr>))
      | PrefProviderDefault \<Rightarrow>
          (if rc_ModelSelection c \<noteq> MsProviderDefault
           then ([(''MODEL_BINDING_INVALID'',
                   Errorf ''preferred provider does not expose provider-default model semantics'' [])], b)
           else ([], b\<lparr>eb_ModelSelection := MsProviderDefault, eb_Model := []\<rparr>))
      | PrefOther _ \<Rightarrow>
          ([(''PREFERENCE_INVALID'', Errorf ''execution preference model semantics are invalid'' [])], b))"

definition unpreferred_model :: "routing_candidate \<Rightarrow> rejection list \<times> execution_binding" where
  "unpreferred_model c =
     (let b = fallback_binding c in
      (case ValidateForNewWork b of
         Some e \<Rightarrow> [(''MODEL_BINDING_INVALID'', e)]
       | None \<Rightarrow>
           if eb_ModelSelection b = MsExplicit \<and> support_of (rc_Models c) (eb_Model b) \<noteq> Supported
           then [(model_code (support_of (rc_Models c) (eb_Model b)),
                  Errorf ''candidate explicit model support is not confirmed'' [])]
           else [],
       b))"

definition model_outcome ::
  "routing_requirements \<Rightarrow> routing_candidate \<Rightarrow> rejection list \<times> execution_binding" where
  "model_outcome req c =
     (case rr_Preference req of
        Some p \<Rightarrow> if rc_Provider c = rp_Provider p then preferred_model p c else unpreferred_model c
      | None \<Rightarrow> unpreferred_model c)"

definition rejections :: "routing_requirements \<Rightarrow> routing_candidate \<Rightarrow> rejection list" where
  "rejections req c =
     role_rejections req c @ readiness_rejections c @ capability_rejections req c @
     fst (model_outcome req c)"

definition evaluate_candidate :: "routing_requirements \<Rightarrow> routing_candidate \<Rightarrow> candidate_evaluation" where
  "evaluate_candidate req c =
     \<lparr>ce_CandidateID = rc_ID c, ce_Provider = rc_Provider c,
      ce_Admissible = (rejections req c = []), ce_Preferred = is_preferred req c,
      ce_RejectionCodes = map fst (rejections req c), ce_Reasons = map snd (rejections req c)\<rparr>"

definition admitted_candidates ::
  "routing_requirements \<Rightarrow> routing_candidate list \<Rightarrow> routing_candidate list" where
  "admitted_candidates req cs = filter (\<lambda>c. rejections req c = []) (sort_key rc_ID cs)"

definition RouteExecution ::
  "routing_requirements \<Rightarrow> routing_candidate list \<Rightarrow> string \<Rightarrow> routing_decision" where
  "RouteExecution req cs snapshot =
     (let d = \<lparr>rd_Status = DecisionNoValidCandidate, rd_PolicyVersion = ''wt3-v2-deterministic'',
               rd_CapabilitySnapshot = snapshot, rd_Role = rr_Role req,
               rd_EffectivePreference = rr_Preference req, rd_Requirements = req,
               rd_RecommendedCandidateID = [], rd_RecommendedProvider = [],
               rd_RecommendedModelSelection = MsEmpty, rd_RecommendedModel = [],
               rd_Evaluations = map (evaluate_candidate req) (sort_key rc_ID cs)\<rparr>
      in case admitted_candidates req cs of
           [] \<Rightarrow> d
         | a # as \<Rightarrow>
             (let w = (case find (is_preferred req) (a # as) of Some c \<Rightarrow> c | None \<Rightarrow> a);
                  b = snd (model_outcome req w)
              in d\<lparr>rd_Status := DecisionRecommended, rd_RecommendedCandidateID := rc_ID w,
                   rd_RecommendedProvider := eb_Provider b,
                   rd_RecommendedModelSelection := eb_ModelSelection b,
                   rd_RecommendedModel := eb_Model b\<rparr>))"

text \<open>What an admitted candidate has.\<close>

lemma support_of_Supported: "support_of m k = Supported \<longleftrightarrow> m k = Some Supported"
  by (simp add: support_of_def split: option.splits)

lemma admitted_facts:
  assumes "c \<in> set (admitted_candidates req cs)"
  shows "c \<in> set cs" and "rejections req c = []" and "rc_Readiness c = Supported"
    and "\<forall>cap\<in>set (rr_HardCapabilities req). rc_Capabilities c cap = Some Supported"
    and "rr_Role req = RoleWorker \<and> rc_WorkerEligible c \<or>
         rr_Role req = RoleCoordinator \<and> rc_CoordinatorEligible c"
proof -
  show c: "c \<in> set cs" "rejections req c = []" using assms by (simp_all add: admitted_candidates_def)
  then have parts: "readiness_rejections c = []" "capability_rejections req c = []" "role_rejections req c = []"
    by (simp_all add: rejections_def)
  from parts(1) show "rc_Readiness c = Supported" by (simp add: readiness_rejections_def split: if_splits)
  from parts(2) show "\<forall>cap\<in>set (rr_HardCapabilities req). rc_Capabilities c cap = Some Supported"
    by (auto simp: capability_rejections_def support_of_Supported split: if_splits)
  from parts(3) show "rr_Role req = RoleWorker \<and> rc_WorkerEligible c \<or>
         rr_Role req = RoleCoordinator \<and> rc_CoordinatorEligible c"
    by (cases "rr_Role req") (auto simp: role_rejections_def split: if_splits)
qed

lemma model_outcome_provider [simp]: "eb_Provider (snd (model_outcome req c)) = rc_Provider c"
  by (auto simp: model_outcome_def preferred_model_def unpreferred_model_def fallback_binding_def
      Let_def split: option.splits pref_selection.splits)

text \<open>The winner: the first preferred admitted candidate in id order, otherwise the first.\<close>

definition routed_winner :: "routing_requirements \<Rightarrow> routing_candidate list \<Rightarrow> routing_candidate option" where
  "routed_winner req cs =
     (case find (is_preferred req) (admitted_candidates req cs) of
        Some c \<Rightarrow> Some c
      | None \<Rightarrow> (case admitted_candidates req cs of [] \<Rightarrow> None | a # _ \<Rightarrow> Some a))"

lemma routed_fields:
  assumes "routed_winner req cs = Some w"
  shows "rd_Status (RouteExecution req cs s) = DecisionRecommended"
    and "rd_RecommendedCandidateID (RouteExecution req cs s) = rc_ID w"
    and "rd_RecommendedProvider (RouteExecution req cs s) = rc_Provider w"
    and "rd_RecommendedModelSelection (RouteExecution req cs s) =
           eb_ModelSelection (snd (model_outcome req w))"
    and "rd_RecommendedModel (RouteExecution req cs s) = eb_Model (snd (model_outcome req w))"
proof -
  obtain a as where cs: "admitted_candidates req cs = a # as"
      "(case find (is_preferred req) (a # as) of Some c \<Rightarrow> c | None \<Rightarrow> a) = w"
    using assms by (cases "admitted_candidates req cs")
      (auto simp: routed_winner_def split: option.splits)
  show "rd_Status (RouteExecution req cs s) = DecisionRecommended"
    and "rd_RecommendedCandidateID (RouteExecution req cs s) = rc_ID w"
    and "rd_RecommendedProvider (RouteExecution req cs s) = rc_Provider w"
    and "rd_RecommendedModelSelection (RouteExecution req cs s) =
           eb_ModelSelection (snd (model_outcome req w))"
    and "rd_RecommendedModel (RouteExecution req cs s) = eb_Model (snd (model_outcome req w))"
    unfolding RouteExecution_def cs(1) list.case cs(2) Let_def by simp_all
qed

lemma routed_winner_admitted:
  "routed_winner req cs = Some w \<Longrightarrow> w \<in> set (admitted_candidates req cs)"
  by (auto simp: routed_winner_def split: option.splits list.splits dest: find_SomeD)

lemma routed_winner_None: "routed_winner req cs = None \<longleftrightarrow> admitted_candidates req cs = []"
  by (auto simp: routed_winner_def split: option.splits list.splits)

lemma routed_status:
  "rd_Status (RouteExecution req cs s) = DecisionRecommended \<longleftrightarrow> routed_winner req cs \<noteq> None"
  by (auto simp: RouteExecution_def routed_winner_def Let_def split: option.splits list.splits)

lemma sorted_admitted: "sorted (map rc_ID (admitted_candidates req cs))"
  by (simp add: admitted_candidates_def sorted_filter)

text \<open>Every binding an admitted candidate leaves authorizes new work, given a valid preference.\<close>

lemma admitted_binding_valid:
  assumes "rejections req c = []"
    and "\<And>p. rr_Preference req = Some p \<Longrightarrow>
           ExecutionPreference_Validate
             \<lparr>xp_Provider = rp_Provider p, xp_ModelSelection = rp_ModelSelection p,
              xp_Model = rp_Model p\<rparr> = None"
  shows "ValidateForNewWork (snd (model_outcome req c)) = None"
proof (cases "is_preferred req c")
  case True
  then obtain p where p: "rr_Preference req = Some p" "rc_Provider c = rp_Provider p"
    by (auto simp: is_preferred_def split: option.splits)
  then have "fst (preferred_model p c) = []" and out: "model_outcome req c = preferred_model p c"
    using assms(1) by (simp_all add: rejections_def model_outcome_def)
  then show ?thesis
    using assms(2) [OF p(1)] p(2) unfolding out
    by (auto simp: preferred_model_def fallback_binding_def new_work_binding Let_def guards
        ExecutionPreference_Validate_def IsSelectableForNewWork_def
        split: pref_selection.splits if_splits)
next
  case False
  then have "model_outcome req c = unpreferred_model c"
    by (auto simp: is_preferred_def model_outcome_def split: option.splits)
  then show ?thesis
    using assms(1) by (auto simp: rejections_def unpreferred_model_def Let_def split: option.splits)
qed

end
