(* ===== verification/Go_Json.thy ===== *)
theory Go_Json
  imports Go_Prelude
begin

text \<open>
  \<^verbatim>\<open>json.Valid\<close> of Go's standard library, which the validators call on payloads and details:
  the scanner of encoding/json as a fold of its step function over the bytes, with the stack of
  open objects and arrays and its nesting limit.
\<close>

datatype parse_state = ParseObjectKey | ParseObjectValue | ParseArrayValue

datatype scan_state = BeginValueOrEmpty | BeginValue | BeginStringOrEmpty | BeginString
  | InString | InStringEsc | EscU nat | Neg | Digits | Zero | Dot | DotDigits | Expo | ExpoSign
  | ExpoDigits | Literal string | EndValue | EndTop | ScanError

type_synonym scanner = "scan_state \<times> parse_state list"

definition json_space :: "char \<Rightarrow> bool" where
  "json_space c = (c \<in> set [CHR 0x20, CHR 0x09, CHR 0x0D, CHR 0x0A])"

definition is_digit :: "char \<Rightarrow> bool" where
  "is_digit c = (48 \<le> (of_char c :: nat) \<and> (of_char c :: nat) \<le> 57)"

definition is_hex :: "char \<Rightarrow> bool" where
  "is_hex c = (let n = (of_char c :: nat) in
     48 \<le> n \<and> n \<le> 57 \<or> 97 \<le> n \<and> n \<le> 102 \<or> 65 \<le> n \<and> n \<le> 70)"

definition scan_push :: "parse_state \<Rightarrow> scan_state \<Rightarrow> parse_state list \<Rightarrow> scanner" where
  "scan_push p next ps = (if length ps < 10000 then (next, p # ps) else (ScanError, ps))"

definition scan_pop :: "parse_state list \<Rightarrow> scanner" where
  "scan_pop ps = (if ps = [] then (EndTop, []) else (EndValue, ps))"

definition end_value :: "char \<Rightarrow> parse_state list \<Rightarrow> scanner" where
  "end_value c ps =
     (case ps of
        [] \<Rightarrow> if json_space c then (EndTop, []) else (ScanError, [])
      | p # rest \<Rightarrow>
          if json_space c then (EndValue, ps)
          else (case p of
                  ParseObjectKey \<Rightarrow>
                    if c = CHR '':'' then (BeginValue, ParseObjectValue # rest) else (ScanError, ps)
                | ParseObjectValue \<Rightarrow>
                    if c = CHR '','' then (BeginString, ParseObjectKey # rest)
                    else if c = CHR ''}'' then scan_pop rest else (ScanError, ps)
                | ParseArrayValue \<Rightarrow>
                    if c = CHR '','' then (BeginValue, ps)
                    else if c = CHR '']'' then scan_pop rest else (ScanError, ps)))"

definition begin_value :: "char \<Rightarrow> parse_state list \<Rightarrow> scanner" where
  "begin_value c ps =
     (if json_space c then (BeginValue, ps)
      else if c = CHR ''{'' then scan_push ParseObjectKey BeginStringOrEmpty ps
      else if c = CHR ''['' then scan_push ParseArrayValue BeginValueOrEmpty ps
      else if c = CHR 0x22 then (InString, ps)
      else if c = CHR ''-'' then (Neg, ps)
      else if c = CHR ''0'' then (Zero, ps)
      else if c = CHR ''t'' then (Literal ''rue'', ps)
      else if c = CHR ''f'' then (Literal ''alse'', ps)
      else if c = CHR ''n'' then (Literal ''ull'', ps)
      else if is_digit c then (Digits, ps) else (ScanError, ps))"

definition begin_string :: "char \<Rightarrow> parse_state list \<Rightarrow> scanner" where
  "begin_string c ps =
     (if json_space c then (BeginString, ps)
      else if c = CHR 0x22 then (InString, ps) else (ScanError, ps))"

definition after_integer :: "char \<Rightarrow> parse_state list \<Rightarrow> scanner" where
  "after_integer c ps =
     (if c = CHR ''.'' then (Dot, ps)
      else if c = CHR ''e'' \<or> c = CHR ''E'' then (Expo, ps) else end_value c ps)"

fun scan_step :: "char \<Rightarrow> scanner \<Rightarrow> scanner" where
  "scan_step c (BeginValueOrEmpty, ps) =
     (if json_space c then (BeginValueOrEmpty, ps)
      else if c = CHR '']'' then end_value c ps else begin_value c ps)"
| "scan_step c (BeginValue, ps) = begin_value c ps"
| "scan_step c (BeginStringOrEmpty, ps) =
     (if json_space c then (BeginStringOrEmpty, ps)
      else if c = CHR ''}'' then end_value c (ParseObjectValue # drop 1 ps) else begin_string c ps)"
| "scan_step c (BeginString, ps) = begin_string c ps"
| "scan_step c (InString, ps) =
     (if c = CHR 0x22 then (EndValue, ps) else if c = CHR 0x5C then (InStringEsc, ps)
      else if (of_char c :: nat) < 32 then (ScanError, ps) else (InString, ps))"
| "scan_step c (InStringEsc, ps) =
     (if c \<in> set [CHR ''b'', CHR ''f'', CHR ''n'', CHR ''r'', CHR ''t'', CHR 0x5C, CHR ''/'', CHR 0x22]
      then (InString, ps) else if c = CHR ''u'' then (EscU 4, ps) else (ScanError, ps))"
| "scan_step c (EscU n, ps) =
     (if \<not> is_hex c then (ScanError, ps) else if n \<le> 1 then (InString, ps) else (EscU (n - 1), ps))"
| "scan_step c (Neg, ps) =
     (if c = CHR ''0'' then (Zero, ps) else if is_digit c then (Digits, ps) else (ScanError, ps))"
| "scan_step c (Digits, ps) = (if is_digit c then (Digits, ps) else after_integer c ps)"
| "scan_step c (Zero, ps) = after_integer c ps"
| "scan_step c (Dot, ps) = (if is_digit c then (DotDigits, ps) else (ScanError, ps))"
| "scan_step c (DotDigits, ps) =
     (if is_digit c then (DotDigits, ps)
      else if c = CHR ''e'' \<or> c = CHR ''E'' then (Expo, ps) else end_value c ps)"
| "scan_step c (Expo, ps) =
     (if c = CHR ''+'' \<or> c = CHR ''-'' then (ExpoSign, ps)
      else if is_digit c then (ExpoDigits, ps) else (ScanError, ps))"
| "scan_step c (ExpoSign, ps) = (if is_digit c then (ExpoDigits, ps) else (ScanError, ps))"
| "scan_step c (ExpoDigits, ps) = (if is_digit c then (ExpoDigits, ps) else end_value c ps)"
| "scan_step c (Literal rest, ps) =
     (case rest of [] \<Rightarrow> (ScanError, ps)
      | d # ds \<Rightarrow> if c = d then (if ds = [] then EndValue else Literal ds, ps) else (ScanError, ps))"
| "scan_step c (EndValue, ps) = end_value c ps"
| "scan_step c (EndTop, ps) = (if json_space c then (EndTop, ps) else (ScanError, ps))"
| "scan_step c (ScanError, ps) = (ScanError, ps)"

definition json_valid :: "string \<Rightarrow> bool" where
  "json_valid s = (fst (foldl (\<lambda>st c. scan_step c st) (BeginValue, []) (s @ '' '')) = EndTop)"

lemma json_examples:
  "json_valid ''{}''" "json_valid ''[1, true]''" "\<not> json_valid ''''" "\<not> json_valid ''{1}''"
  by (simp_all add: json_valid_def begin_value_def begin_string_def end_value_def json_space_def
      scan_push_def scan_pop_def is_digit_def after_integer_def)

end
