(* ===== verification/Attempt.thy ===== *)
theory Attempt
  imports Execution Go_Json
begin

text \<open>
  Attempts (internal/domain/outcome_attempt.go): the stored status machine, the rows of an
  attempt's history, and the presentation derived from a status and the heartbeat facts of the
  bound session. Run intents (run_intent.go, outcome_run_intent.go): the owner's authorization
  generations and the transition an owner command makes.
\<close>

section \<open>The status machine\<close>

datatype attempt_status = AttemptQueued | AttemptRunning | AttemptPaused | AttemptSucceeded
  | AttemptFailed | AttemptCancelled | AttemptLost | AttemptReconciled | AttemptStatusOther string

fun AttemptStatus_Valid :: "attempt_status \<Rightarrow> bool" where
  "AttemptStatus_Valid (AttemptStatusOther _) = False"
| "AttemptStatus_Valid _ = True"

definition AttemptStatus_Terminal :: "attempt_status \<Rightarrow> bool" where
  "AttemptStatus_Terminal s =
     (s \<in> set [AttemptSucceeded, AttemptFailed, AttemptCancelled, AttemptLost, AttemptReconciled])"

fun LegalAttemptTransitions :: "attempt_status \<Rightarrow> attempt_status list" where
  "LegalAttemptTransitions AttemptQueued =
     [AttemptRunning, AttemptFailed, AttemptCancelled, AttemptLost]"
| "LegalAttemptTransitions AttemptPaused = [AttemptRunning, AttemptCancelled, AttemptLost]"
| "LegalAttemptTransitions AttemptRunning =
     [AttemptPaused, AttemptFailed, AttemptCancelled, AttemptLost, AttemptReconciled]"
| "LegalAttemptTransitions AttemptReconciled = [AttemptSucceeded]"
| "LegalAttemptTransitions _ = []"

definition AttemptTransitionLegal :: "attempt_status \<Rightarrow> attempt_status \<Rightarrow> bool" where
  "AttemptTransitionLegal from to = (from = to \<or> to \<in> set (LegalAttemptTransitions from))"

text \<open>The transitions as a step relation, with the inversion rules the invariants use.\<close>

inductive attempt_step :: "attempt_status \<Rightarrow> attempt_status \<Rightarrow> bool" where
  step: "to \<in> set (LegalAttemptTransitions from) \<Longrightarrow> attempt_step from to"

inductive_cases step_to_succeeded: "attempt_step s AttemptSucceeded"
inductive_simps step_from_terminal:
  "attempt_step AttemptSucceeded t" "attempt_step AttemptFailed t"
  "attempt_step AttemptCancelled t" "attempt_step AttemptLost t"

lemma succeeded_only_from_reconciled:
  "AttemptTransitionLegal s AttemptSucceeded \<longleftrightarrow> s = AttemptSucceeded \<or> s = AttemptReconciled"
  by (cases s) (auto simp: AttemptTransitionLegal_def)

lemma legal_valid:
  "AttemptTransitionLegal s t \<Longrightarrow> AttemptStatus_Valid s \<Longrightarrow> AttemptStatus_Valid t"
  by (cases s) (auto simp: AttemptTransitionLegal_def)

lemma terminal_stays:
  "AttemptTransitionLegal s t \<Longrightarrow> AttemptStatus_Terminal s \<Longrightarrow> AttemptStatus_Terminal t"
  by (cases s) (auto simp: AttemptTransitionLegal_def AttemptStatus_Terminal_def)

lemma terminal_frozen:
  "AttemptTransitionLegal s t \<Longrightarrow> AttemptStatus_Terminal s \<Longrightarrow>
   t = s \<or> s = AttemptReconciled \<and> t = AttemptSucceeded"
  by (cases s) (auto simp: AttemptTransitionLegal_def AttemptStatus_Terminal_def)

text \<open>No status can be visited again once left: the machine ranks its statuses, except that a
  paused attempt may run again.\<close>

definition live :: "attempt_status \<Rightarrow> bool" where
  "live s = (s \<in> set [AttemptQueued, AttemptRunning, AttemptPaused])"

lemma queued_never_returns: "attempt_step s t \<Longrightarrow> t \<noteq> AttemptQueued"
  by (cases s) (auto elim: attempt_step.cases)

lemma ended_never_live: "AttemptTransitionLegal s t \<Longrightarrow> AttemptStatus_Terminal s \<Longrightarrow> \<not> live t"
  by (cases s) (auto simp: AttemptTransitionLegal_def AttemptStatus_Terminal_def live_def)

section \<open>Rows\<close>

record attempt =
  a_ID :: ident
  a_OutcomeID :: ident
  a_PlanRevisionID :: ident
  a_WorkUnitID :: ident
  a_Number :: int
  a_Status :: attempt_status
  a_ContractRevisionNumber :: int
  a_RunIntentGeneration :: int
  a_RequestKey :: string
  a_CreatedAt :: instant
  a_UpdatedAt :: instant

definition Attempt_Validate :: "attempt \<Rightarrow> validation" where
  "Attempt_Validate a = first_error
     [refuse (blank (a_ID a)) (Errorf ''attempt id is required'' []),
      refuse (blank (a_OutcomeID a)) (Errorf ''attempt outcome id is required'' []),
      refuse (blank (a_PlanRevisionID a)) (Errorf ''attempt plan revision id is required'' []),
      refuse (blank (a_WorkUnitID a)) (Errorf ''attempt work unit id is required'' []),
      refuse (a_Number a < 1) (Errorf ''attempt number must be at least 1'' []),
      refuse (a_ContractRevisionNumber a < 1)
        (Errorf ''attempt contract revision number must be at least 1'' []),
      refuse (\<not> AttemptStatus_Valid (a_Status a)) (Errorf ''unsupported attempt status %q''
        [case a_Status a of AttemptStatusOther s \<Rightarrow> Str s | _ \<Rightarrow> Str []])]"

record session_ref =
  sr_ID :: ident
  sr_AttemptID :: ident
  sr_Seq :: int
  sr_SessionID :: string
  sr_Harness :: harness
  sr_Mode :: string
  sr_RunBriefCoreDigest :: string
  sr_RunBriefCompiledDigest :: string
  sr_AdmissionSnapshot :: string
  sr_BoundAt :: instant

definition AttemptSessionRef_Validate :: "session_ref \<Rightarrow> validation" where
  "AttemptSessionRef_Validate r = first_error
     [refuse (blank (sr_ID r)) (Errorf ''attempt session ref id is required'' []),
      refuse (blank (sr_AttemptID r)) (Errorf ''attempt session ref attempt id is required'' []),
      refuse (sr_Seq r < 1) (Errorf ''attempt session ref seq must be at least 1'' []),
      refuse (blank (sr_SessionID r)) (Errorf ''attempt session ref session id is required'' []),
      refuse (length (sr_RunBriefCoreDigest r) \<noteq> 64)
        (Errorf ''attempt session ref requires the run brief core digest'' [])]"

record observation =
  ob_ID :: ident
  ob_AttemptID :: ident
  ob_Seq :: int
  ob_Kind :: string
  ob_Payload :: string
  ob_CreatedAt :: instant

definition AttemptObservation_Validate :: "observation \<Rightarrow> validation" where
  "AttemptObservation_Validate o' = first_error
     [refuse (blank (ob_ID o')) (Errorf ''attempt observation id is required'' []),
      refuse (blank (ob_AttemptID o')) (Errorf ''attempt observation attempt id is required'' []),
      refuse (ob_Seq o' < 1) (Errorf ''attempt observation seq must be at least 1'' []),
      refuse (blank (ob_Kind o')) (Errorf ''attempt observation kind is required'' []),
      refuse (ob_Payload o' \<noteq> [] \<and> \<not> json_valid (ob_Payload o'))
        (Errorf ''attempt observation payload must be valid JSON'' [])]"

text \<open>The canonical observation kinds.\<close>

definition ObservationAttemptContained :: string where "ObservationAttemptContained = ''contained''"
definition ObservationAttemptResumed :: string where "ObservationAttemptResumed = ''resumed''"
definition ObservationProviderExit :: string where "ObservationProviderExit = ''provider_exit''"
definition ObservationAttemptClassified :: string where
  "ObservationAttemptClassified = ''attempt_classified''"
definition ObservationAdmissionFailed :: string where
  "ObservationAdmissionFailed = ''admission_failed''"
definition ObservationAdmissionAmbiguous :: string where
  "ObservationAdmissionAmbiguous = ''admission_ambiguous''"
definition ObservationActivationAmbiguous :: string where
  "ObservationActivationAmbiguous = ''activation_ambiguous''"
definition ObservationGovernedCheckTerminationUnknown :: string where
  "ObservationGovernedCheckTerminationUnknown = ''governed_check_termination_unknown''"
definition ObservationProviderStopFailed :: string where
  "ObservationProviderStopFailed = ''provider_stop_failed''"
definition ObservationOwnerContained :: string where "ObservationOwnerContained = ''owner_contained''"
definition ObservationOwnerCancel :: string where "ObservationOwnerCancel = ''owner_cancelled''"
definition ObservationRecoveryAttention :: string where
  "ObservationRecoveryAttention = ''needs_attention''"
definition ObservationInputProvisioningFailed :: string where
  "ObservationInputProvisioningFailed = ''input_provisioning_failed''"

lemmas observation_kinds = ObservationAttemptContained_def ObservationAttemptResumed_def
  ObservationProviderExit_def ObservationAttemptClassified_def ObservationAdmissionFailed_def
  ObservationAdmissionAmbiguous_def ObservationActivationAmbiguous_def
  ObservationGovernedCheckTerminationUnknown_def ObservationProviderStopFailed_def
  ObservationOwnerContained_def ObservationOwnerCancel_def ObservationRecoveryAttention_def
  ObservationInputProvisioningFailed_def

record attempt_fence =
  af_ID :: ident
  af_Subject :: string
  af_AttemptID :: ident
  af_IssuedAt :: instant
  af_LastRenewedAt :: instant
  af_ReleasedAt :: instant
  af_ReleaseReason :: string

definition AttemptFence_Open :: "attempt_fence \<Rightarrow> bool" where
  "AttemptFence_Open f = (af_ReleasedAt f = zero_time)"

definition AttemptFence_Validate :: "attempt_fence \<Rightarrow> validation" where
  "AttemptFence_Validate f = first_error
     [refuse (blank (af_ID f)) (Errorf ''attempt fence id is required'' []),
      refuse (blank (af_Subject f)) (Errorf ''attempt fence subject is required'' []),
      refuse (blank (af_AttemptID f)) (Errorf ''attempt fence attempt id is required'' []),
      refuse (\<not> AttemptFence_Open f \<and> af_ReleaseReason f = [])
        (Errorf ''a released attempt fence must record why'' [])]"

definition FenceSubjectForProject :: "ident \<Rightarrow> string" where
  "FenceSubjectForProject project = ''project:'' @ project"

datatype recovery_resolution = RecoveryResumed | RecoveryReplacement | RecoveryNeedsAttention
  | RecoveryOther string

fun RecoveryResolution_Valid :: "recovery_resolution \<Rightarrow> bool" where
  "RecoveryResolution_Valid (RecoveryOther _) = False"
| "RecoveryResolution_Valid _ = True"

record recovery_receipt =
  rv_ID :: ident
  rv_AttemptID :: ident
  rv_Resolution :: recovery_resolution
  rv_ReplacementAttemptID :: ident
  rv_Detail :: string
  rv_CreatedAt :: instant

definition AttemptRecoveryReceipt_Validate :: "recovery_receipt \<Rightarrow> validation" where
  "AttemptRecoveryReceipt_Validate r = first_error
     [refuse (blank (rv_ID r)) (Errorf ''recovery receipt id is required'' []),
      refuse (blank (rv_AttemptID r)) (Errorf ''recovery receipt attempt id is required'' []),
      refuse (\<not> RecoveryResolution_Valid (rv_Resolution r))
        (Errorf ''unsupported recovery resolution %q''
           [case rv_Resolution r of RecoveryOther s \<Rightarrow> Str s | _ \<Rightarrow> Str []])]"

section \<open>Presentation\<close>

datatype activity_state = ActivityActive | ActivityIdle | ActivityWaitingInput | ActivityBlocked
  | ActivityExited | ActivityOther string

definition IsSticky :: "activity_state \<Rightarrow> bool" where
  "IsSticky s = (s = ActivityWaitingInput \<or> s = ActivityBlocked)"

record heartbeat_facts =
  hf_Present :: bool
  hf_ActivityState :: activity_state
  hf_FirstSignalAt :: instant
  hf_LastActivityAt :: instant
  hf_IsTerminated :: bool

text \<open>The liveness policy; its clock reading is passed in, since a zero \<^verbatim>\<open>Now\<close> reads the
  wall clock.\<close>

record liveness_policy =
  lp_Now :: instant
  lp_StaleHeartbeatAfter :: int

definition DefaultStaleHeartbeatWindow :: int where
  "DefaultStaleHeartbeatWindow = 15 * 60 * 1000000000"

definition policy_now :: "instant \<Rightarrow> liveness_policy \<Rightarrow> instant" where
  "policy_now wall p = (if lp_Now p = zero_time then wall else lp_Now p)"

definition policy_window :: "liveness_policy \<Rightarrow> int" where
  "policy_window p =
     (if lp_StaleHeartbeatAfter p > 0 then lp_StaleHeartbeatAfter p else DefaultStaleHeartbeatWindow)"

definition RecentlyActive :: "instant \<Rightarrow> liveness_policy \<Rightarrow> heartbeat_facts \<Rightarrow> bool" where
  "RecentlyActive wall p f =
     (if IsSticky (hf_ActivityState f) then True
      else let ref = (if hf_LastActivityAt f = zero_time then hf_FirstSignalAt f else hf_LastActivityAt f)
           in if ref = zero_time then False else policy_now wall p - ref \<le> policy_window p)"

datatype attempt_phase = PhaseAwaitingStart | PhaseExecuting | PhaseSuspended | PhaseUnconfirmed
  | PhaseNeedsInput | PhaseEndedUnclassified | PhaseHaltedFailed | PhaseHaltedCancelled
  | PhaseSuspectLost | PhaseSucceeded

record attempt_presentation =
  ap_Phase :: attempt_phase
  ap_Unconfirmed :: bool
  ap_EndedUnclassified :: bool
  ap_Attention :: string

text \<open>A presentation also carries a sentence for the owner, which the model leaves out.\<close>

definition present :: "attempt_phase \<Rightarrow> attempt_presentation" where
  "present ph = \<lparr>ap_Phase = ph, ap_Unconfirmed = False, ap_EndedUnclassified = False, ap_Attention = []\<rparr>"

definition unconfirmedPresentation :: attempt_presentation where
  "unconfirmedPresentation = (present PhaseUnconfirmed)\<lparr>ap_Unconfirmed := True\<rparr>"

definition endedUnclassifiedPresentation :: attempt_presentation where
  "endedUnclassifiedPresentation = (present PhaseEndedUnclassified)\<lparr>ap_EndedUnclassified := True\<rparr>"

definition DeriveAttemptPresentation ::
  "instant \<Rightarrow> attempt_status \<Rightarrow> heartbeat_facts \<Rightarrow> bool \<Rightarrow> bool \<Rightarrow> liveness_policy \<Rightarrow>
   attempt_presentation" where
  "DeriveAttemptPresentation wall status facts unresolvedAdmission unresolvedCheck policy =
     (case status of
        AttemptQueued \<Rightarrow>
          if unresolvedAdmission then unconfirmedPresentation else present PhaseAwaitingStart
      | AttemptPaused \<Rightarrow> present PhaseSuspended
      | AttemptRunning \<Rightarrow>
          if unresolvedCheck then unconfirmedPresentation
          else if hf_IsTerminated facts then endedUnclassifiedPresentation
          else if \<not> hf_Present facts \<or> hf_FirstSignalAt facts = zero_time \<or>
                  \<not> RecentlyActive wall policy facts then unconfirmedPresentation
          else if hf_ActivityState facts = ActivityWaitingInput
          then (present PhaseNeedsInput)\<lparr>ap_Attention := ''waiting_input''\<rparr>
          else if hf_ActivityState facts = ActivityBlocked
          then (present PhaseNeedsInput)\<lparr>ap_Attention := ''blocked''\<rparr>
          else present PhaseExecuting
      | AttemptFailed \<Rightarrow> present PhaseHaltedFailed
      | AttemptCancelled \<Rightarrow> present PhaseHaltedCancelled
      | AttemptLost \<Rightarrow> present PhaseSuspectLost
      | AttemptReconciled \<Rightarrow> endedUnclassifiedPresentation
      | AttemptSucceeded \<Rightarrow> present PhaseSucceeded
      | AttemptStatusOther _ \<Rightarrow> unconfirmedPresentation)"

lemmas presentation_defs = DeriveAttemptPresentation_def present_def unconfirmedPresentation_def
  endedUnclassifiedPresentation_def

section \<open>Run intents\<close>

datatype run_desired = RunUnset | RunIdle | RunRunning | RunPaused | RunCancelled | RunOther string

definition RunIntentDesired_Valid :: "run_desired \<Rightarrow> bool" where
  "RunIntentDesired_Valid d = (d \<in> set [RunIdle, RunRunning, RunPaused, RunCancelled])"

definition AdmitsWork :: "run_desired \<Rightarrow> bool" where
  "AdmitsWork d = (d = RunRunning)"

datatype run_command = CmdStart | CmdPause | CmdResume | CmdCancel | CmdOther string

fun RunCommand_Valid :: "run_command \<Rightarrow> bool" where
  "RunCommand_Valid (CmdOther _) = False"
| "RunCommand_Valid _ = True"

record run_admission_failure =
  rf_Code :: string
  rf_Message :: string
  rf_DetailJSON :: string
  rf_WorkUnitID :: ident
  rf_OccurredAt :: instant

definition RunAdmissionFailure_Validate :: "run_admission_failure \<Rightarrow> validation" where
  "RunAdmissionFailure_Validate f = first_error
     [refuse (blank (rf_Code f) \<or> blank (rf_Message f) \<or> blank (rf_WorkUnitID f) \<or>
              rf_OccurredAt f = zero_time)
        (Errorf ''run admission failure requires code, message, work unit, and timestamp'' []),
      refuse (\<not> json_valid (rf_DetailJSON f))
        (Errorf ''run admission failure detail must be valid JSON'' [])]"

record run_intent =
  ri_ID :: ident
  ri_OutcomeID :: ident
  ri_Generation :: int
  ri_Desired :: run_desired
  ri_Command :: run_command
  ri_ExpectedGeneration :: int
  ri_ExpectedGenerationSet :: bool
  ri_RequestFingerprint :: string
  ri_PlanRevisionID :: ident
  ri_ContractRevisionNumber :: int
  ri_RequestKey :: string
  ri_RequestedAt :: instant
  ri_AcknowledgedAt :: "instant option"
  ri_AdmissionFailure :: "run_admission_failure option"

definition Acknowledged :: "run_intent \<Rightarrow> bool" where
  "Acknowledged i = (ri_AcknowledgedAt i \<noteq> None)"

definition OutcomeRunIntent_Validate :: "run_intent \<Rightarrow> validation" where
  "OutcomeRunIntent_Validate i = first_error
     [refuse (blank (ri_ID i)) (Errorf ''run intent id is required'' []),
      refuse (blank (ri_OutcomeID i)) (Errorf ''run intent outcome id is required'' []),
      refuse (ri_Generation i < 1) (Errorf ''run intent generation must be at least 1'' []),
      refuse (\<not> RunIntentDesired_Valid (ri_Desired i))
        (Errorf ''run intent desired state %q is invalid'' []),
      (if ri_Desired i \<noteq> RunIdle then first_error
         [refuse (blank (ri_PlanRevisionID i))
            (Errorf ''run intent %q must name the approved Plan it applies to'' []),
          refuse (ri_ContractRevisionNumber i < 1)
            (Errorf ''run intent %q must name the Contract revision it was authorized under'' [])]
       else None),
      refuse (blank (ri_RequestKey i)) (Errorf ''run intent request key is required'' []),
      refuse (ri_RequestedAt i = zero_time)
        (Errorf ''run intent requested timestamp is required'' []),
      (case ri_AdmissionFailure i of None \<Rightarrow> None
       | Some f \<Rightarrow> first_error
           [refuse (ri_Desired i \<noteq> RunRunning)
              (Errorf ''only a running intent may carry an admission failure'' []),
            RunAdmissionFailure_Validate f])]"

text \<open>\<^verbatim>\<open>NextRunIntent\<close>: the generation a command makes from the current one, if any.\<close>

definition NextRunIntent :: "run_desired \<Rightarrow> run_command \<Rightarrow> run_desired option" where
  "NextRunIntent current command =
     (let cur = (if current = RunUnset then RunIdle else current) in
      case command of
        CmdOther _ \<Rightarrow> None
      | CmdStart \<Rightarrow> if cur = RunRunning then None else Some RunRunning
      | CmdPause \<Rightarrow> if cur \<noteq> RunRunning then None else Some RunPaused
      | CmdResume \<Rightarrow> if cur \<noteq> RunPaused then None else Some RunRunning
      | CmdCancel \<Rightarrow> if cur \<noteq> RunRunning \<and> cur \<noteq> RunPaused then None else Some RunCancelled)"

lemma next_run_intent_valid:
  "NextRunIntent d c = Some d' \<Longrightarrow> RunIntentDesired_Valid d' \<and> d' \<noteq> RunIdle"
  by (cases c) (auto simp: NextRunIntent_def RunIntentDesired_Valid_def Let_def split: if_splits)

lemma next_run_intent_changes:
  "NextRunIntent d c = Some d' \<Longrightarrow> d' \<noteq> d"
  by (cases c) (auto simp: NextRunIntent_def Let_def split: if_splits)

lemma next_run_intent_running:
  "NextRunIntent d c = Some RunRunning \<longleftrightarrow> c = CmdStart \<and> d \<noteq> RunRunning \<or> c = CmdResume \<and> d = RunPaused"
  by (cases c; cases d) (auto simp: NextRunIntent_def)

end
