(* ===== verification/Run_Intent_Store.thy ===== *)
theory Run_Intent_Store
  imports Attempt
begin

text \<open>
  The durable run intents (internal/storage/sqlite/store/outcome_run_intent_store.go with the
  table of migrations 0124 and 0132): append-only generations per Outcome, a unique request key,
  a write-once acknowledgement and a write-once admission failure. The table is a list of rows in
  insertion order; a refused write leaves it unchanged. The locale \<^verbatim>\<open>intent_log\<close> states
  what the service relies on, and is interpreted on these operations.
\<close>

section \<open>Store errors\<close>

text \<open>The typed errors of ports and an untyped failure.\<close>

datatype store_error =
    StoreFailure error
  | RunIntentReplayConflict run_intent
  | RunIntentGenerationConflict ident int int bool
  | AttemptRunIntentConflict ident int int run_desired bool
  | AttemptReplay attempt
  | AttemptReplayConflict attempt
  | AttemptFenceHeld string ident ident
  | AttemptReceiptFrozen
  | AttemptReceiptMissing
  | AttemptReceiptNotReady
  | AttemptClassificationStale

section \<open>Reads\<close>

type_synonym intent_rows = "run_intent list"

fun latest_intent :: "run_intent list \<Rightarrow> run_intent option" where
  "latest_intent [] = None"
| "latest_intent (i # is) =
     (case latest_intent is of
        None \<Rightarrow> Some i
      | Some j \<Rightarrow> if ri_Generation j < ri_Generation i then Some i else Some j)"

definition ListRunIntents :: "intent_rows \<Rightarrow> ident \<Rightarrow> run_intent list" where
  "ListRunIntents rows oid = sort_key ri_Generation (filter (\<lambda>i. ri_OutcomeID i = oid) rows)"

definition CurrentRunIntent :: "intent_rows \<Rightarrow> ident \<Rightarrow> run_intent option" where
  "CurrentRunIntent rows oid = latest_intent (filter (\<lambda>i. ri_OutcomeID i = oid) rows)"

definition FindRunIntentByRequestKey :: "intent_rows \<Rightarrow> string \<Rightarrow> run_intent option" where
  "FindRunIntentByRequestKey rows key = find (\<lambda>i. ri_RequestKey i = key) rows"

text \<open>Only an Outcome's current generation is listed; trashed Outcomes are left out.\<close>

definition ListOutcomesWithRunIntent ::
  "(ident \<Rightarrow> bool) \<Rightarrow> intent_rows \<Rightarrow> run_desired \<Rightarrow> run_intent list" where
  "ListOutcomesWithRunIntent trashed rows d =
     sort_key ri_OutcomeID (filter (\<lambda>i. ri_Desired i = d \<and> \<not> trashed (ri_OutcomeID i) \<and>
       (\<forall>j\<in>set rows. ri_OutcomeID j = ri_OutcomeID i \<longrightarrow> ri_Generation j \<le> ri_Generation i)) rows)"

section \<open>Writes\<close>

text \<open>The row that is inserted: command, expectation, acknowledgement and failure are not
  columns of the insert.\<close>

definition persisted :: "run_intent \<Rightarrow> run_intent" where
  "persisted i = i\<lparr>ri_Command := CmdOther [], ri_ExpectedGeneration := 0,
     ri_ExpectedGenerationSet := False, ri_AcknowledgedAt := None, ri_AdmissionFailure := None\<rparr>"

definition current_generation :: "intent_rows \<Rightarrow> ident \<Rightarrow> int" where
  "current_generation rows oid =
     (case CurrentRunIntent rows oid of None \<Rightarrow> 0 | Some c \<Rightarrow> ri_Generation c)"

definition current_desired :: "intent_rows \<Rightarrow> ident \<Rightarrow> run_desired" where
  "current_desired rows oid =
     (case CurrentRunIntent rows oid of None \<Rightarrow> RunIdle | Some c \<Rightarrow> ri_Desired c)"

definition AppendRunIntent ::
  "intent_rows \<Rightarrow> run_intent \<Rightarrow> store_error + run_intent \<times> intent_rows" where
  "AppendRunIntent rows i =
     (case FindRunIntentByRequestKey rows (ri_RequestKey i) of
        Some e \<Rightarrow>
          if ri_OutcomeID e \<noteq> ri_OutcomeID i \<or> ri_RequestFingerprint e \<noteq> ri_RequestFingerprint i
          then Inl (RunIntentReplayConflict e) else Inr (e, rows)
      | None \<Rightarrow>
          (let oid = ri_OutcomeID i; g = current_generation rows oid;
               found = CurrentRunIntent rows oid \<noteq> None;
               n = i\<lparr>ri_Generation := g + 1\<rparr>
           in if ri_ExpectedGenerationSet i \<and>
                 (found \<and> g \<noteq> ri_ExpectedGeneration i \<or> \<not> found \<and> ri_ExpectedGeneration i \<noteq> 0)
              then Inl (RunIntentGenerationConflict oid (ri_ExpectedGeneration i) g found)
              else if ri_Command i \<noteq> CmdOther [] \<and>
                 NextRunIntent (current_desired rows oid) (ri_Command i) \<noteq> Some (ri_Desired i)
              then Inl (StoreFailure
                     (Errorf ''run intent command %q is not an allowed transition from %q'' []))
              else (case OutcomeRunIntent_Validate n of
                      Some e \<Rightarrow> Inl (StoreFailure e)
                    | None \<Rightarrow>
                        if ri_ID n \<in> ri_ID ` set rows
                        then Inl (StoreFailure (Errorf ''create run intent: %w'' []))
                        else Inr (n, rows @ [persisted n]))))"

definition AcknowledgeRunIntent :: "intent_rows \<Rightarrow> ident \<Rightarrow> int \<Rightarrow> instant \<Rightarrow> intent_rows" where
  "AcknowledgeRunIntent rows oid g at = map (\<lambda>i.
     if ri_OutcomeID i = oid \<and> ri_Generation i = g \<and> ri_AcknowledgedAt i = None
     then i\<lparr>ri_AcknowledgedAt := Some at\<rparr> else i) rows"

definition RecordRunAdmissionFailure ::
  "intent_rows \<Rightarrow> ident \<Rightarrow> int \<Rightarrow> run_admission_failure \<Rightarrow> store_error + bool \<times> intent_rows" where
  "RecordRunAdmissionFailure rows oid g f =
     (if blank oid \<or> g < 1
      then Inl (StoreFailure (Errorf ''record run admission failure requires outcome and generation'' []))
      else case RunAdmissionFailure_Validate f of
             Some e \<Rightarrow> Inl (StoreFailure e)
           | None \<Rightarrow>
               let hit = (\<lambda>i. ri_OutcomeID i = oid \<and> ri_Generation i = g \<and> ri_Desired i = RunRunning \<and>
                     ri_AdmissionFailure i = None \<and> current_generation rows oid = g)
               in Inr (length (filter hit rows) = 1,
                       map (\<lambda>i. if hit i then i\<lparr>ri_AdmissionFailure := Some f\<rparr> else i) rows))"

section \<open>Well-formed histories\<close>

definition generations :: "intent_rows \<Rightarrow> ident \<Rightarrow> int list" where
  "generations rows oid = map ri_Generation (filter (\<lambda>i. ri_OutcomeID i = oid) rows)"

definition wf_intents :: "intent_rows \<Rightarrow> bool" where
  "wf_intents rows \<longleftrightarrow>
     distinct (map ri_ID rows) \<and> distinct (map ri_RequestKey rows) \<and>
     (\<forall>i\<in>set rows. OutcomeRunIntent_Validate i = None) \<and>
     (\<forall>oid. generations rows oid = [1..int (length (generations rows oid))])"

lemma wf_intents_Nil [simp]: "wf_intents []"
  by (simp add: wf_intents_def generations_def)

lemma latest_intent_None [simp]: "latest_intent is = None \<longleftrightarrow> is = []"
  by (cases "is") (auto split: option.splits)

lemma latest_intent_mem: "latest_intent is = Some i \<Longrightarrow> i \<in> set is"
  by (induction "is" arbitrary: i) (auto split: option.splits if_splits)

lemma latest_intent_max: "latest_intent is = Some i \<Longrightarrow> j \<in> set is \<Longrightarrow> ri_Generation j \<le> ri_Generation i"
proof (induction "is" arbitrary: i)
  case (Cons a as)
  then show ?case by (cases "latest_intent as") (auto split: if_splits)
qed simp

lemma current_intent_mem:
  "CurrentRunIntent rows oid = Some c \<Longrightarrow> c \<in> set rows \<and> ri_OutcomeID c = oid"
  by (auto simp: CurrentRunIntent_def dest: latest_intent_mem)

lemma current_intent_max:
  "CurrentRunIntent rows oid = Some c \<Longrightarrow> j \<in> set rows \<Longrightarrow> ri_OutcomeID j = oid \<Longrightarrow>
   ri_Generation j \<le> ri_Generation c"
  by (auto simp: CurrentRunIntent_def intro: latest_intent_max)

lemma current_intent_None: "CurrentRunIntent rows oid = None \<longleftrightarrow> oid \<notin> ri_OutcomeID ` set rows"
  by (auto simp: CurrentRunIntent_def filter_empty_conv)

lemma generations_append:
  "generations (rows @ [i]) oid = generations rows oid @ (if ri_OutcomeID i = oid then [ri_Generation i] else [])"
  by (simp add: generations_def)

lemma current_generation_length:
  assumes "wf_intents rows"
  shows "current_generation rows oid = int (length (generations rows oid))"
proof (cases "CurrentRunIntent rows oid")
  case None
  then have "oid \<notin> ri_OutcomeID ` set rows" using current_intent_None by metis
  then have "generations rows oid = []" by (auto simp: generations_def filter_empty_conv)
  then show ?thesis using None by (simp add: current_generation_def)
next
  case (Some c)
  let ?n = "int (length (generations rows oid))"
  have gens: "set (generations rows oid) = {1..?n}"
    using assms unfolding wf_intents_def by (metis set_upto)
  have c: "ri_Generation c \<in> set (generations rows oid)"
    using current_intent_mem [OF Some] by (auto simp: generations_def)
  then have "?n \<in> set (generations rows oid)" using gens by auto
  then obtain j where "j \<in> set rows" "ri_OutcomeID j = oid" "ri_Generation j = ?n"
    by (auto simp: generations_def)
  then have "?n \<le> ri_Generation c" using current_intent_max [OF Some] by metis
  then show ?thesis using c gens Some by (auto simp: current_generation_def)
qed

lemma persisted_valid:
  "OutcomeRunIntent_Validate i = None \<Longrightarrow> OutcomeRunIntent_Validate (persisted i) = None"
  by (auto simp: OutcomeRunIntent_Validate_def persisted_def guards split: option.splits if_splits)

lemma persisted_fields [simp]:
  "ri_ID (persisted i) = ri_ID i" "ri_OutcomeID (persisted i) = ri_OutcomeID i"
  "ri_Generation (persisted i) = ri_Generation i" "ri_Desired (persisted i) = ri_Desired i"
  "ri_RequestKey (persisted i) = ri_RequestKey i"
  "ri_RequestFingerprint (persisted i) = ri_RequestFingerprint i"
  "ri_PlanRevisionID (persisted i) = ri_PlanRevisionID i"
  "ri_ContractRevisionNumber (persisted i) = ri_ContractRevisionNumber i"
  "ri_AcknowledgedAt (persisted i) = None" "ri_AdmissionFailure (persisted i) = None"
  by (simp_all add: persisted_def)

text \<open>The two ways an append succeeds.\<close>

lemma append_cases:
  assumes "AppendRunIntent rows i = Inr (r, rows')"
  obtains (replay) "FindRunIntentByRequestKey rows (ri_RequestKey i) = Some r" "rows' = rows"
      "ri_OutcomeID r = ri_OutcomeID i" "ri_RequestFingerprint r = ri_RequestFingerprint i"
    | (fresh) "FindRunIntentByRequestKey rows (ri_RequestKey i) = None"
      "r = i\<lparr>ri_Generation := current_generation rows (ri_OutcomeID i) + 1\<rparr>"
      "rows' = rows @ [persisted r]" "OutcomeRunIntent_Validate r = None"
      "ri_ID r \<notin> ri_ID ` set rows"
      "ri_ExpectedGenerationSet i \<Longrightarrow>
         ri_ExpectedGeneration i = current_generation rows (ri_OutcomeID i)"
      "ri_Command i \<noteq> CmdOther [] \<Longrightarrow>
         NextRunIntent (current_desired rows (ri_OutcomeID i)) (ri_Command i) = Some (ri_Desired i)"
proof (cases "FindRunIntentByRequestKey rows (ri_RequestKey i)")
  case (Some e)
  then show thesis using assms replay by (auto simp: AppendRunIntent_def split: if_split_asm)
next
  case None
  let ?n = "i\<lparr>ri_Generation := current_generation rows (ri_OutcomeID i) + 1\<rparr>"
  have ok: "OutcomeRunIntent_Validate ?n = None" "ri_ID i \<notin> ri_ID ` set rows" "r = ?n" "rows' = rows @ [persisted ?n]"
    "\<not> (ri_ExpectedGenerationSet i \<and> (CurrentRunIntent rows (ri_OutcomeID i) \<noteq> None \<and>
       current_generation rows (ri_OutcomeID i) \<noteq> ri_ExpectedGeneration i \<or>
       \<not> CurrentRunIntent rows (ri_OutcomeID i) \<noteq> None \<and> ri_ExpectedGeneration i \<noteq> 0))"
    "\<not> (ri_Command i \<noteq> CmdOther [] \<and>
       NextRunIntent (current_desired rows (ri_OutcomeID i)) (ri_Command i) \<noteq> Some (ri_Desired i))"
    using assms None unfolding AppendRunIntent_def Let_def
    by (simp_all split: if_split_asm option.splits) auto
  show thesis
  proof (rule fresh [OF None ok(3)])
    show "ri_ExpectedGeneration i = current_generation rows (ri_OutcomeID i)" if "ri_ExpectedGenerationSet i"
      using ok(5) that by (cases "CurrentRunIntent rows (ri_OutcomeID i)") (auto simp: current_generation_def)
  qed (use ok in auto)
qed

lemma wf_append:
  assumes "wf_intents rows" "AppendRunIntent rows i = Inr (r, rows')"
  shows "wf_intents rows'"
  using assms(2)
proof (cases rule: append_cases)
  case replay
  then show ?thesis using assms(1) by simp
next
  case fresh
  have keys: "ri_RequestKey r \<notin> ri_RequestKey ` set rows"
    using fresh(1,2) by (auto simp: FindRunIntentByRequestKey_def find_None_set)
  have gen: "ri_Generation r = int (length (generations rows (ri_OutcomeID r))) + 1"
    using fresh(2) current_generation_length [OF assms(1)] by simp
  have "generations rows' oid = [1..int (length (generations rows' oid))]" for oid
  proof (cases "ri_OutcomeID r = oid")
    case True
    then have "generations rows' oid = generations rows oid @ [int (length (generations rows oid)) + 1]"
      using fresh(3) gen by (simp add: generations_append)
    moreover have "generations rows oid = [1..int (length (generations rows oid))]"
      using assms(1) by (simp add: wf_intents_def)
    ultimately show ?thesis using gapless_snoc by metis
  next
    case False
    then have "generations rows' oid = generations rows oid"
      using fresh(3) by (simp add: generations_append)
    then show ?thesis using assms(1) by (simp add: wf_intents_def)
  qed
  then show ?thesis
    using assms(1) keys fresh(3-5) persisted_valid [of r] by (auto simp: wf_intents_def)
qed

lemma append_current:
  assumes "wf_intents rows" "AppendRunIntent rows i = Inr (r, rows')"
    and "FindRunIntentByRequestKey rows (ri_RequestKey i) = None"
  shows "CurrentRunIntent rows' (ri_OutcomeID i) = Some (persisted r) \<and>
         ri_Generation r = current_generation rows (ri_OutcomeID i) + 1"
  using assms(2)
proof (cases rule: append_cases)
  case fresh
  have oid: "ri_OutcomeID r = ri_OutcomeID i" using fresh(2) by simp
  have gen: "ri_Generation r = current_generation rows (ri_OutcomeID i) + 1" using fresh(2) by simp
  have bigger: "ri_Generation j < ri_Generation r"
    if "j \<in> set rows" "ri_OutcomeID j = ri_OutcomeID i" for j
  proof -
    have "ri_Generation j \<in> set (generations rows (ri_OutcomeID i))"
      using that by (auto simp: generations_def)
    then have "ri_Generation j \<le> int (length (generations rows (ri_OutcomeID i)))"
      using assms(1) unfolding wf_intents_def by (metis atLeastAtMost_iff set_upto)
    then show ?thesis using gen current_generation_length [OF assms(1)] by simp
  qed
  obtain c where c: "CurrentRunIntent rows' (ri_OutcomeID i) = Some c"
    using fresh(3) oid current_intent_None [of rows'] by (cases "CurrentRunIntent rows' (ri_OutcomeID i)") auto
  have "ri_Generation (persisted r) \<le> ri_Generation c"
    using current_intent_max [OF c, of "persisted r"] fresh(3) oid by simp
  moreover have "c = persisted r \<or> c \<in> set rows \<and> ri_OutcomeID c = ri_OutcomeID i"
    using current_intent_mem [OF c] fresh(3) by auto
  ultimately have "c = persisted r" using bigger by (metis leD persisted_fields(3))
  then show ?thesis using c gen by simp
qed (use assms(3) in auto)

lemma append_other:
  assumes "AppendRunIntent rows i = Inr (r, rows')" "oid \<noteq> ri_OutcomeID i"
  shows "CurrentRunIntent rows' oid = CurrentRunIntent rows oid"
  using assms(1) by (cases rule: append_cases) (use assms(2) in \<open>auto simp: CurrentRunIntent_def\<close>)

lemma append_find:
  assumes "AppendRunIntent rows i = Inr (r, rows')"
  shows "\<exists>e. FindRunIntentByRequestKey rows' (ri_RequestKey i) = Some e \<and>
             ri_OutcomeID e = ri_OutcomeID i \<and> ri_RequestFingerprint e = ri_RequestFingerprint i \<and>
             ri_Generation e = ri_Generation r"
  using assms
proof (cases rule: append_cases)
  case fresh
  then have "find (\<lambda>i'. ri_RequestKey i' = ri_RequestKey i) (rows @ persisted r # []) = Some (persisted r)"
    by (intro find_first) (auto simp: FindRunIntentByRequestKey_def find_None_set)
  then show ?thesis using fresh by (simp add: FindRunIntentByRequestKey_def)
qed simp

text \<open>Acknowledgement and failure keep every authorization column.\<close>

definition same_authorization :: "run_intent \<Rightarrow> run_intent \<Rightarrow> bool" where
  "same_authorization i j \<longleftrightarrow>
     ri_ID i = ri_ID j \<and> ri_OutcomeID i = ri_OutcomeID j \<and> ri_Generation i = ri_Generation j \<and>
     ri_Desired i = ri_Desired j \<and> ri_PlanRevisionID i = ri_PlanRevisionID j \<and>
     ri_ContractRevisionNumber i = ri_ContractRevisionNumber j \<and>
     ri_RequestKey i = ri_RequestKey j \<and> ri_RequestFingerprint i = ri_RequestFingerprint j \<and>
     ri_RequestedAt i = ri_RequestedAt j"

lemma same_authorization_refl [simp]: "same_authorization i i"
  by (simp add: same_authorization_def)

lemma ack_keeps: "list_all2 same_authorization rows (AcknowledgeRunIntent rows oid g at)"
  by (simp add: AcknowledgeRunIntent_def list_all2_map2 list_all2_same same_authorization_def)

lemma failure_keeps:
  "RecordRunAdmissionFailure rows oid g f = Inr (b, rows') \<Longrightarrow> list_all2 same_authorization rows rows'"
  by (auto simp: RecordRunAdmissionFailure_def Let_def list_all2_map2 list_all2_same
      same_authorization_def split: if_splits option.splits)

lemma generations_keep:
  assumes "list_all2 same_authorization rows rows'"
  shows "generations rows' oid = generations rows oid"
  using assms by (induction rule: list_all2_induct) (auto simp: generations_def same_authorization_def)

lemma maps_keep:
  assumes "list_all2 same_authorization rows rows'"
  shows "map ri_ID rows' = map ri_ID rows" "map ri_RequestKey rows' = map ri_RequestKey rows"
    "map ri_OutcomeID rows' = map ri_OutcomeID rows"
  using assms by (induction rule: list_all2_induct) (auto simp: same_authorization_def)

lemma valid_ack:
  "OutcomeRunIntent_Validate i = None \<Longrightarrow>
   OutcomeRunIntent_Validate (i\<lparr>ri_AcknowledgedAt := a\<rparr>) = None"
  by (cases "ri_AdmissionFailure i") (auto simp: OutcomeRunIntent_Validate_def guards split: if_splits)

lemma valid_failure:
  "OutcomeRunIntent_Validate i = None \<Longrightarrow> ri_Desired i = RunRunning \<Longrightarrow>
   RunAdmissionFailure_Validate f = None \<Longrightarrow>
   OutcomeRunIntent_Validate (i\<lparr>ri_AdmissionFailure := Some f\<rparr>) = None"
  by (simp add: OutcomeRunIntent_Validate_def guards)

lemma wf_keep:
  assumes "wf_intents rows" "list_all2 same_authorization rows rows'"
    and "\<forall>i\<in>set rows'. OutcomeRunIntent_Validate i = None"
  shows "wf_intents rows'"
  using assms(1,3) generations_keep [OF assms(2)] maps_keep [OF assms(2)]
  by (simp add: wf_intents_def)

lemma wf_ack: "wf_intents rows \<Longrightarrow> wf_intents (AcknowledgeRunIntent rows oid g at)"
  by (rule wf_keep [OF _ ack_keeps])
    (auto simp: wf_intents_def AcknowledgeRunIntent_def valid_ack)

lemma wf_failure:
  assumes "wf_intents rows" "RecordRunAdmissionFailure rows oid g f = Inr (b, rows')"
  shows "wf_intents rows'"
  using assms(1) failure_keeps [OF assms(2)]
proof (rule wf_keep)
  show "\<forall>i\<in>set rows'. OutcomeRunIntent_Validate i = None"
    using assms
    by (auto simp: RecordRunAdmissionFailure_def Let_def wf_intents_def valid_failure
        split: if_splits option.splits)
qed

section \<open>The contract of the log\<close>

text \<open>What the command service assumes of the store.\<close>

locale intent_log =
  fixes append :: "'s \<Rightarrow> run_intent \<Rightarrow> store_error + run_intent \<times> 's"
    and current :: "'s \<Rightarrow> ident \<Rightarrow> run_intent option"
    and by_key :: "'s \<Rightarrow> string \<Rightarrow> run_intent option"
    and ok :: "'s \<Rightarrow> bool"
  assumes ok_append: "ok s \<Longrightarrow> append s i = Inr (r, s') \<Longrightarrow> ok s'"
    and replayed: "by_key s (ri_RequestKey i) = Some e \<Longrightarrow> append s i = Inr (r, s') \<Longrightarrow>
          s' = s \<and> r = e \<and> ri_OutcomeID e = ri_OutcomeID i"
    and appended: "ok s \<Longrightarrow> by_key s (ri_RequestKey i) = None \<Longrightarrow> append s i = Inr (r, s') \<Longrightarrow>
          \<exists>c. current s' (ri_OutcomeID i) = Some c \<and> ri_Generation c = ri_Generation r \<and>
              ri_Desired c = ri_Desired i \<and>
              ri_Generation c = (case current s (ri_OutcomeID i) of None \<Rightarrow> 0 | Some p \<Rightarrow> ri_Generation p) + 1"
    and elsewhere: "append s i = Inr (r, s') \<Longrightarrow> oid \<noteq> ri_OutcomeID i \<Longrightarrow> current s' oid = current s oid"
    and findable: "append s i = Inr (r, s') \<Longrightarrow>
          \<exists>e. by_key s' (ri_RequestKey i) = Some e \<and> ri_Generation e = ri_Generation r"
    and again: "append s i = Inr (r, s') \<Longrightarrow> \<exists>r'. append s' i = Inr (r', s')"
begin

definition generation :: "'s \<Rightarrow> ident \<Rightarrow> int" where
  "generation s oid = (case current s oid of None \<Rightarrow> 0 | Some p \<Rightarrow> ri_Generation p)"

lemma generation_monotone:
  assumes "ok s" "append s i = Inr (r, s')"
  shows "generation s oid \<le> generation s' oid"
proof (cases "by_key s (ri_RequestKey i)")
  case None
  then show ?thesis
    using appended [OF assms(1) None assms(2)] elsewhere [OF assms(2)]
    by (cases "oid = ri_OutcomeID i") (auto simp: generation_def)
qed (use replayed [OF _ assms(2)] in auto)

text \<open>Delivering the same request again authorizes nothing new.\<close>

lemma retry_is_silent:
  assumes "append s i = Inr (r, s')"
  obtains r' where "append s' i = Inr (r', s')" "ri_Generation r' = ri_Generation r"
proof -
  obtain r' where r': "append s' i = Inr (r', s')" using again [OF assms] by blast
  moreover obtain e where "by_key s' (ri_RequestKey i) = Some e" "ri_Generation e = ri_Generation r"
    using findable [OF assms] by blast
  ultimately show ?thesis using replayed that by metis
qed

lemma generation_step:
  assumes "ok s" "append s i = Inr (r, s')"
  shows "generation s' (ri_OutcomeID i) \<le> generation s (ri_OutcomeID i) + 1"
proof (cases "by_key s (ri_RequestKey i)")
  case None
  then show ?thesis using appended [OF assms(1) None assms(2)] by (auto simp: generation_def)
qed (use replayed [OF _ assms(2)] in auto)

end

interpretation run_log: intent_log AppendRunIntent CurrentRunIntent FindRunIntentByRequestKey wf_intents
proof unfold_locales
  fix s i r s'
  assume a: "AppendRunIntent s i = Inr (r, s')"
  show "wf_intents s \<Longrightarrow> wf_intents s'" using a wf_append by blast
  show "FindRunIntentByRequestKey s (ri_RequestKey i) = Some e \<Longrightarrow>
      s' = s \<and> r = e \<and> ri_OutcomeID e = ri_OutcomeID i" for e
    using a by (cases rule: append_cases) auto
  show "oid \<noteq> ri_OutcomeID i \<Longrightarrow> CurrentRunIntent s' oid = CurrentRunIntent s oid" for oid
    using append_other [OF a] by blast
  show "\<exists>e. FindRunIntentByRequestKey s' (ri_RequestKey i) = Some e \<and> ri_Generation e = ri_Generation r"
    using append_find [OF a] by blast
  show "\<exists>r'. AppendRunIntent s' i = Inr (r', s')"
    using append_find [OF a] by (auto simp: AppendRunIntent_def)
  show "wf_intents s \<Longrightarrow> FindRunIntentByRequestKey s (ri_RequestKey i) = None \<Longrightarrow>
      \<exists>c. CurrentRunIntent s' (ri_OutcomeID i) = Some c \<and> ri_Generation c = ri_Generation r \<and>
          ri_Desired c = ri_Desired i \<and>
          ri_Generation c = (case CurrentRunIntent s (ri_OutcomeID i) of None \<Rightarrow> 0 | Some p \<Rightarrow> ri_Generation p) + 1"
  proof -
    assume ok: "wf_intents s" and new: "FindRunIntentByRequestKey s (ri_RequestKey i) = None"
    have "ri_Desired r = ri_Desired i"
      using a by (cases rule: append_cases) (use new in auto)
    then show ?thesis
      using append_current [OF ok a new] by (simp add: current_generation_def)
  qed
qed

end
