(* ===== verification/Go_Path.thy ===== *)
theory Go_Path
  imports Go_Prelude
begin

text \<open>
  Slash-separated paths as the source uses them: \<^verbatim>\<open>strings.Split\<close> and
  \<^verbatim>\<open>strings.Join\<close> on a separator, and \<^verbatim>\<open>path.Clean\<close>, which processes components
  lexically from left to right. The lemmas say that splitting inverts joining and that cleaning a
  relative path without dot components changes nothing.
\<close>

fun split_on :: "char \<Rightarrow> string \<Rightarrow> string list" where
  "split_on sep [] = [[]]"
| "split_on sep (c # s) =
     (if c = sep then [] # split_on sep s
      else (case split_on sep s of [] \<Rightarrow> [[c]] | w # ws \<Rightarrow> (c # w) # ws))"

fun join_on :: "string \<Rightarrow> string list \<Rightarrow> string" where
  "join_on sep [] = []"
| "join_on sep [w] = w"
| "join_on sep (w # v # ws) = w @ sep @ join_on sep (v # ws)"

definition replace_char :: "char \<Rightarrow> char \<Rightarrow> string \<Rightarrow> string" where
  "replace_char a b s = map (\<lambda>c. if c = a then b else c) s"

abbreviation slash :: char where "slash \<equiv> CHR 0x2F"
abbreviation backslash :: char where "backslash \<equiv> CHR 0x5C"

text \<open>The component stack of \<^verbatim>\<open>path.Clean\<close>; the head is the last component kept.\<close>

fun clean_step :: "bool \<Rightarrow> string list \<Rightarrow> string \<Rightarrow> string list" where
  "clean_step rooted stack w =
     (if w = [] \<or> w = ''.'' then stack
      else if w = ''..'' then
        (case stack of
           [] \<Rightarrow> if rooted then [] else [w]
         | t # rest \<Rightarrow> if t = ''..'' then w # stack else rest)
      else w # stack)"

definition path_clean :: "string \<Rightarrow> string" where
  "path_clean s =
     (let rooted = starts_with [slash] s;
          kept = rev (foldl (clean_step rooted) [] (split_on slash s));
          body = join_on [slash] kept
      in if rooted then slash # body else if body = [] then ''.'' else body)"

definition is_abs :: "string \<Rightarrow> bool" where
  "is_abs s = starts_with [slash] s"

lemma split_on_not_Nil [simp]: "split_on sep s \<noteq> []"
  by (induction s) (auto split: list.splits)

lemma join_split: "join_on [sep] (split_on sep s) = s"
proof (induction s)
  case (Cons c s)
  then show ?case by (cases "split_on sep s") (auto split: list.splits, (case_tac list; simp)+)
qed simp

lemma split_on_free: "w \<in> set (split_on sep s) \<Longrightarrow> sep \<notin> set w"
  by (induction s arbitrary: w) (auto split: list.splits if_splits)

lemma split_on_word: "sep \<notin> set w \<Longrightarrow> split_on sep w = [w]"
  by (induction w) auto

lemma split_on_append: "sep \<notin> set w \<Longrightarrow> split_on sep (w @ sep # s) = w # split_on sep s"
  by (induction w) auto

lemma split_join:
  "ws \<noteq> [] \<Longrightarrow> \<forall>w\<in>set ws. sep \<notin> set w \<Longrightarrow> split_on sep (join_on [sep] ws) = ws"
  by (induction "[sep]" ws rule: join_on.induct) (auto simp: split_on_word split_on_append)

lemma join_on_inject:
  assumes "join_on [sep] vs = join_on [sep] ws" "vs \<noteq> []" "ws \<noteq> []"
    and "\<forall>w\<in>set vs. sep \<notin> set w" "\<forall>w\<in>set ws. sep \<notin> set w"
  shows "vs = ws"
  using assms by (metis split_join)

lemma foldl_clean_step:
  "\<forall>w\<in>set ws. w \<noteq> [] \<and> w \<noteq> ''.'' \<and> w \<noteq> ''..'' \<Longrightarrow>
   foldl (clean_step rooted) st ws = rev ws @ st"
  by (induction ws arbitrary: st) auto

text \<open>A relative path whose components are all ordinary names is already clean.\<close>

lemma path_clean_ordinary:
  assumes "\<forall>w\<in>set (split_on slash s). w \<noteq> [] \<and> w \<noteq> ''.'' \<and> w \<noteq> ''..''"
  shows "path_clean s = s"
proof -
  have rel: "\<not> starts_with [slash] s"
  proof
    assume "starts_with [slash] s"
    then obtain t where "s = slash # t" by (cases s) auto
    then have "[] \<in> set (split_on slash s)" by simp
    then show False using assms by blast
  qed
  have "s \<noteq> []"
  proof
    assume "s = []"
    then have "[] \<in> set (split_on slash s)" by simp
    then show False using assms by blast
  qed
  have fold: "foldl (clean_step False) [] (split_on slash s) = rev (split_on slash s)"
    using foldl_clean_step [OF assms, of False "[]"] by simp
  show ?thesis
    unfolding path_clean_def Let_def using rel \<open>s \<noteq> []\<close>
    by (simp only: fold join_split rev_rev_ident if_False)
qed

text \<open>Decimal rendering (\<^verbatim>\<open>%d\<close>).\<close>

fun decimal_nat :: "nat \<Rightarrow> string" where
  "decimal_nat n =
     (if n < 10 then [char_of (48 + n)] else decimal_nat (n div 10) @ [char_of (48 + n mod 10)])"

declare decimal_nat.simps [simp del]

definition decimal :: "int \<Rightarrow> string" where
  "decimal i = (if i < 0 then CHR ''-'' # decimal_nat (nat (- i)) else decimal_nat (nat i))"

fun undecimal :: "string \<Rightarrow> nat" where
  "undecimal s = foldl (\<lambda>a c. a * 10 + (of_char c - 48)) 0 s"

lemma of_digit: "d < 10 \<Longrightarrow> (of_char (char_of (48 + d) :: char) :: nat) = 48 + d"
  by (simp add: of_char_of)

lemma undecimal_decimal: "undecimal (decimal_nat n) = n"
proof (induction n rule: decimal_nat.induct)
  case (1 n)
  show ?case
  proof (cases "n < 10")
    case True
    then show ?thesis by (simp add: decimal_nat.simps [of n] of_digit)
  next
    case False
    then show ?thesis
      using 1 by (subst decimal_nat.simps) (simp add: of_digit)
  qed
qed

lemma decimal_nat_digits: "c \<in> set (decimal_nat n) \<Longrightarrow> 48 \<le> (of_char c :: nat) \<and> (of_char c :: nat) \<le> 57"
proof (induction n rule: decimal_nat.induct)
  case (1 n)
  have "(of_char (char_of (48 + n mod 10) :: char) :: nat) = 48 + n mod 10"
    by (rule of_digit) simp
  moreover have "n < 10 \<Longrightarrow> (of_char (char_of (48 + n) :: char) :: nat) = 48 + n"
    by (rule of_digit)
  ultimately show ?case
    using 1 by (subst (asm) (2) decimal_nat.simps) (auto split: if_splits)
qed

lemma decimal_nat_not_Nil [simp]: "decimal_nat n \<noteq> []"
  by (subst decimal_nat.simps) auto

lemma decimal_inject:
  assumes "decimal i = decimal j" shows "i = j"
proof -
  have minus: "CHR ''-'' # s \<noteq> decimal_nat n" for s n
  proof
    assume "CHR ''-'' # s = decimal_nat n"
    then have "CHR ''-'' \<in> set (decimal_nat n)" by (metis list.set_intros(1))
    then show False using decimal_nat_digits [of "CHR ''-''" n] by simp
  qed
  have inj: "m = n" if "decimal_nat m = decimal_nat n" for m n
    using that undecimal_decimal by metis
  show ?thesis
    using assms minus [of _ "nat i"] minus [of _ "nat j"] inj [of "nat i" "nat j"]
      inj [of "nat (- i)" "nat (- j)"]
    by (auto simp: decimal_def split: if_splits)
qed

end
