(* ===== verification/Receipt.thy ===== *)
theory Receipt
  imports Attempt Go_Path "HOL-Library.Word" "HOL-Library.Multiset"
begin

text \<open>
  Attempt receipts (internal/domain/attempt_receipt.go): the manifest of what an attempt
  produced, the confinement of its paths to the workspace, and the artifact version, which is the
  SHA-256 of a canonical byte encoding. The hash is a parameter; the encoding is modelled byte by
  byte (64-bit big-endian length prefixes, entries sorted), and is shown to determine the files up
  to order.
\<close>

section \<open>Rows\<close>

datatype workspace_kind = WorkspaceGitWorktree | WorkspaceStagedFolder | WorkspaceOther string
datatype retention_state = RetentionRetained | RetentionIncomplete | RetentionUnsupported
  | RetentionFailed | RetentionOther string
datatype change_kind = ArtifactAdded | ArtifactModified | ArtifactDeleted | ArtifactUntracked
  | ArtifactOther string

fun WorkspaceKind_Valid :: "workspace_kind \<Rightarrow> bool" where
  "WorkspaceKind_Valid (WorkspaceOther _) = False"
| "WorkspaceKind_Valid _ = True"

fun RetentionState_Valid :: "retention_state \<Rightarrow> bool" where
  "RetentionState_Valid (RetentionOther _) = False"
| "RetentionState_Valid _ = True"

definition RetentionState_Complete :: "retention_state \<Rightarrow> bool" where
  "RetentionState_Complete s = (s = RetentionRetained)"

fun ArtifactChangeKind_Valid :: "change_kind \<Rightarrow> bool" where
  "ArtifactChangeKind_Valid (ArtifactOther _) = False"
| "ArtifactChangeKind_Valid _ = True"

fun change_kind_name :: "change_kind \<Rightarrow> string" where
  "change_kind_name ArtifactAdded = ''added''"
| "change_kind_name ArtifactModified = ''modified''"
| "change_kind_name ArtifactDeleted = ''deleted''"
| "change_kind_name ArtifactUntracked = ''untracked''"
| "change_kind_name (ArtifactOther s) = s"

record artifact_file =
  fl_ID :: ident
  fl_AttemptID :: ident
  fl_RelativePath :: string
  fl_ChangeKind :: change_kind
  fl_ContentDigest :: string
  fl_SizeBytes :: "int option"
  fl_FileMode :: "int option"
  fl_IsBinary :: bool
  fl_UnsupportedReason :: string

record attempt_receipt =
  rp_AttemptID :: ident
  rp_OutcomeID :: ident
  rp_PlanRevisionID :: ident
  rp_WorkUnitID :: ident
  rp_ContractRevisionNumber :: int
  rp_ArtifactVersion :: string
  rp_WorkspaceKind :: workspace_kind
  rp_WorkspacePath :: string
  rp_BaseRevision :: string
  rp_ResultRevision :: string
  rp_RetentionState :: retention_state
  rp_RetentionDetail :: string
  rp_ObservedAt :: instant
  rp_FrozenAt :: "instant option"
  rp_Files :: "artifact_file list"

definition Receipt_Frozen :: "attempt_receipt \<Rightarrow> bool" where
  "Receipt_Frozen r = (rp_FrozenAt r \<noteq> None)"

section \<open>Confinement of paths\<close>

definition validateArtifactPath :: "string \<Rightarrow> validation" where
  "validateArtifactPath raw =
     (let trimmed = trim_space raw; name = replace_char backslash slash trimmed;
          clean = path_clean name in
      first_error
        [refuse (trimmed = [] \<or> CHR 0x00 \<in> set trimmed)
           (Errorf ''path is empty or contains NUL'' []),
         refuse (starts_with [slash] name \<or> length name \<ge> 2 \<and> name ! 1 = CHR '':'')
           (Errorf ''path is absolute or drive-qualified'' []),
         each_elem (\<lambda>w. first_error
           [refuse (w = ''..'') (Errorf ''path traverses its root'' []),
            refuse (w = [] \<or> w = ''.'') (Errorf ''path has an empty or dot component'' [])])
           (split_on slash name),
         refuse (clean = ''.'' \<or> clean = ''..'' \<or> starts_with ''../'' clean)
           (Errorf ''path escapes its root'' [])])"

text \<open>Where a relative path leads from a directory, as a stack of components: the meaning the
  checks protect.\<close>

fun walk :: "string list \<Rightarrow> string list \<Rightarrow> string list" where
  "walk dir [] = dir"
| "walk dir (w # ws) =
     walk (if w = [] \<or> w = ''.'' then dir else if w = ''..'' then drop 1 dir else w # dir) ws"

lemma walk_ordinary:
  "\<forall>w\<in>set ws. w \<noteq> [] \<and> w \<noteq> ''.'' \<and> w \<noteq> ''..'' \<Longrightarrow> walk dir ws = rev ws @ dir"
  by (induction ws arbitrary: dir) auto

lemma artifact_path_components:
  assumes "validateArtifactPath raw = None"
  shows "\<forall>w\<in>set (split_on slash (replace_char backslash slash (trim_space raw))).
           w \<noteq> [] \<and> w \<noteq> ''.'' \<and> w \<noteq> ''..''"
    and "\<not> is_abs (replace_char backslash slash (trim_space raw))"
    and "CHR 0x00 \<notin> set (trim_space raw)"
  using assms by (auto simp: validateArtifactPath_def Let_def guards is_abs_def)

section \<open>Validation\<close>

definition ArtifactFile_Validate :: "artifact_file \<Rightarrow> validation" where
  "ArtifactFile_Validate f = first_error
     [refuse (blank (fl_ID f)) (Errorf ''artifact file id is required'' []),
      refuse (blank (fl_AttemptID f)) (Errorf ''artifact file attempt id is required'' []),
      refuse (blank (fl_RelativePath f)) (Errorf ''artifact file relative path is required'' []),
      refuse (validateArtifactPath (fl_RelativePath f) \<noteq> None)
        (Errorf ''artifact file path %q must stay inside the workspace'' [Str (fl_RelativePath f)]),
      refuse (\<not> ArtifactChangeKind_Valid (fl_ChangeKind f))
        (Errorf ''artifact file change kind %q is invalid'' [Str (change_kind_name (fl_ChangeKind f))]),
      refuse (fl_ChangeKind f = ArtifactDeleted \<and> fl_ContentDigest f \<noteq> [])
        (Errorf ''a deleted artifact file cannot carry a content digest'' []),
      refuse (fl_ChangeKind f \<noteq> ArtifactDeleted \<and> blank (fl_ContentDigest f) \<and>
              fl_UnsupportedReason f = [])
        (Errorf ''artifact file %q is missing content identity'' [Str (fl_RelativePath f)])]"

section \<open>The canonical manifest\<close>

definition be64 :: "64 word \<Rightarrow> string" where
  "be64 w = map (\<lambda>k. char_of (unat (drop_bit (8 * k) w))) [7, 6, 5, 4, 3, 2, 1, 0]"

definition manifest_field :: "string \<Rightarrow> string" where
  "manifest_field v = be64 (word_of_nat (length v)) @ v"

definition optional_number :: "string \<Rightarrow> int option \<Rightarrow> string" where
  "optional_number prefix n =
     prefix @ (case n of None \<Rightarrow> ''unknown'' | Some i \<Rightarrow> decimal i)"

definition manifest_values :: "artifact_file \<Rightarrow> string list" where
  "manifest_values f =
     [fl_RelativePath f, change_kind_name (fl_ChangeKind f), fl_ContentDigest f,
      optional_number ''size:'' (fl_SizeBytes f), optional_number ''mode:'' (fl_FileMode f),
      (if fl_IsBinary f then ''binary:1'' else ''binary:0''), fl_UnsupportedReason f]"

definition manifest_entry :: "artifact_file \<Rightarrow> string" where
  "manifest_entry f = concat (map manifest_field (manifest_values f))"

definition manifest_bytes :: "artifact_file list \<Rightarrow> string" where
  "manifest_bytes files = concat (map manifest_field (sort (map manifest_entry files)))"

definition ArtifactManifestDigest :: "(string \<Rightarrow> string) \<Rightarrow> artifact_file list \<Rightarrow> string" where
  "ArtifactManifestDigest sha256hex files = sha256hex (manifest_bytes files)"

definition AttemptReceipt_Validate :: "(string \<Rightarrow> string) \<Rightarrow> attempt_receipt \<Rightarrow> validation" where
  "AttemptReceipt_Validate sha256hex r = first_error
     [refuse (blank (rp_AttemptID r)) (Errorf ''attempt receipt attempt id is required'' []),
      refuse (blank (rp_OutcomeID r) \<or> blank (rp_PlanRevisionID r) \<or> blank (rp_WorkUnitID r))
        (Errorf ''attempt receipt requires full producing lineage'' []),
      refuse (rp_ContractRevisionNumber r < 1)
        (Errorf ''attempt receipt contract revision number is required'' []),
      refuse (blank (rp_ArtifactVersion r)) (Errorf ''attempt receipt artifact version is required'' []),
      refuse (\<not> WorkspaceKind_Valid (rp_WorkspaceKind r))
        (Errorf ''attempt receipt workspace kind %q is invalid'' []),
      refuse (\<not> RetentionState_Valid (rp_RetentionState r))
        (Errorf ''attempt receipt retention state %q is invalid'' []),
      refuse (rp_WorkspaceKind r = WorkspaceStagedFolder \<and>
              (rp_BaseRevision r \<noteq> [] \<or> rp_ResultRevision r \<noteq> []))
        (Errorf ''a staged folder has no revisions and must not report one'' []),
      refuse (rp_ObservedAt r = zero_time)
        (Errorf ''attempt receipt observed timestamp is required'' []),
      each_elem (\<lambda>f. first_error
        [ArtifactFile_Validate f,
         refuse (rp_RetentionState r = RetentionRetained \<and> fl_UnsupportedReason f \<noteq> [])
           (Errorf ''retained artifact file %q is unsupported: %s''
              [Str (fl_RelativePath f), Str (fl_UnsupportedReason f)])]) (rp_Files r),
      refuse (rp_RetentionState r = RetentionRetained \<and>
              rp_ArtifactVersion r \<noteq> ArtifactManifestDigest sha256hex (rp_Files r))
        (Errorf ''artifact version does not match its manifest'' [])]"

section \<open>The encoding loses nothing\<close>

lemma length_be64 [simp]: "length (be64 w) = 8"
  by (simp add: be64_def)

lemma byte_of_be64: "(of_char (char_of n :: char) :: nat) = n mod 256"
  by (simp add: of_char_of)

lemma be64_inject:
  assumes "be64 v = be64 w" shows "v = w"
proof -
  have bytes: "unat v div 256 ^ k mod 256 = unat w div 256 ^ k mod 256" if "k \<in> {0..<8}" for k :: nat
  proof -
    have "k = 7 \<or> k = 6 \<or> k = 5 \<or> k = 4 \<or> k = 3 \<or> k = 2 \<or> k = 1 \<or> k = 0"
      using that by (simp only: atLeastLessThan_iff) presburger
    then have "k \<in> set [7, 6, 5, 4, 3, 2, 1, 0]" by simp
    then have "(char_of (unat (drop_bit (8 * k) v)) :: char) = char_of (unat (drop_bit (8 * k) w))"
      using assms unfolding be64_def map_eq_conv by blast
    then have "unat (drop_bit (8 * k) v) mod 256 = unat (drop_bit (8 * k) w) mod 256"
      by (metis byte_of_be64)
    moreover have "(2 :: nat) ^ (8 * k) = 256 ^ k" by (simp add: power_mult)
    moreover have "unat (drop_bit (8 * k) u) = unat u div 2 ^ (8 * k)" for u :: "64 word"
      by (simp only: unat_drop_bit_eq drop_bit_nat_def)
    ultimately show ?thesis by simp
  qed
  have "unat v mod 256 ^ k = unat w mod 256 ^ k" if "k \<le> 8" for k
    using that
  proof (induction k)
    case (Suc k)
    have "n mod 256 ^ Suc k = 256 ^ k * (n div 256 ^ k mod 256) + n mod 256 ^ k" for n :: nat
      by (metis mod_mult2_eq mult.commute power_Suc)
    then show ?case using Suc bytes [of k] by simp
  qed simp
  from this [of 8] have "unat v mod 2 ^ 64 = unat w mod 2 ^ 64" by simp
  moreover have "unat u < 2 ^ 64" for u :: "64 word" using unsigned_less [of u] by simp
  ultimately have "unat v = unat w" by simp
  then show ?thesis by (simp only: word_unat_eq_iff)
qed

lemma field_inject:
  assumes "manifest_field v @ s = manifest_field w @ t" "length v < 2 ^ 64" "length w < 2 ^ 64"
  shows "v = w \<and> s = t"
proof -
  have "be64 (word_of_nat (length v)) = be64 (word_of_nat (length w)) \<and> v @ s = w @ t"
    using assms(1) by (simp add: manifest_field_def append_eq_append_conv)
  then have len: "(word_of_nat (length v) :: 64 word) = word_of_nat (length w)" and "v @ s = w @ t"
    using be64_inject by blast+
  have "unat (word_of_nat n :: 64 word) = n" if "n < 2 ^ 64" for n
    using that by (simp add: unsigned_of_nat take_bit_nat_eq_self)
  then have "length v = length w" using len assms(2,3) by metis
  then show ?thesis using \<open>v @ s = w @ t\<close> by (simp add: append_eq_append_conv)
qed

lemma fields_inject:
  assumes "concat (map manifest_field vs) = concat (map manifest_field ws)"
    and "\<forall>v\<in>set vs. length v < 2 ^ 64" "\<forall>w\<in>set ws. length w < 2 ^ 64"
  shows "vs = ws"
  using assms
proof (induction vs arbitrary: ws)
  case Nil
  then show ?case by (cases ws) (auto simp: manifest_field_def be64_def)
next
  case (Cons v vs)
  show ?case
  proof (cases ws)
    case Nil
    then show ?thesis using Cons.prems(1) by (auto simp: manifest_field_def be64_def)
  next
    case (Cons w ws')
    then show ?thesis using Cons.prems Cons.IH [of ws'] field_inject [of v _ w] by auto
  qed
qed

text \<open>What the manifest records of a file: all but the row's own identifiers.\<close>

definition artifact_identity :: "artifact_file \<Rightarrow> artifact_file" where
  "artifact_identity f = f\<lparr>fl_ID := [], fl_AttemptID := []\<rparr>"

lemma change_kind_name_inject:
  "ArtifactChangeKind_Valid a \<Longrightarrow> ArtifactChangeKind_Valid b \<Longrightarrow>
   change_kind_name a = change_kind_name b \<Longrightarrow> a = b"
  by (cases a; cases b) simp_all

lemma decimal_not_unknown: "decimal i \<noteq> ''unknown''"
proof
  assume a: "decimal i = ''unknown''"
  have "CHR ''u'' \<in> set (decimal i)" unfolding a by simp
  then show False
    using decimal_nat_digits [of "CHR ''u''"] by (auto simp: decimal_def split: if_splits)
qed

lemma optional_number_inject: "optional_number p a = optional_number p b \<Longrightarrow> a = b"
  using decimal_not_unknown decimal_inject
  by (auto simp: optional_number_def split: option.splits)

lemma manifest_values_inject:
  assumes "manifest_values f = manifest_values g"
    and "ArtifactChangeKind_Valid (fl_ChangeKind f)" "ArtifactChangeKind_Valid (fl_ChangeKind g)"
  shows "artifact_identity f = artifact_identity g"
  using assms optional_number_inject change_kind_name_inject
  by (auto simp: manifest_values_def artifact_identity_def split: if_splits)

definition representable :: "artifact_file list \<Rightarrow> bool" where
  "representable files \<longleftrightarrow>
     (\<forall>f\<in>set files. ArtifactChangeKind_Valid (fl_ChangeKind f) \<and>
        length (manifest_entry f) < 2 ^ 64 \<and> (\<forall>v\<in>set (manifest_values f). length v < 2 ^ 64))"

lemma manifest_entry_inject:
  assumes "manifest_entry f = manifest_entry g" "representable [f, g]"
  shows "artifact_identity f = artifact_identity g"
proof (rule manifest_values_inject)
  have sizes: "\<forall>v\<in>set (manifest_values f). length v < 2 ^ 64" "\<forall>v\<in>set (manifest_values g). length v < 2 ^ 64"
    using assms(2) unfolding representable_def by (meson list.set_intros)+
  show "manifest_values f = manifest_values g"
    using assms(1) sizes unfolding manifest_entry_def by (rule fields_inject)
  show "ArtifactChangeKind_Valid (fl_ChangeKind f)" "ArtifactChangeKind_Valid (fl_ChangeKind g)"
    using assms(2) unfolding representable_def by (meson list.set_intros)+
qed

lemma manifest_entry_cong: "artifact_identity f = artifact_identity g \<Longrightarrow> manifest_entry f = manifest_entry g"
proof -
  assume "artifact_identity f = artifact_identity g"
  moreover have "manifest_values (artifact_identity h) = manifest_values h" for h
    by (simp add: manifest_values_def artifact_identity_def)
  ultimately show ?thesis unfolding manifest_entry_def by metis
qed

lemma manifest_bytes_entries:
  assumes "representable fs" "representable gs"
  shows "manifest_bytes fs = manifest_bytes gs \<longleftrightarrow>
         mset (map manifest_entry fs) = mset (map manifest_entry gs)"
proof
  assume "manifest_bytes fs = manifest_bytes gs"
  then have "sort (map manifest_entry fs) = sort (map manifest_entry gs)"
    using assms by (intro fields_inject) (auto simp: manifest_bytes_def representable_def)
  then show "mset (map manifest_entry fs) = mset (map manifest_entry gs)" by (metis mset_sort)
next
  assume "mset (map manifest_entry fs) = mset (map manifest_entry gs)"
  then have "sort (map manifest_entry fs) = sort (map manifest_entry gs)"
    by (intro properties_for_sort) simp_all
  then show "manifest_bytes fs = manifest_bytes gs" by (simp add: manifest_bytes_def)
qed

lemma image_mset_eq_transfer:
  assumes "image_mset h A = image_mset h B"
    and "\<And>x y. x \<in># A \<Longrightarrow> y \<in># B \<Longrightarrow> h x = h y \<Longrightarrow> k x = k y"
  shows "image_mset k A = image_mset k B"
  using assms
proof (induction A arbitrary: B)
  case (add x A)
  then have "h x \<in># image_mset h B" by (metis image_mset_add_mset union_single_eq_member)
  then obtain y where y: "y \<in># B" "h x = h y" by auto
  then obtain C where C: "B = add_mset y C" by (meson mset_add)
  have "image_mset h A = image_mset h C" using add.prems(1) y C by simp
  then have "image_mset k A = image_mset k C" using add.prems(2) C by (intro add.IH) auto
  then show ?case using add.prems(2) y C by simp
qed simp

end
