(* ===== verification/Control_Store.thy ===== *)
theory Control_Store
  imports Run_Intent_Store Receipt
begin

text \<open>
  The durable execution rows: attempts, session references, observations, custody fences,
  recovery receipts, artifact receipts (internal/storage/sqlite/store/attempt_store.go and
  attempt_receipt_store.go, with the constraints and triggers of migrations 0102, 0119, 0126) and
  the run intents they are admitted under. A transaction is a function from a store to an error
  or a result with the new store; an error is a rollback. Identifiers the code draws at random
  are arguments, and a clash with a primary key is a failed insert.
\<close>

section \<open>State\<close>

text \<open>A fence row: \<^verbatim>\<open>released_at\<close> is nullable, so the row says whether it was set.\<close>

record fence_row = attempt_fence +
  fr_Released :: bool

record control_store =
  st_Attempts :: "attempt list"
  st_Sessions :: "session_ref list"
  st_Observations :: "observation list"
  st_Fences :: "fence_row list"
  st_Recoveries :: "recovery_receipt list"
  st_Intents :: intent_rows
  st_Receipts :: "attempt_receipt list"
  st_ContractNumber :: "ident \<Rightarrow> int"
  st_ProofGeneration :: "ident \<Rightarrow> int"

type_synonym 'r transaction = "store_error + 'r \<times> control_store"

definition empty_store :: control_store where
  "empty_store = \<lparr>st_Attempts = [], st_Sessions = [], st_Observations = [], st_Fences = [],
     st_Recoveries = [], st_Intents = [], st_Receipts = [], st_ContractNumber = (\<lambda>_. 0),
     st_ProofGeneration = (\<lambda>_. 0)\<rparr>"

abbreviation failed :: "string \<Rightarrow> store_error + 'r" where
  "failed msg \<equiv> Inl (StoreFailure (Errorf msg []))"

section \<open>Reads\<close>

definition FindAttemptByIdempotencyKey :: "control_store \<Rightarrow> string \<Rightarrow> attempt option" where
  "FindAttemptByIdempotencyKey s key =
     (if key = [] then None else find (\<lambda>a. a_RequestKey a = key) (st_Attempts s))"

definition GetAttempt :: "control_store \<Rightarrow> ident \<Rightarrow> ident \<Rightarrow> attempt option" where
  "GetAttempt s oid aid = find (\<lambda>a. a_ID a = aid \<and> a_OutcomeID a = oid) (st_Attempts s)"

definition ListAttempts :: "control_store \<Rightarrow> ident \<Rightarrow> attempt list" where
  "ListAttempts s oid = sort_key a_Number (filter (\<lambda>a. a_OutcomeID a = oid) (st_Attempts s))"

definition MaxAttemptNumber :: "control_store \<Rightarrow> ident \<Rightarrow> int" where
  "MaxAttemptNumber s oid =
     foldr max (map a_Number (filter (\<lambda>a. a_OutcomeID a = oid) (st_Attempts s))) 0"

definition LatestAttemptSessionRef :: "control_store \<Rightarrow> ident \<Rightarrow> session_ref option" where
  "LatestAttemptSessionRef s aid =
     (case rev (sort_key sr_Seq (filter (\<lambda>r. sr_AttemptID r = aid) (st_Sessions s))) of
        [] \<Rightarrow> None | r # _ \<Rightarrow> Some r)"

definition MaxAttemptObservationSeq :: "control_store \<Rightarrow> ident \<Rightarrow> int" where
  "MaxAttemptObservationSeq s aid =
     foldr max (map ob_Seq (filter (\<lambda>o'. ob_AttemptID o' = aid) (st_Observations s))) 0"

definition OpenFenceForSubject :: "control_store \<Rightarrow> string \<Rightarrow> fence_row option" where
  "OpenFenceForSubject s subject =
     find (\<lambda>f. af_Subject f = subject \<and> \<not> fr_Released f) (st_Fences s)"

definition GetAttemptReceipt :: "control_store \<Rightarrow> ident \<Rightarrow> attempt_receipt option" where
  "GetAttemptReceipt s aid = find (\<lambda>r. rp_AttemptID r = aid) (st_Receipts s)"

definition attempt_exists :: "control_store \<Rightarrow> ident \<Rightarrow> bool" where
  "attempt_exists s aid = (aid \<in> a_ID ` set (st_Attempts s))"

section \<open>Statements shared by the transactions\<close>

text \<open>The guarded update of the status: the row count, or the trigger's refusal.\<close>

definition update_status ::
  "control_store \<Rightarrow> ident \<Rightarrow> ident \<Rightarrow> attempt_status \<Rightarrow> attempt_status \<Rightarrow> instant \<Rightarrow> nat transaction"
where
  "update_status s oid aid expected next at =
     (let hit = (\<lambda>a. a_ID a = aid \<and> a_OutcomeID a = oid \<and> a_Status a = expected) in
      if list_ex hit (st_Attempts s) \<and> \<not> AttemptTransitionLegal expected next
      then failed ''illegal attempt status transition''
      else Inr (length (filter hit (st_Attempts s)),
                s\<lparr>st_Attempts := map (\<lambda>a. if hit a then a\<lparr>a_Status := next, a_UpdatedAt := at\<rparr> else a)
                    (st_Attempts s)\<rparr>))"

definition insert_observation :: "control_store \<Rightarrow> observation \<Rightarrow> unit transaction" where
  "insert_observation s o' =
     (if ob_ID o' \<in> ob_ID ` set (st_Observations s) \<or> \<not> attempt_exists s (ob_AttemptID o')
      then failed ''append observation: constraint failed''
      else Inr ((), s\<lparr>st_Observations := st_Observations s @ [o']\<rparr>))"

text \<open>SQL's \<^verbatim>\<open>trim\<close> strips blanks only.\<close>

definition release_fences :: "control_store \<Rightarrow> ident \<Rightarrow> string \<Rightarrow> instant \<Rightarrow> nat transaction" where
  "release_fences s aid reason at =
     (let hit = (\<lambda>f. af_AttemptID f = aid \<and> \<not> fr_Released f) in
      if list_ex hit (st_Fences s) \<and> list_all (\<lambda>c. c = CHR 0x20) reason
      then failed ''a released attempt fence must record why''
      else Inr (length (filter hit (st_Fences s)),
                s\<lparr>st_Fences := map (\<lambda>f. if hit f then f\<lparr>af_ReleasedAt := at, af_ReleaseReason := reason,
                    fr_Released := True\<rparr> else f) (st_Fences s)\<rparr>))"

definition new_observation :: "control_store \<Rightarrow> ident \<Rightarrow> ident \<Rightarrow> string \<Rightarrow> string \<Rightarrow> instant \<Rightarrow> observation"
where
  "new_observation s obs aid kind payload at =
     \<lparr>ob_ID = obs, ob_AttemptID = aid, ob_Seq = MaxAttemptObservationSeq s aid + 1, ob_Kind = kind,
      ob_Payload = (if payload = [] then ''{}'' else payload), ob_CreatedAt = at\<rparr>"

definition append_validated :: "control_store \<Rightarrow> observation \<Rightarrow> observation transaction" where
  "append_validated s o' =
     (case AttemptObservation_Validate o' of
        Some e \<Rightarrow> Inl (StoreFailure e)
      | None \<Rightarrow> and_then (insert_observation s o') (\<lambda>(_, s'). Inr (o', s')))"

section \<open>Attempts\<close>

record attempt_admission =
  ad_OutcomeID :: ident
  ad_PlanRevisionID :: ident
  ad_WorkUnitID :: ident
  ad_ContractRevisionNumber :: int
  ad_RunIntentGeneration :: int
  ad_RequestKey :: string
  ad_FenceSubject :: string
  ad_At :: instant

definition admission_shape :: "attempt_admission \<Rightarrow> validation" where
  "admission_shape d = first_error
     [refuse (blank (ad_OutcomeID d) \<or> blank (ad_PlanRevisionID d) \<or> blank (ad_WorkUnitID d))
        (Errorf ''attempt admission requires outcome, plan revision, and work unit ids'' []),
      refuse (ad_ContractRevisionNumber d < 1)
        (Errorf ''attempt admission requires a contract revision'' []),
      refuse (blank (ad_RequestKey d)) (Errorf ''attempt admission requires a request key'' []),
      refuse (blank (ad_FenceSubject d)) (Errorf ''attempt admission requires a fence subject'' []),
      refuse (ad_At d = zero_time) (Errorf ''attempt admission requires a timestamp'' [])]"

text \<open>The authorization re-read on the transaction: the generation the attempt is bound to.\<close>

definition admission_authorization ::
  "control_store \<Rightarrow> attempt_admission \<Rightarrow> store_error + int" where
  "admission_authorization s d =
     (let oid = ad_OutcomeID d; cur = CurrentRunIntent (st_Intents s) oid;
          g = (case cur of None \<Rightarrow> 0 | Some i \<Rightarrow> ri_Generation i);
          desired = (case cur of None \<Rightarrow> RunIdle
                     | Some i \<Rightarrow> if ri_Desired i = RunUnset then RunIdle else ri_Desired i);
          plan = (case cur of None \<Rightarrow> [] | Some i \<Rightarrow> ri_PlanRevisionID i);
          contract = (case cur of None \<Rightarrow> 0 | Some i \<Rightarrow> ri_ContractRevisionNumber i);
          bound = (plan = ad_PlanRevisionID d \<and> contract = ad_ContractRevisionNumber d)
      in if desired \<noteq> RunIdle \<and> desired \<noteq> RunRunning
         then Inl (AttemptRunIntentConflict oid (ad_RunIntentGeneration d) g desired (g > 0))
         else if ad_RunIntentGeneration d > 0
         then (if g \<noteq> ad_RunIntentGeneration d \<or> desired \<noteq> RunRunning \<or> \<not> bound
               then Inl (AttemptRunIntentConflict oid (ad_RunIntentGeneration d) g desired (g > 0))
               else Inr (ad_RunIntentGeneration d))
         else if desired = RunRunning
         then (if \<not> bound then Inl (AttemptRunIntentConflict oid 0 g desired True) else Inr g)
         else Inr (ad_RunIntentGeneration d))"

definition admitted_attempt :: "control_store \<Rightarrow> ident \<Rightarrow> attempt_admission \<Rightarrow> int \<Rightarrow> attempt" where
  "admitted_attempt s aid d g =
     \<lparr>a_ID = aid, a_OutcomeID = ad_OutcomeID d, a_PlanRevisionID = ad_PlanRevisionID d,
      a_WorkUnitID = ad_WorkUnitID d, a_Number = MaxAttemptNumber s (ad_OutcomeID d) + 1,
      a_Status = AttemptQueued, a_ContractRevisionNumber = ad_ContractRevisionNumber d,
      a_RunIntentGeneration = g, a_RequestKey = trim_space (ad_RequestKey d),
      a_CreatedAt = ad_At d, a_UpdatedAt = ad_At d\<rparr>"

definition issued_fence :: "ident \<Rightarrow> string \<Rightarrow> ident \<Rightarrow> instant \<Rightarrow> fence_row" where
  "issued_fence fid subject aid at =
     \<lparr>af_ID = fid, af_Subject = subject, af_AttemptID = aid, af_IssuedAt = at, af_LastRenewedAt = at,
      af_ReleasedAt = zero_time, af_ReleaseReason = [], fr_Released = False\<rparr>"

definition insert_attempt :: "control_store \<Rightarrow> attempt \<Rightarrow> unit transaction" where
  "insert_attempt s a =
     (case find (\<lambda>b. a_RequestKey b = a_RequestKey a) (st_Attempts s) of
        Some w \<Rightarrow>
          if a_OutcomeID w \<noteq> a_OutcomeID a \<or> a_PlanRevisionID w \<noteq> a_PlanRevisionID a \<or>
             a_WorkUnitID w \<noteq> a_WorkUnitID a \<or>
             a_ContractRevisionNumber w \<noteq> a_ContractRevisionNumber a \<or>
             a_RunIntentGeneration w \<noteq> a_RunIntentGeneration a
          then Inl (AttemptReplayConflict w) else Inl (AttemptReplay w)
      | None \<Rightarrow>
          if attempt_exists s (a_ID a) then failed ''create attempt: constraint failed''
          else Inr ((), s\<lparr>st_Attempts := st_Attempts s @ [a]\<rparr>))"

definition issue_fence :: "control_store \<Rightarrow> fence_row \<Rightarrow> ident \<Rightarrow> unit transaction" where
  "issue_fence s f oid =
     (case OpenFenceForSubject s (af_Subject f) of
        Some holder \<Rightarrow> Inl (AttemptFenceHeld (af_Subject f) (af_AttemptID holder) oid)
      | None \<Rightarrow>
          if af_ID f \<in> af_ID ` set (st_Fences s)
          then Inl (AttemptFenceHeld (af_Subject f) [] oid)
          else Inr ((), s\<lparr>st_Fences := st_Fences s @ [f]\<rparr>))"

definition CreateAttemptWithFence ::
  "control_store \<Rightarrow> ident \<Rightarrow> ident \<Rightarrow> attempt_admission \<Rightarrow> attempt transaction" where
  "CreateAttemptWithFence s aid fid d =
     (case admission_shape d of
        Some e \<Rightarrow> Inl (StoreFailure e)
      | None \<Rightarrow>
          and_then (admission_authorization s d) (\<lambda>g.
            let a = admitted_attempt s aid d g in
            case Attempt_Validate a of
              Some e \<Rightarrow> Inl (StoreFailure e)
            | None \<Rightarrow>
                and_then (insert_attempt s a) (\<lambda>(_, s1).
                and_then (issue_fence s1 (issued_fence fid (ad_FenceSubject d) aid (ad_At d))
                            (ad_OutcomeID d)) (\<lambda>(_, s2). Inr (a, s2)))))"

definition TransitionAttemptStatus ::
  "control_store \<Rightarrow> ident \<Rightarrow> ident \<Rightarrow> attempt_status \<Rightarrow> attempt_status \<Rightarrow> instant \<Rightarrow> nat transaction"
where
  "TransitionAttemptStatus s oid aid expected next at = update_status s oid aid expected next at"

definition BindAttemptSession ::
  "control_store \<Rightarrow> ident \<Rightarrow> instant \<Rightarrow> session_ref \<Rightarrow> session_ref transaction" where
  "BindAttemptSession s fresh now r0 =
     (let seq = (case LatestAttemptSessionRef s (sr_AttemptID r0) of None \<Rightarrow> 0 | Some l \<Rightarrow> sr_Seq l);
          r = r0\<lparr>sr_Seq := seq + 1, sr_ID := (if blank (sr_ID r0) then fresh else sr_ID r0),
                 sr_BoundAt := (if sr_BoundAt r0 = zero_time then now else sr_BoundAt r0)\<rparr>
      in case AttemptSessionRef_Validate r of
           Some e \<Rightarrow> Inl (StoreFailure e)
         | None \<Rightarrow>
             if sr_ID r \<in> sr_ID ` set (st_Sessions s) \<or> \<not> attempt_exists s (sr_AttemptID r) \<or>
                \<not> json_valid (sr_AdmissionSnapshot r)
             then failed ''bind session: constraint failed''
             else Inr (r, s\<lparr>st_Sessions := st_Sessions s @ [r]\<rparr>))"

definition AppendAttemptObservation ::
  "control_store \<Rightarrow> ident \<Rightarrow> ident \<Rightarrow> string \<Rightarrow> string \<Rightarrow> instant \<Rightarrow> observation transaction" where
  "AppendAttemptObservation s obs aid kind payload at =
     append_validated s (new_observation s obs aid kind payload at)"

record prelaunch_failure =
  pf_OutcomeID :: ident
  pf_AttemptID :: ident
  pf_ObservationKind :: string
  pf_ObservationPayload :: string
  pf_ReleaseReason :: string
  pf_At :: instant

definition FailAttemptBeforeLaunch ::
  "control_store \<Rightarrow> ident \<Rightarrow> prelaunch_failure \<Rightarrow> observation transaction" where
  "FailAttemptBeforeLaunch s obs f =
     (if blank (pf_OutcomeID f) \<or> blank (pf_AttemptID f) \<or> blank (pf_ObservationKind f) \<or>
         blank (pf_ReleaseReason f) \<or> pf_At f = zero_time
      then failed ''prelaunch failure requires outcome, attempt, observation kind, release reason, and timestamp''
      else and_then (append_validated s (new_observation s obs (pf_AttemptID f) (pf_ObservationKind f)
                       (pf_ObservationPayload f) (pf_At f))) (\<lambda>(o', s1).
           and_then (update_status s1 (pf_OutcomeID f) (pf_AttemptID f) AttemptQueued AttemptFailed
                       (pf_At f)) (\<lambda>(rows, s2).
           if rows \<noteq> 1 then failed ''end prelaunch attempt %s: %d rows changed''
           else and_then (release_fences s2 (pf_AttemptID f) (pf_ReleaseReason f) (pf_At f)) (\<lambda>(freed, s3).
                if freed \<noteq> 1 then failed ''release prelaunch fence for %s: %d rows changed''
                else Inr (o', s3)))))"

record running_termination =
  rt_OutcomeID :: ident
  rt_AttemptID :: ident
  rt_TargetStatus :: attempt_status
  rt_ObservationKind :: string
  rt_ObservationPayload :: string
  rt_ReleaseReason :: string
  rt_At :: instant

text \<open>\<^verbatim>\<open>None\<close> is the false second result: the attempt had already left Running.\<close>

definition TerminateRunningAttemptWithObservation ::
  "control_store \<Rightarrow> ident \<Rightarrow> running_termination \<Rightarrow> observation option transaction" where
  "TerminateRunningAttemptWithObservation s obs t =
     (if blank (rt_OutcomeID t) \<or> blank (rt_AttemptID t) \<or>
         (case rt_TargetStatus t of AttemptStatusOther k \<Rightarrow> blank k | _ \<Rightarrow> False) \<or>
         blank (rt_ObservationKind t) \<or> rt_At t = zero_time
      then failed ''running attempt termination requires outcome, attempt, target status, observation kind, and timestamp''
      else and_then (update_status s (rt_OutcomeID t) (rt_AttemptID t) AttemptRunning
                       (rt_TargetStatus t) (rt_At t)) (\<lambda>(rows, s1).
           if rows = 0 then Inr (None, s)
           else and_then (append_validated s1 (new_observation s1 obs (rt_AttemptID t)
                            (rt_ObservationKind t) (rt_ObservationPayload t) (rt_At t))) (\<lambda>(o', s2).
                if rt_ReleaseReason t = [] then Inr (Some o', s2)
                else and_then (release_fences s2 (rt_AttemptID t) (rt_ReleaseReason t) (rt_At t))
                       (\<lambda>(_, s3). Inr (Some o', s3)))))"

definition ReleaseFenceForAttempt :: "control_store \<Rightarrow> ident \<Rightarrow> string \<Rightarrow> instant \<Rightarrow> nat transaction" where
  "ReleaseFenceForAttempt s aid reason at =
     (if reason = [] then failed ''release fence for %s: a released fence must record why''
      else release_fences s aid reason at)"

definition RenewFenceForAttempt :: "control_store \<Rightarrow> ident \<Rightarrow> instant \<Rightarrow> nat transaction" where
  "RenewFenceForAttempt s aid at =
     (let hit = (\<lambda>f. af_AttemptID f = aid \<and> \<not> fr_Released f) in
      Inr (length (filter hit (st_Fences s)),
           s\<lparr>st_Fences := map (\<lambda>f. if hit f then f\<lparr>af_LastRenewedAt := at\<rparr> else f) (st_Fences s)\<rparr>))"

definition CreateRecoveryReceipt ::
  "control_store \<Rightarrow> ident \<Rightarrow> recovery_receipt \<Rightarrow> unit transaction" where
  "CreateRecoveryReceipt s fresh r0 =
     (let r = r0\<lparr>rv_ID := (if rv_ID r0 = [] then fresh else rv_ID r0)\<rparr>;
          detail = (if rv_Detail r = [] then ''{}'' else rv_Detail r)
      in case AttemptRecoveryReceipt_Validate r of
           Some e \<Rightarrow> Inl (StoreFailure e)
         | None \<Rightarrow>
             if rv_Detail r \<noteq> [] \<and> \<not> json_valid (rv_Detail r)
             then failed ''recovery receipt %s detail must be valid JSON''
             else if rv_ID r \<in> rv_ID ` set (st_Recoveries s) \<or> \<not> attempt_exists s (rv_AttemptID r)
             then failed ''create recovery receipt: constraint failed''
             else Inr ((), s\<lparr>st_Recoveries := st_Recoveries s @ [r\<lparr>rv_Detail := detail\<rparr>]\<rparr>))"

section \<open>Artifact receipts\<close>

definition SaveAttemptReceipt ::
  "(string \<Rightarrow> string) \<Rightarrow> control_store \<Rightarrow> attempt_receipt \<Rightarrow> unit transaction" where
  "SaveAttemptReceipt sha s r =
     (let old = GetAttemptReceipt s (rp_AttemptID r);
          others = filter (\<lambda>q. rp_AttemptID q \<noteq> rp_AttemptID r) (st_Receipts s)
      in if (case old of Some e \<Rightarrow> Receipt_Frozen e | None \<Rightarrow> False) then Inl AttemptReceiptFrozen
         else case AttemptReceipt_Validate sha r of
           Some e \<Rightarrow> Inl (StoreFailure e)
         | None \<Rightarrow>
             (case GetAttempt s (rp_OutcomeID r) (rp_AttemptID r) of
                None \<Rightarrow> failed ''receipt %s has no matching producing Attempt''
              | Some a \<Rightarrow>
                  if a_PlanRevisionID a \<noteq> rp_PlanRevisionID r \<or> a_WorkUnitID a \<noteq> rp_WorkUnitID r \<or>
                     a_ContractRevisionNumber a \<noteq> rp_ContractRevisionNumber r
                  then failed ''receipt %s does not match its producing Attempt lineage''
                  else if \<not> distinct (map fl_RelativePath (rp_Files r)) \<or>
                     \<not> distinct (map fl_ID (rp_Files r @ concat (map rp_Files others)))
                  then failed ''save artifact file: constraint failed''
                  else Inr ((), s\<lparr>st_Receipts := others @ [r\<lparr>rp_FrozenAt := None\<rparr>]\<rparr>)))"

definition freeze_rows :: "control_store \<Rightarrow> ident \<Rightarrow> instant \<Rightarrow> control_store" where
  "freeze_rows s aid at = s\<lparr>st_Receipts := map (\<lambda>r.
     if rp_AttemptID r = aid \<and> rp_FrozenAt r = None then r\<lparr>rp_FrozenAt := Some at\<rparr> else r)
     (st_Receipts s)\<rparr>"

definition FreezeAttemptReceipt :: "control_store \<Rightarrow> ident \<Rightarrow> instant \<Rightarrow> unit transaction" where
  "FreezeAttemptReceipt s aid at =
     (case GetAttemptReceipt s aid of
        None \<Rightarrow> Inl AttemptReceiptMissing
      | Some r \<Rightarrow> if rp_RetentionState r \<noteq> RetentionRetained then Inl AttemptReceiptNotReady
                  else Inr ((), freeze_rows s aid at))"

record classify_input =
  cl_OutcomeID :: ident
  cl_AttemptID :: ident
  cl_ExpectedStatus :: attempt_status
  cl_ArtifactVersion :: string
  cl_ContractRevisionNumber :: int
  cl_ProofGeneration :: "int option"
  cl_ObservationKind :: string
  cl_ObservationPayload :: string
  cl_At :: instant

text \<open>The checks of \<^verbatim>\<open>ClassifyAttemptSucceeded\<close> before it decides to write.\<close>

definition classification_checks :: "control_store \<Rightarrow> classify_input \<Rightarrow> store_error + attempt \<times> attempt_receipt"
where
  "classification_checks s c =
     (case GetAttempt s (cl_OutcomeID c) (cl_AttemptID c) of
        None \<Rightarrow> Inl AttemptClassificationStale
      | Some a \<Rightarrow>
          (case GetAttemptReceipt s (cl_AttemptID c) of
             None \<Rightarrow> Inl AttemptReceiptMissing
           | Some r \<Rightarrow>
               if rp_RetentionState r \<noteq> RetentionRetained \<or> rp_ArtifactVersion r \<noteq> cl_ArtifactVersion c
               then Inl AttemptReceiptNotReady
               else if rp_OutcomeID r \<noteq> a_OutcomeID a \<or> rp_PlanRevisionID r \<noteq> a_PlanRevisionID a \<or>
                  rp_WorkUnitID r \<noteq> a_WorkUnitID a \<or>
                  rp_ContractRevisionNumber r \<noteq> a_ContractRevisionNumber a
               then Inl AttemptClassificationStale
               else if rp_OutcomeID r \<noteq> cl_OutcomeID c \<or> rp_PlanRevisionID r = [] \<or> rp_WorkUnitID r = []
               then failed ''receipt %s has invalid producing lineage''
               else if a_ContractRevisionNumber a \<noteq> cl_ContractRevisionNumber c
               then Inl AttemptClassificationStale
               else if st_ContractNumber s (cl_OutcomeID c) \<noteq> cl_ContractRevisionNumber c
               then Inl AttemptClassificationStale
               else if cl_ProofGeneration c \<noteq> Some (st_ProofGeneration s (cl_OutcomeID c))
               then Inl AttemptClassificationStale
               else Inr (a, r)))"

definition ClassifyAttemptSucceeded ::
  "control_store \<Rightarrow> ident \<Rightarrow> classify_input \<Rightarrow> unit transaction" where
  "ClassifyAttemptSucceeded s obs c =
     (if cl_At c = zero_time \<or> blank (cl_OutcomeID c) \<or> blank (cl_AttemptID c) \<or>
         blank (cl_ArtifactVersion c)
      then failed ''attempt classification requires identity, artifact version and timestamp''
      else if cl_ContractRevisionNumber c < 1 \<or> cl_ProofGeneration c = None
      then failed ''attempt classification requires the judged contract revision and proof horizon''
      else and_then (classification_checks s c) (\<lambda>(a, r).
        if a_Status a = AttemptSucceeded
        then (if Receipt_Frozen r then Inr ((), s) else Inl AttemptClassificationStale)
        else if a_Status a \<noteq> cl_ExpectedStatus c then Inl AttemptClassificationStale
        else and_then (update_status s (cl_OutcomeID c) (cl_AttemptID c) (cl_ExpectedStatus c)
                         AttemptSucceeded (cl_At c)) (\<lambda>(rows, s1).
          if rows = 0 then Inl AttemptClassificationStale
          else let s2 = freeze_rows s1 (cl_AttemptID c) (cl_At c);
                   o' = new_observation s2 obs (cl_AttemptID c) (cl_ObservationKind c)
                          (cl_ObservationPayload c) (cl_At c)
               in if blank (ob_Kind o') \<or> \<not> json_valid (ob_Payload o')
                  then failed ''record classification observation: constraint failed''
                  else and_then (insert_observation s2 o') (\<lambda>(_, s3).
                       and_then (release_fences s3 (cl_AttemptID c) ''attempt_succeeded'' (cl_At c))
                         (\<lambda>(_, s4). Inr ((), s4))))))"

end
