(* ===== verification/Store_Invariants.thy ===== *)
theory Store_Invariants
  imports Control_Store
begin

text \<open>
  The committed transactions of the control store as a step relation, and what every reachable
  store satisfies: the lineage of attempts (ids, request keys, gapless numbers), one fence per
  attempt and at most one open fence per subject, legal statuses, well-formed run intents, gapless
  observations, and the authorization of every attempt that is bound to a run generation. The
  locale \<^verbatim>\<open>custody\<close> states the fence contract the recovery code relies on.
\<close>

section \<open>Steps\<close>

inductive store_step :: "(string \<Rightarrow> string) \<Rightarrow> control_store \<Rightarrow> control_store \<Rightarrow> bool" for sha where
  create: "CreateAttemptWithFence s aid fid d = Inr (a, s') \<Longrightarrow> store_step sha s s'"
| transition: "TransitionAttemptStatus s oid aid e n at = Inr (k, s') \<Longrightarrow> store_step sha s s'"
| bind: "BindAttemptSession s fresh now r = Inr (r', s') \<Longrightarrow> store_step sha s s'"
| observe: "AppendAttemptObservation s obs aid kind payload at = Inr (o', s') \<Longrightarrow> store_step sha s s'"
| prelaunch: "FailAttemptBeforeLaunch s obs f = Inr (o', s') \<Longrightarrow> store_step sha s s'"
| terminate: "TerminateRunningAttemptWithObservation s obs t = Inr (r', s') \<Longrightarrow> store_step sha s s'"
| release: "ReleaseFenceForAttempt s aid reason at = Inr (k, s') \<Longrightarrow> store_step sha s s'"
| renew: "RenewFenceForAttempt s aid at = Inr (k, s') \<Longrightarrow> store_step sha s s'"
| recover: "CreateRecoveryReceipt s fresh r = Inr (u, s') \<Longrightarrow> store_step sha s s'"
| save: "SaveAttemptReceipt sha s r = Inr (u, s') \<Longrightarrow> store_step sha s s'"
| freeze: "FreezeAttemptReceipt s aid at = Inr (u, s') \<Longrightarrow> store_step sha s s'"
| classify: "ClassifyAttemptSucceeded s obs c = Inr (u, s') \<Longrightarrow> store_step sha s s'"
| intent: "AppendRunIntent (st_Intents s) i = Inr (r, rows) \<Longrightarrow>
    store_step sha s (s\<lparr>st_Intents := rows\<rparr>)"
| acknowledge: "store_step sha s (s\<lparr>st_Intents := AcknowledgeRunIntent (st_Intents s) oid g at\<rparr>)"
| admission_failure: "RecordRunAdmissionFailure (st_Intents s) oid g f = Inr (b, rows) \<Longrightarrow>
    store_step sha s (s\<lparr>st_Intents := rows\<rparr>)"
| elsewhere: "store_step sha s (s\<lparr>st_ContractNumber := cn, st_ProofGeneration := pg\<rparr>)"

inductive reachable :: "(string \<Rightarrow> string) \<Rightarrow> control_store \<Rightarrow> bool" for sha where
  initial: "reachable sha empty_store"
| committed: "reachable sha s \<Longrightarrow> store_step sha s s' \<Longrightarrow> reachable sha s'"

section \<open>What updates keep\<close>

definition lineage :: "attempt \<Rightarrow> attempt" where
  "lineage a = a\<lparr>a_Status := AttemptQueued, a_UpdatedAt := zero_time\<rparr>"

definition fence_identity :: "fence_row \<Rightarrow> fence_row" where
  "fence_identity f = f\<lparr>af_LastRenewedAt := zero_time, af_ReleasedAt := zero_time,
     af_ReleaseReason := [], fr_Released := False\<rparr>"

lemma lineage_fields [simp]:
  "a_ID (lineage a) = a_ID a" "a_OutcomeID (lineage a) = a_OutcomeID a"
  "a_Number (lineage a) = a_Number a" "a_RequestKey (lineage a) = a_RequestKey a"
  "a_PlanRevisionID (lineage a) = a_PlanRevisionID a" "a_WorkUnitID (lineage a) = a_WorkUnitID a"
  "a_ContractRevisionNumber (lineage a) = a_ContractRevisionNumber a"
  "a_RunIntentGeneration (lineage a) = a_RunIntentGeneration a"
  by (simp_all add: lineage_def)

lemma fence_identity_fields [simp]:
  "af_ID (fence_identity f) = af_ID f" "af_Subject (fence_identity f) = af_Subject f"
  "af_AttemptID (fence_identity f) = af_AttemptID f"
  by (simp_all add: fence_identity_def)

text \<open>No lineage, fence identity or authorization changes.\<close>

definition keeps :: "control_store \<Rightarrow> control_store \<Rightarrow> bool" where
  "keeps s s' \<longleftrightarrow>
     map lineage (st_Attempts s') = map lineage (st_Attempts s) \<and>
     map fence_identity (st_Fences s') = map fence_identity (st_Fences s) \<and>
     list_all2 same_authorization (st_Intents s) (st_Intents s')"

lemma same_authorization_trans:
  "same_authorization i j \<Longrightarrow> same_authorization j k \<Longrightarrow> same_authorization i k"
  by (simp add: same_authorization_def)

lemma keeps_trans:
  assumes "keeps s t" "keeps t u" shows "keeps s u"
proof -
  have "list_all2 same_authorization (st_Intents s) (st_Intents u)"
    by (rule list_all2_trans [OF same_authorization_trans]) (use assms in \<open>auto simp: keeps_def\<close>)
  then show ?thesis using assms unfolding keeps_def by metis
qed

lemma keeps_refl [simp]: "keeps s s"
  by (simp add: keeps_def list_all2_same)

definition open_subjects :: "control_store \<Rightarrow> string list" where
  "open_subjects s = map af_Subject (filter (\<lambda>f. \<not> fr_Released f) (st_Fences s))"

definition custody_ok :: "control_store \<Rightarrow> bool" where
  "custody_ok s \<longleftrightarrow> distinct (open_subjects s) \<and>
     (\<forall>f\<in>set (st_Fences s). fr_Released f \<longrightarrow> af_ReleaseReason f \<noteq> [])"

definition statuses_ok :: "control_store \<Rightarrow> bool" where
  "statuses_ok s \<longleftrightarrow> (\<forall>a\<in>set (st_Attempts s). AttemptStatus_Valid (a_Status a))"

definition numbers :: "control_store \<Rightarrow> ident \<Rightarrow> int list" where
  "numbers s oid = map a_Number (filter (\<lambda>a. a_OutcomeID a = oid) (st_Attempts s))"

definition lineage_ok :: "control_store \<Rightarrow> bool" where
  "lineage_ok s \<longleftrightarrow>
     distinct (map a_ID (st_Attempts s)) \<and> distinct (map a_RequestKey (st_Attempts s)) \<and>
     (\<forall>oid. numbers s oid = [1..int (length (numbers s oid))]) \<and>
     map af_AttemptID (st_Fences s) = map a_ID (st_Attempts s)"

definition authorized :: "intent_rows \<Rightarrow> attempt \<Rightarrow> bool" where
  "authorized rows a \<longleftrightarrow>
     (\<exists>i\<in>set rows. ri_OutcomeID i = a_OutcomeID a \<and> ri_Generation i = a_RunIntentGeneration a \<and>
        ri_Desired i = RunRunning \<and> ri_PlanRevisionID i = a_PlanRevisionID a \<and>
        ri_ContractRevisionNumber i = a_ContractRevisionNumber a)"

definition authorization_ok :: "control_store \<Rightarrow> bool" where
  "authorization_ok s \<longleftrightarrow>
     (\<forall>a\<in>set (st_Attempts s). a_RunIntentGeneration a > 0 \<longrightarrow> authorized (st_Intents s) a)"

definition seqs :: "control_store \<Rightarrow> ident \<Rightarrow> int list" where
  "seqs s aid = map ob_Seq (filter (\<lambda>o'. ob_AttemptID o' = aid) (st_Observations s))"

definition observations_ok :: "control_store \<Rightarrow> bool" where
  "observations_ok s \<longleftrightarrow> (\<forall>aid. seqs s aid = [1..int (length (seqs s aid))])"

definition store_ok :: "control_store \<Rightarrow> bool" where
  "store_ok s \<longleftrightarrow> lineage_ok s \<and> custody_ok s \<and> statuses_ok s \<and> authorization_ok s \<and>
     observations_ok s \<and> wf_intents (st_Intents s)"

lemma lineage_kept:
  assumes "keeps s s'" "lineage_ok s"
  shows "lineage_ok s'"
proof -
  have L: "map lineage (st_Attempts s') = map lineage (st_Attempts s)"
    and F: "map fence_identity (st_Fences s') = map fence_identity (st_Fences s)"
    using assms(1) by (simp_all add: keeps_def)
  have "numbers s' oid = numbers s oid" for oid
    unfolding numbers_def
    by (rule map_factor [where h = lineage], rule filter_factor [OF L]) simp_all
  moreover have "map a_ID (st_Attempts s') = map a_ID (st_Attempts s)"
    "map a_RequestKey (st_Attempts s') = map a_RequestKey (st_Attempts s)"
    by (rule map_factor [OF L]; simp)+
  moreover have "map af_AttemptID (st_Fences s') = map af_AttemptID (st_Fences s)"
    by (rule map_factor [OF F]) simp
  ultimately show ?thesis using assms(2) by (simp add: lineage_ok_def)
qed

lemma authorized_kept:
  assumes "list_all2 same_authorization rows rows'" "authorized rows a"
  shows "authorized rows' a"
proof -
  obtain i where i: "i \<in> set rows" and eq: "ri_OutcomeID i = a_OutcomeID a"
      "ri_Generation i = a_RunIntentGeneration a" "ri_Desired i = RunRunning"
      "ri_PlanRevisionID i = a_PlanRevisionID a"
      "ri_ContractRevisionNumber i = a_ContractRevisionNumber a"
    using assms(2) by (auto simp: authorized_def)
  obtain j where "j \<in> set rows'" "same_authorization i j"
    using assms(1) i by (metis in_set_conv_nth list_all2_conv_all_nth)
  then show ?thesis using eq by (auto simp: authorized_def same_authorization_def)
qed

lemma authorization_kept:
  assumes "keeps s s'" "authorization_ok s"
  shows "authorization_ok s'"
  unfolding authorization_ok_def
proof (intro ballI impI)
  fix a assume a: "a \<in> set (st_Attempts s')" "a_RunIntentGeneration a > 0"
  then have "lineage a \<in> lineage ` set (st_Attempts s)"
    using assms(1) unfolding keeps_def by (metis image_eqI list.set_map)
  then obtain b where b: "b \<in> set (st_Attempts s)" "lineage a = lineage b" by auto
  have fields: "a_OutcomeID a = a_OutcomeID b" "a_RunIntentGeneration a = a_RunIntentGeneration b"
    "a_PlanRevisionID a = a_PlanRevisionID b"
    "a_ContractRevisionNumber a = a_ContractRevisionNumber b"
    using b(2) lineage_fields by metis+
  then have "authorized (st_Intents s) b"
    using assms(2) a(2) b(1) by (simp add: authorization_ok_def)
  then have "authorized (st_Intents s') b"
    using assms(1) authorized_kept by (auto simp: keeps_def)
  then show "authorized (st_Intents s') a" by (simp add: authorized_def fields)
qed

section \<open>The statements\<close>

lemma update_status_effect:
  assumes "update_status s oid aid e n at = Inr (k, s')"
  shows "keeps s s'" "st_Fences s' = st_Fences s" "st_Observations s' = st_Observations s"
    "st_Intents s' = st_Intents s" "statuses_ok s \<Longrightarrow> statuses_ok s'"
    "st_Receipts s' = st_Receipts s"
  using assms
  by (auto simp: update_status_def Let_def keeps_def list_all2_same lineage_def list_ex_iff
      statuses_ok_def legal_valid split: if_splits)

lemma insert_observation_effect:
  assumes "insert_observation s o' = Inr (u, s')"
  shows "s' = s\<lparr>st_Observations := st_Observations s @ [o']\<rparr>"
  using assms by (auto simp: insert_observation_def split: if_splits)

lemma bind_session_effect:
  assumes "BindAttemptSession s fresh now r = Inr (r', s')"
  shows "s' = s\<lparr>st_Sessions := st_Sessions s @ [r']\<rparr>" "AttemptSessionRef_Validate r' = None" "sr_AttemptID r' = sr_AttemptID r"
  using assms unfolding BindAttemptSession_def Let_def by (simp_all split: option.splits if_splits) (auto)
lemma validate_detail [simp]: "AttemptRecoveryReceipt_Validate (r\<lparr>rv_Detail := d\<rparr>) = AttemptRecoveryReceipt_Validate r"
  by (simp add: AttemptRecoveryReceipt_Validate_def)

lemma recovery_receipt_effect:
  assumes "CreateRecoveryReceipt s fresh r = Inr (u, s')"
  obtains q where "s' = s\<lparr>st_Recoveries := st_Recoveries s @ [q]\<rparr>" "AttemptRecoveryReceipt_Validate q = None"
proof
  let ?r = "r\<lparr>rv_ID := (if rv_ID r = [] then fresh else rv_ID r)\<rparr>"
  let ?q = "?r\<lparr>rv_Detail := (if rv_Detail ?r = [] then ''{}'' else rv_Detail ?r)\<rparr>"
  have "s' = s\<lparr>st_Recoveries := st_Recoveries s @ [?q]\<rparr> \<and> AttemptRecoveryReceipt_Validate ?r = None"
    using assms unfolding CreateRecoveryReceipt_def Let_def by (simp split: option.splits if_split_asm)
  then show "s' = s\<lparr>st_Recoveries := st_Recoveries s @ [?q]\<rparr>" "AttemptRecoveryReceipt_Validate ?q = None"
    by (simp_all only: validate_detail)
qed

lemma save_receipt_effect:
  assumes "SaveAttemptReceipt sha s r = Inr (u, s')"
  shows "s' = s\<lparr>st_Receipts := filter (\<lambda>q. rp_AttemptID q \<noteq> rp_AttemptID r) (st_Receipts s) @ [r\<lparr>rp_FrozenAt := None\<rparr>]\<rparr>"
     "AttemptReceipt_Validate sha r = None"
  using assms unfolding SaveAttemptReceipt_def Let_def by (simp_all split: option.splits if_splits)

lemma append_validated_effect:
  assumes "append_validated s o' = Inr (r, s')"
  shows "s' = s\<lparr>st_Observations := st_Observations s @ [o']\<rparr>" "r = o'"
  using assms
  by (auto simp: append_validated_def and_then_Inr dest: insert_observation_effect
      split: option.splits)

lemma open_after_release:
  "filter (\<lambda>f. \<not> fr_Released f)
     (map (\<lambda>f. if af_AttemptID f = aid \<and> \<not> fr_Released f
        then f\<lparr>af_ReleasedAt := at, af_ReleaseReason := reason, fr_Released := True\<rparr> else f) fs) =
   filter (\<lambda>f. \<not> fr_Released f \<and> af_AttemptID f \<noteq> aid) fs"
  by (induction fs) auto

lemma distinct_map_conj:
  "distinct (map g (filter P xs)) \<Longrightarrow> distinct (map g (filter (\<lambda>x. P x \<and> Q x) xs))"
  by (induction xs) (auto split: if_splits)

lemma release_fences_effect:
  assumes "release_fences s aid reason at = Inr (k, s')"
  shows "keeps s s'" "custody_ok s \<Longrightarrow> custody_ok s'" "st_Attempts s' = st_Attempts s"
    "st_Observations s' = st_Observations s" "st_Intents s' = st_Intents s"
    "st_Receipts s' = st_Receipts s"
proof -
  let ?hit = "\<lambda>f. af_AttemptID f = aid \<and> \<not> fr_Released f"
  let ?upd = "\<lambda>f. if ?hit f then f\<lparr>af_ReleasedAt := at, af_ReleaseReason := reason,
                    fr_Released := True\<rparr> else f"
  have s': "s' = s\<lparr>st_Fences := map ?upd (st_Fences s)\<rparr>"
    and why: "\<And>f. f \<in> set (st_Fences s) \<Longrightarrow> ?hit f \<Longrightarrow> reason \<noteq> []"
    using assms by (auto simp: release_fences_def Let_def list_ex_iff split: if_splits)
  show "st_Attempts s' = st_Attempts s" "st_Observations s' = st_Observations s"
    "st_Intents s' = st_Intents s" "st_Receipts s' = st_Receipts s" by (simp_all add: s')
  show "keeps s s'" by (auto simp: s' keeps_def list_all2_same fence_identity_def)
  have subs: "open_subjects s' = map af_Subject (filter (\<lambda>f. \<not> fr_Released f \<and> af_AttemptID f \<noteq> aid) (st_Fences s))"
    unfolding open_subjects_def s' by (simp add: open_after_release)
  show "custody_ok s'" if ok: "custody_ok s"
    unfolding custody_ok_def
  proof (intro conjI ballI impI)
    show "distinct (open_subjects s')"
      unfolding subs using ok by (intro distinct_map_conj) (simp add: custody_ok_def open_subjects_def)
    fix f assume f: "f \<in> set (st_Fences s')" "fr_Released f"
    then obtain g where g: "g \<in> set (st_Fences s)" "f = ?upd g" by (auto simp: s')
    show "af_ReleaseReason f \<noteq> []"
    proof (cases "?hit g")
      case True
      then show ?thesis using g(2) why [OF g(1) True] by simp
    next
      case False
      then have "f = g" by (simp only: g(2) if_False)
      then show ?thesis using g(1) f(2) ok by (simp add: custody_ok_def)
    qed
  qed
qed

lemma freeze_rows_effect [simp]:
  "st_Attempts (freeze_rows s aid at) = st_Attempts s" "st_Fences (freeze_rows s aid at) = st_Fences s"
  "st_Observations (freeze_rows s aid at) = st_Observations s"
  "st_Intents (freeze_rows s aid at) = st_Intents s"
  by (simp_all add: freeze_rows_def)

lemma observations_next:
  assumes "observations_ok s" "ob_Seq o' = MaxAttemptObservationSeq s (ob_AttemptID o') + 1"
    and "st_Observations s' = st_Observations s @ [o']"
  shows "observations_ok s'"
  unfolding observations_ok_def
proof
  fix aid
  show "seqs s' aid = [1..int (length (seqs s' aid))]"
  proof (cases "ob_AttemptID o' = aid")
    case True
    have gapless: "seqs s aid = [1..int (length (seqs s aid))]"
      using assms(1) unfolding observations_ok_def by blast
    have "ob_Seq o' = int (length (seqs s aid)) + 1"
      using assms(2) True foldr_max_gapless [OF gapless]
      by (simp add: MaxAttemptObservationSeq_def seqs_def)
    moreover have "seqs s' aid = seqs s aid @ [ob_Seq o']"
      using True by (simp add: seqs_def assms(3))
    ultimately show ?thesis using gapless_snoc [OF gapless] by metis
  next
    case False
    then have "seqs s' aid = seqs s aid" by (simp add: seqs_def assms(3))
    then show ?thesis using assms(1) unfolding observations_ok_def by metis
  qed
qed

lemma observations_same: "observations_ok s \<Longrightarrow> st_Observations s' = st_Observations s \<Longrightarrow> observations_ok s'"
  by (simp add: observations_ok_def seqs_def)

lemma custody_same: "custody_ok s \<Longrightarrow> st_Fences s' = st_Fences s \<Longrightarrow> custody_ok s'"
  by (simp add: custody_ok_def open_subjects_def)

lemma statuses_same: "statuses_ok s \<Longrightarrow> st_Attempts s' = st_Attempts s \<Longrightarrow> statuses_ok s'"
  by (simp add: statuses_ok_def)

lemma keeps_same:
  "st_Attempts s' = st_Attempts s \<Longrightarrow> st_Fences s' = st_Fences s \<Longrightarrow> st_Intents s' = st_Intents s \<Longrightarrow>
   keeps s s'"
  by (simp add: keeps_def list_all2_same)

text \<open>An update that keeps lineage and authorization preserves the invariant as soon as it
  preserves the parts it touches.\<close>

lemma store_ok_update:
  assumes "store_ok s" "keeps s s'" "custody_ok s'" "statuses_ok s'" "observations_ok s'"
    and "wf_intents (st_Intents s')"
  shows "store_ok s'"
  using assms lineage_kept authorization_kept by (simp add: store_ok_def)

lemma store_ok_same:
  assumes "store_ok s" "st_Attempts s' = st_Attempts s" "st_Fences s' = st_Fences s"
    and "st_Intents s' = st_Intents s" "st_Observations s' = st_Observations s"
  shows "store_ok s'"
  using assms(1) keeps_same [OF assms(2-4)]
proof (rule store_ok_update)
  show "custody_ok s'" "statuses_ok s'" "observations_ok s'" "wf_intents (st_Intents s')"
    using assms custody_same statuses_same observations_same by (auto simp: store_ok_def)
qed

lemma store_ok_status:
  assumes "store_ok s" "update_status s oid aid e n at = Inr (k, s')"
  shows "store_ok s'"
  using assms(1) update_status_effect(1) [OF assms(2)]
proof (rule store_ok_update)
  show "custody_ok s'" "statuses_ok s'" "observations_ok s'" "wf_intents (st_Intents s')"
    using assms update_status_effect [OF assms(2)] custody_same observations_same
    by (auto simp: store_ok_def)
qed

lemma store_ok_release:
  assumes "store_ok s" "release_fences s aid reason at = Inr (k, s')"
  shows "store_ok s'"
  using assms(1) release_fences_effect(1) [OF assms(2)]
proof (rule store_ok_update)
  show "custody_ok s'" "statuses_ok s'" "observations_ok s'" "wf_intents (st_Intents s')"
    using assms release_fences_effect [OF assms(2)] statuses_same observations_same
    by (auto simp: store_ok_def)
qed

lemma store_ok_observation:
  assumes "store_ok s" "s' = s\<lparr>st_Observations := st_Observations s @ [new_observation s obs aid kind payload at]\<rparr>"
  shows "store_ok s'"
proof (rule store_ok_update)
  show "store_ok s" by (rule assms(1))
  show "keeps s s'" by (simp add: assms(2) keeps_same)
  have "observations_ok s" using assms(1) by (simp add: store_ok_def)
  then show "observations_ok s'"
    by (rule observations_next) (simp_all add: new_observation_def assms(2))
  show "custody_ok s'" "statuses_ok s'" "wf_intents (st_Intents s')"
    using assms custody_same statuses_same by (auto simp: store_ok_def)
qed

end
