(* ===== verification/Store_Reachable.thy ===== *)
theory Store_Reachable
  imports Store_Invariants
begin

text \<open>
  The store invariant holds in every reachable store: each transaction is composed of the
  statements of \<^verbatim>\<open>Store_Invariants\<close>, and the admission of an attempt is the only one that
  extends lineage and custody. The custody contract is stated as a locale and interpreted on
  reachable stores.
\<close>

lemma store_ok_empty: "store_ok empty_store"
  by (simp add: store_ok_def empty_store_def lineage_ok_def numbers_def custody_ok_def
      open_subjects_def statuses_ok_def authorization_ok_def observations_ok_def seqs_def)

section \<open>Admission\<close>

lemma authorization_generation:
  assumes "admission_authorization s d = Inr g" "g > 0"
  obtains i where "CurrentRunIntent (st_Intents s) (ad_OutcomeID d) = Some i"
    "ri_Generation i = g" "ri_Desired i = RunRunning"
    "ri_PlanRevisionID i = ad_PlanRevisionID d"
    "ri_ContractRevisionNumber i = ad_ContractRevisionNumber d"
  using assms
  by (auto simp: admission_authorization_def Let_def split: option.splits if_splits)

lemma authorization_intent:
  assumes "admission_authorization s d = Inr g"
    and "CurrentRunIntent (st_Intents s) (ad_OutcomeID d) = Some i"
  shows "ri_Desired i \<in> {RunUnset, RunIdle, RunRunning}"
    and "ri_Desired i = RunRunning \<Longrightarrow> ri_Generation i > 0 \<Longrightarrow> g = ri_Generation i"
  using assms by (auto simp: admission_authorization_def Let_def split: if_splits)

lemma issued_fence_fields [simp]:
  "af_Subject (issued_fence fid sub aid at) = sub" "af_AttemptID (issued_fence fid sub aid at) = aid"
  "af_ID (issued_fence fid sub aid at) = fid" "\<not> fr_Released (issued_fence fid sub aid at)"
  by (simp_all add: issued_fence_def)

lemma admitted_attempt_fields [simp]:
  "a_ID (admitted_attempt s aid d g) = aid"
  "a_OutcomeID (admitted_attempt s aid d g) = ad_OutcomeID d"
  "a_RunIntentGeneration (admitted_attempt s aid d g) = g"
  "a_Status (admitted_attempt s aid d g) = AttemptQueued"
  "a_PlanRevisionID (admitted_attempt s aid d g) = ad_PlanRevisionID d"
  "a_ContractRevisionNumber (admitted_attempt s aid d g) = ad_ContractRevisionNumber d"
  "a_Number (admitted_attempt s aid d g) = MaxAttemptNumber s (ad_OutcomeID d) + 1"
  by (simp_all add: admitted_attempt_def)

lemma insert_attempt_effect:
  assumes "insert_attempt s a = Inr (u, s')"
  shows "a_RequestKey a \<notin> a_RequestKey ` set (st_Attempts s)" "a_ID a \<notin> a_ID ` set (st_Attempts s)"
    "s' = s\<lparr>st_Attempts := st_Attempts s @ [a]\<rparr>"
  using assms
  by (auto simp: insert_attempt_def attempt_exists_def find_None_set split: option.splits if_splits)

lemma issue_fence_effect:
  assumes "issue_fence s f oid = Inr (u, s')"
  shows "af_ID f \<notin> af_ID ` set (st_Fences s)" "OpenFenceForSubject s (af_Subject f) = None"
    "s' = s\<lparr>st_Fences := st_Fences s @ [f]\<rparr>"
  using assms by (auto simp: issue_fence_def split: option.splits if_splits)

lemma create_effect:
  assumes "CreateAttemptWithFence s aid fid d = Inr (a, s')"
  obtains g where "admission_authorization s d = Inr g" "a = admitted_attempt s aid d g"
    "Attempt_Validate a = None" "a_RequestKey a \<notin> a_RequestKey ` set (st_Attempts s)"
    "aid \<notin> a_ID ` set (st_Attempts s)" "fid \<notin> af_ID ` set (st_Fences s)"
    "OpenFenceForSubject s (ad_FenceSubject d) = None"
    "s' = s\<lparr>st_Attempts := st_Attempts s @ [a],
            st_Fences := st_Fences s @ [issued_fence fid (ad_FenceSubject d) aid (ad_At d)]\<rparr>"
    "admission_shape d = None"
proof -
  obtain g s1 where g: "admission_shape d = None" "admission_authorization s d = Inr g"
      "a = admitted_attempt s aid d g" "Attempt_Validate a = None" "insert_attempt s a = Inr ((), s1)"
      "issue_fence s1 (issued_fence fid (ad_FenceSubject d) aid (ad_At d)) (ad_OutcomeID d) = Inr ((), s')"
    using assms by (auto simp: CreateAttemptWithFence_def Let_def and_then_Inr split: option.splits)
  show ?thesis
    using that [OF g(2-4)] insert_attempt_effect [OF g(5)] issue_fence_effect [OF g(6)] g(1,3)
    by (simp add: OpenFenceForSubject_def)
qed

lemma create_numbers:
  assumes "lineage_ok s" "s' = s\<lparr>st_Attempts := st_Attempts s @ [a], st_Fences := fs\<rparr>"
    and "a_Number a = MaxAttemptNumber s (a_OutcomeID a) + 1"
  shows "numbers s' oid = [1..int (length (numbers s' oid))]"
proof (cases "a_OutcomeID a = oid")
  case True
  have gapless: "numbers s oid = [1..int (length (numbers s oid))]"
    using assms(1) by (simp add: lineage_ok_def)
  have "a_Number a = int (length (numbers s oid)) + 1"
    using assms(3) True foldr_max_gapless [OF gapless] by (simp add: MaxAttemptNumber_def numbers_def)
  moreover have "numbers s' oid = numbers s oid @ [a_Number a]"
    using True by (simp add: numbers_def assms(2))
  ultimately show ?thesis using gapless_snoc [OF gapless] by metis
next
  case False
  then have "numbers s' oid = numbers s oid" by (simp add: numbers_def assms(2))
  then show ?thesis using assms(1) unfolding lineage_ok_def by metis
qed

lemma store_ok_create:
  assumes ok: "store_ok s" and cr: "CreateAttemptWithFence s aid fid d = Inr (a, s')"
  shows "store_ok s'"
proof -
  let ?f = "issued_fence fid (ad_FenceSubject d) aid (ad_At d)"
  obtain g where g: "admission_authorization s d = Inr g" "a = admitted_attempt s aid d g"
    and fresh: "Attempt_Validate a = None" "a_RequestKey a \<notin> a_RequestKey ` set (st_Attempts s)"
      "aid \<notin> a_ID ` set (st_Attempts s)"
    and free: "OpenFenceForSubject s (ad_FenceSubject d) = None"
    and s': "s' = s\<lparr>st_Attempts := st_Attempts s @ [a], st_Fences := st_Fences s @ [?f]\<rparr>"
    by (rule create_effect [OF cr]) blast
  have lin: "lineage_ok s" using ok by (simp add: store_ok_def)
  have "numbers s' oid = [1..int (length (numbers s' oid))]" for oid
    using create_numbers [OF lin s'] g(2) by simp
  then have "lineage_ok s'"
    using lin fresh(2,3) g(2) unfolding lineage_ok_def by (simp add: s')
  moreover have "custody_ok s'"
  proof -
    have "ad_FenceSubject d \<notin> set (open_subjects s)"
      using free by (auto simp: OpenFenceForSubject_def find_None_set open_subjects_def)
    then show ?thesis using ok by (auto simp: store_ok_def custody_ok_def open_subjects_def s')
  qed
  moreover have "statuses_ok s'" using ok g(2) by (simp add: store_ok_def statuses_ok_def s')
  moreover have "authorization_ok s'"
  proof -
    have "authorized (st_Intents s) a" if "g > 0"
      using authorization_generation [OF g(1) that] current_intent_mem g(2)
      unfolding authorized_def by (metis admitted_attempt_fields(2,3,5,6))
    then show ?thesis using ok g(2) by (auto simp: store_ok_def authorization_ok_def s')
  qed
  moreover have "observations_ok s'" "wf_intents (st_Intents s')"
    using ok observations_same [of s s'] by (auto simp: store_ok_def s')
  ultimately show ?thesis by (simp add: store_ok_def)
qed

section \<open>The other transactions\<close>

lemma store_ok_append_validated:
  assumes "store_ok s" "append_validated s (new_observation s obs aid kind payload at) = Inr (o', s')"
  shows "store_ok s'"
  using store_ok_observation [OF assms(1) append_validated_effect(1) [OF assms(2)]] .

lemma store_ok_prelaunch:
  assumes "store_ok s" "FailAttemptBeforeLaunch s obs f = Inr (o', s')"
  shows "store_ok s'"
proof -
  obtain s1 s2 k where st:
      "append_validated s (new_observation s obs (pf_AttemptID f) (pf_ObservationKind f)
         (pf_ObservationPayload f) (pf_At f)) = Inr (o', s1)"
      "update_status s1 (pf_OutcomeID f) (pf_AttemptID f) AttemptQueued AttemptFailed (pf_At f) = Inr (k, s2)"
      "release_fences s2 (pf_AttemptID f) (pf_ReleaseReason f) (pf_At f) = Inr (1, s')"
    using assms(2) by (auto simp: FailAttemptBeforeLaunch_def and_then_Inr split: if_splits)
  have "store_ok s1" using store_ok_append_validated [OF assms(1) st(1)] .
  then have "store_ok s2" using st(2) by (rule store_ok_status)
  then show ?thesis using st(3) by (rule store_ok_release)
qed

lemma store_ok_terminate:
  assumes "store_ok s" "TerminateRunningAttemptWithObservation s obs t = Inr (r, s')"
  shows "store_ok s'"
proof -
  consider "s' = s" | k s1 o' s2 where
      "update_status s (rt_OutcomeID t) (rt_AttemptID t) AttemptRunning (rt_TargetStatus t) (rt_At t) = Inr (k, s1)"
      "append_validated s1 (new_observation s1 obs (rt_AttemptID t) (rt_ObservationKind t)
         (rt_ObservationPayload t) (rt_At t)) = Inr (o', s2)"
      "s' = s2 \<or> (\<exists>m. release_fences s2 (rt_AttemptID t) (rt_ReleaseReason t) (rt_At t) = Inr (m, s'))"
    using assms(2)
    by (auto simp: TerminateRunningAttemptWithObservation_def and_then_Inr split: if_splits)
  then show ?thesis
  proof cases
    case 2
    then show ?thesis
      using assms(1) store_ok_append_validated store_ok_status store_ok_release by metis
  qed (use assms(1) in simp)
qed

lemma open_after_renew:
  "map af_Subject (filter (\<lambda>f. \<not> fr_Released f)
     (map (\<lambda>f. if af_AttemptID f = aid \<and> \<not> fr_Released f then f\<lparr>af_LastRenewedAt := at\<rparr> else f) fs)) =
   map af_Subject (filter (\<lambda>f. \<not> fr_Released f) fs)"
  by (induction fs) auto

lemma store_ok_renew:
  assumes "store_ok s" "RenewFenceForAttempt s aid at = Inr (k, s')"
  shows "store_ok s'"
  using assms(1)
proof (rule store_ok_update)
  let ?upd = "\<lambda>f. if af_AttemptID f = aid \<and> \<not> fr_Released f then f\<lparr>af_LastRenewedAt := at\<rparr> else f"
  have s': "s' = s\<lparr>st_Fences := map ?upd (st_Fences s)\<rparr>"
    using assms(2) by (auto simp: RenewFenceForAttempt_def)
  show "keeps s s'" by (auto simp: s' keeps_def list_all2_same fence_identity_def)
  have "open_subjects s' = open_subjects s"
    by (simp add: open_subjects_def s' open_after_renew)
  then show "custody_ok s'"
    using assms(1) by (auto simp: store_ok_def custody_ok_def s')
  show "statuses_ok s'" "observations_ok s'" "wf_intents (st_Intents s')"
    using assms(1) statuses_same [of s s'] observations_same [of s s'] by (auto simp: store_ok_def s')
qed

text \<open>A classification that commits: either it repeats a settled one, or it moves the status,
  freezes the receipt, records the observation and releases custody.\<close>

lemma classify_cases:
  assumes "ClassifyAttemptSucceeded s obs c = Inr (u, s')"
  obtains (settled) a r where "s' = s" "classification_checks s c = Inr (a, r)"
      "a_Status a = AttemptSucceeded" "Receipt_Frozen r"
    | (written) a r k s1 s3 k' where "classification_checks s c = Inr (a, r)"
      "a_Status a = cl_ExpectedStatus c" "a_Status a \<noteq> AttemptSucceeded"
      "update_status s (cl_OutcomeID c) (cl_AttemptID c) (cl_ExpectedStatus c) AttemptSucceeded (cl_At c) = Inr (k, s1)"
      "k \<noteq> 0"
      "insert_observation (freeze_rows s1 (cl_AttemptID c) (cl_At c))
         (new_observation (freeze_rows s1 (cl_AttemptID c) (cl_At c)) obs (cl_AttemptID c)
            (cl_ObservationKind c) (cl_ObservationPayload c) (cl_At c)) = Inr ((), s3)"
      "release_fences s3 (cl_AttemptID c) ''attempt_succeeded'' (cl_At c) = Inr (k', s')"
proof -
  obtain a r where chk: "classification_checks s c = Inr (a, r)"
    using assms by (auto simp: ClassifyAttemptSucceeded_def and_then_Inr split: if_splits)
  note body = assms [unfolded ClassifyAttemptSucceeded_def chk and_then.simps prod.case]
  show ?thesis
  proof (cases "a_Status a = AttemptSucceeded")
    case True
    then have "Receipt_Frozen r" "s' = s" using body by (auto split: if_splits)
    then show ?thesis using chk True by (intro settled)
  next
    case False
    then obtain k s1 s3 k' where w: "a_Status a = cl_ExpectedStatus c"
      "update_status s (cl_OutcomeID c) (cl_AttemptID c) (cl_ExpectedStatus c) AttemptSucceeded (cl_At c) = Inr (k, s1)"
      "k \<noteq> 0"
      "insert_observation (freeze_rows s1 (cl_AttemptID c) (cl_At c))
         (new_observation (freeze_rows s1 (cl_AttemptID c) (cl_At c)) obs (cl_AttemptID c)
            (cl_ObservationKind c) (cl_ObservationPayload c) (cl_At c)) = Inr ((), s3)"
      "release_fences s3 (cl_AttemptID c) ''attempt_succeeded'' (cl_At c) = Inr (k', s')"
      using body by (auto simp: and_then_Inr Let_def split: if_splits)
    show ?thesis by (rule written [OF chk w(1) False w(2-5)])
  qed
qed

lemma store_ok_classify:
  assumes "store_ok s" "ClassifyAttemptSucceeded s obs c = Inr (u, s')"
  shows "store_ok s'"
  using assms(2)
proof (cases rule: classify_cases)
  case (written a r k s1 s3 k')
  have "store_ok s1" using store_ok_status [OF assms(1) written(4)] .
  then have "store_ok (freeze_rows s1 (cl_AttemptID c) (cl_At c))"
    by (rule store_ok_same) simp_all
  then have "store_ok s3"
    using insert_observation_effect [OF written(6)] store_ok_observation by blast
  then show ?thesis using written(7) store_ok_release by blast
qed (use assms(1) in simp)

lemma store_ok_intents:
  assumes "store_ok s" "wf_intents rows"
    and "list_all2 same_authorization (st_Intents s) rows \<or> (\<exists>r. rows = st_Intents s @ [r])"
  shows "store_ok (s\<lparr>st_Intents := rows\<rparr>)"
  using assms(3)
proof
  assume "list_all2 same_authorization (st_Intents s) rows"
  then have "keeps s (s\<lparr>st_Intents := rows\<rparr>)" by (simp add: keeps_def)
  with assms(1) show ?thesis
    by (rule store_ok_update)
      (use assms in \<open>auto simp: store_ok_def custody_ok_def open_subjects_def statuses_ok_def
         observations_ok_def seqs_def\<close>)
next
  assume "\<exists>r. rows = st_Intents s @ [r]"
  then have "authorized rows a" if "authorized (st_Intents s) a" for a
    using that by (auto simp: authorized_def)
  then show ?thesis
    using assms(1,2) unfolding store_ok_def lineage_ok_def numbers_def custody_ok_def
      open_subjects_def statuses_ok_def authorization_ok_def observations_ok_def seqs_def
    by auto
qed

lemma store_ok_append_intent:
  assumes "store_ok s" "AppendRunIntent (st_Intents s) i = Inr (r, rows)"
  shows "store_ok (s\<lparr>st_Intents := rows\<rparr>)"
proof (rule store_ok_intents [OF assms(1)])
  show "wf_intents rows" using assms wf_append by (auto simp: store_ok_def)
  show "list_all2 same_authorization (st_Intents s) rows \<or> (\<exists>r. rows = st_Intents s @ [r])"
    using assms(2) by (cases rule: append_cases) (auto simp: list_all2_same)
qed

lemma store_ok_step: "store_step sha s s' \<Longrightarrow> store_ok s \<Longrightarrow> store_ok s'"
proof (induction rule: store_step.induct)
  case (create s aid fid d a s')
  then show ?case using store_ok_create by blast
next
  case (transition s oid aid e n at k s')
  then show ?case using store_ok_status by (simp add: TransitionAttemptStatus_def)
next
  case (bind s fresh now r r' s')
  then show ?case
    by (intro store_ok_same [OF bind(2)])
      (auto dest!: bind_session_effect(1))
next
  case (observe s obs aid kind payload at o' s')
  then show ?case using store_ok_append_validated by (simp add: AppendAttemptObservation_def)
next
  case (prelaunch s obs f o' s')
  then show ?case using store_ok_prelaunch by blast
next
  case (terminate s obs t r' s')
  then show ?case using store_ok_terminate by blast
next
  case (release s aid reason at k s')
  then show ?case using store_ok_release by (auto simp: ReleaseFenceForAttempt_def split: if_splits)
next
  case (renew s aid at k s')
  then show ?case using store_ok_renew by blast
next
  case (recover s fresh r u s')
  then show ?case
    by (intro store_ok_same [OF recover(2)])
      (auto elim!: recovery_receipt_effect)
next
  case (save s r u s')
  then show ?case
    by (intro store_ok_same [OF save(2)])
      (auto dest!: save_receipt_effect(1))
next
  case (freeze s aid at u s')
  then show ?case
    by (intro store_ok_same [OF freeze(2)])
      (auto simp: FreezeAttemptReceipt_def split: option.splits if_splits)
next
  case (classify s obs c u s')
  then show ?case using store_ok_classify by blast
next
  case (intent s i r rows)
  then show ?case using store_ok_append_intent by blast
next
  case (acknowledge s oid g at)
  then show ?case
    using ack_keeps wf_ack by (intro store_ok_intents) (auto simp: store_ok_def)
next
  case (admission_failure s oid g f b rows)
  then show ?case
    using failure_keeps wf_failure by (intro store_ok_intents) (auto simp: store_ok_def)
next
  case (elsewhere s cn pg)
  then show ?case by (rule store_ok_same) simp_all
qed

lemma reachable_ok: "reachable sha s \<Longrightarrow> store_ok s"
  by (induction rule: reachable.induct) (auto intro: store_ok_empty store_ok_step)

lemma reachable_parts:
  assumes "reachable sha s"
  shows "lineage_ok s" "custody_ok s" "statuses_ok s" "authorization_ok s" "observations_ok s"
    "wf_intents (st_Intents s)"
  using reachable_ok [OF assms] by (simp_all add: store_ok_def)

section \<open>The custody contract\<close>

datatype ('d, 'r) custody_op = Acquire 'd | Release 'r

text \<open>Custody of a subject: who holds it, how it is acquired with an admission and released for
  an attempt. The client lemma is the law recovery depends on: custody changes hands only through
  a release of the holder.\<close>

locale custody =
  fixes holder :: "'s \<Rightarrow> string \<Rightarrow> ident option"
    and acquire :: "'s \<Rightarrow> 'd \<Rightarrow> 's option"
    and release :: "'s \<Rightarrow> 'r \<Rightarrow> 's option"
    and subject :: "'d \<Rightarrow> string" and admits :: "'d \<Rightarrow> ident" and frees :: "'r \<Rightarrow> ident"
    and ok :: "'s \<Rightarrow> bool"
  assumes acquired: "ok s \<Longrightarrow> acquire s d = Some s' \<Longrightarrow>
        holder s (subject d) = None \<and>
        holder s' = (holder s)(subject d := Some (admits d))"
    and released: "ok s \<Longrightarrow> release s r = Some s' \<Longrightarrow>
        holder s' = (\<lambda>t. if holder s t = Some (frees r) then None else holder s t)"
    and ok_acquire: "ok s \<Longrightarrow> acquire s d = Some s' \<Longrightarrow> ok s'"
    and ok_release: "ok s \<Longrightarrow> release s r = Some s' \<Longrightarrow> ok s'"
begin

fun run :: "'s \<Rightarrow> ('d, 'r) custody_op list \<Rightarrow> 's option" where
  "run s [] = Some s"
| "run s (Acquire d # ops) = (case acquire s d of None \<Rightarrow> run s ops | Some s' \<Rightarrow> run s' ops)"
| "run s (Release r # ops) = (case release s r of None \<Rightarrow> run s ops | Some s' \<Rightarrow> run s' ops)"

lemma second_writer_refused: "ok s \<Longrightarrow> holder s (subject d) = Some x \<Longrightarrow> acquire s d = None"
  using acquired by (cases "acquire s d") auto

lemma custody_needs_release:
  "ok s \<Longrightarrow> holder s t = Some x \<Longrightarrow> \<forall>r. Release r \<in> set ops \<longrightarrow> frees r \<noteq> x \<Longrightarrow>
   run s ops = Some s' \<Longrightarrow> holder s' t = Some x"
proof (induction ops arbitrary: s)
  case (Cons op ops)
  show ?case
  proof (cases op)
    case (Acquire d)
    show ?thesis
    proof (cases "acquire s d")
      case (Some s1)
      then have "holder s1 t = Some x" using acquired [OF Cons.prems(1) Some] Cons.prems(2) by auto
      then show ?thesis
        using Cons.IH [OF ok_acquire [OF Cons.prems(1) Some]] Cons.prems Acquire Some by simp
    qed (use Cons Acquire in simp)
  next
    case (Release r)
    show ?thesis
    proof (cases "release s r")
      case (Some s1)
      then have "holder s1 t = Some x"
        using released [OF Cons.prems(1) Some] Cons.prems(2,3) Release by auto
      then show ?thesis
        using Cons.IH [OF ok_release [OF Cons.prems(1) Some]] Cons.prems Release Some by simp
    qed (use Cons Release in simp)
  qed
qed simp

end

definition fence_holder :: "control_store \<Rightarrow> string \<Rightarrow> ident option" where
  "fence_holder s t = map_option af_AttemptID (OpenFenceForSubject s t)"

definition store_acquire :: "control_store \<Rightarrow> ident \<times> ident \<times> attempt_admission \<Rightarrow> control_store option"
where
  "store_acquire s = (\<lambda>(aid, fid, d).
     case CreateAttemptWithFence s aid fid d of Inl _ \<Rightarrow> None | Inr (_, s') \<Rightarrow> Some s')"

definition store_release :: "control_store \<Rightarrow> ident \<times> string \<times> instant \<Rightarrow> control_store option" where
  "store_release s = (\<lambda>(aid, reason, at).
     case ReleaseFenceForAttempt s aid reason at of Inl _ \<Rightarrow> None | Inr (_, s') \<Rightarrow> Some s')"

lemma open_fence_iff:
  assumes "custody_ok s"
  shows "OpenFenceForSubject s t = Some f \<longleftrightarrow>
         f \<in> set (st_Fences s) \<and> \<not> fr_Released f \<and> af_Subject f = t"
proof
  assume "OpenFenceForSubject s t = Some f"
  then show "f \<in> set (st_Fences s) \<and> \<not> fr_Released f \<and> af_Subject f = t"
    by (auto simp: OpenFenceForSubject_def dest: find_SomeD)
next
  assume f: "f \<in> set (st_Fences s) \<and> \<not> fr_Released f \<and> af_Subject f = t"
  then obtain g where g: "OpenFenceForSubject s t = Some g"
    by (cases "OpenFenceForSubject s t") (auto simp: OpenFenceForSubject_def find_None_set)
  then have "g \<in> set (st_Fences s)" "\<not> fr_Released g" "af_Subject g = t"
    by (auto simp: OpenFenceForSubject_def dest: find_SomeD)
  then have "g = f"
    using f assms distinct_map_unique [of af_Subject "filter (\<lambda>f. \<not> fr_Released f) (st_Fences s)" g f]
    by (simp add: custody_ok_def open_subjects_def)
  then show "OpenFenceForSubject s t = Some f" using g by simp
qed

lemma fence_holder_iff:
  assumes "custody_ok s"
  shows "fence_holder s t = Some x \<longleftrightarrow>
         (\<exists>f\<in>set (st_Fences s). \<not> fr_Released f \<and> af_Subject f = t \<and> af_AttemptID f = x)"
  using open_fence_iff [OF assms] by (auto simp: fence_holder_def)

lemma option_ext: "(\<And>x. a = Some x \<longleftrightarrow> b = Some x) \<Longrightarrow> a = b"
  by (cases a; cases b) auto

lemma holder_acquired:
  assumes "custody_ok s" "custody_ok s'" "CreateAttemptWithFence s aid fid d = Inr (a, s')"
  shows "fence_holder s (ad_FenceSubject d) = None"
    and "fence_holder s' = (fence_holder s)(ad_FenceSubject d := Some aid)"
proof -
  show none: "fence_holder s (ad_FenceSubject d) = None"
    using create_effect [OF assms(3)] by (metis fence_holder_def option.simps(8))
  have fs: "st_Fences s' = st_Fences s @ [issued_fence fid (ad_FenceSubject d) aid (ad_At d)]"
    by (rule create_effect [OF assms(3)]) simp
  show "fence_holder s' = (fence_holder s)(ad_FenceSubject d := Some aid)"
  proof (rule ext, rule option_ext)
    fix t x
    have "\<forall>f\<in>set (st_Fences s). \<not> fr_Released f \<longrightarrow> af_Subject f \<noteq> ad_FenceSubject d"
      using none fence_holder_iff [OF assms(1), of "ad_FenceSubject d"] by auto
    then show "fence_holder s' t = Some x \<longleftrightarrow>
        ((fence_holder s)(ad_FenceSubject d := Some aid)) t = Some x"
      unfolding fence_holder_iff [OF assms(2)] fs using fence_holder_iff [OF assms(1), of t x]
      by (cases "t = ad_FenceSubject d") auto
  qed
qed

lemma holder_released:
  assumes "custody_ok s" "custody_ok s'" "release_fences s aid reason at = Inr (k, s')"
  shows "fence_holder s' = (\<lambda>t. if fence_holder s t = Some aid then None else fence_holder s t)"
proof (rule ext, rule option_ext)
  fix t x
  have fs: "st_Fences s' = map (\<lambda>f. if af_AttemptID f = aid \<and> \<not> fr_Released f
      then f\<lparr>af_ReleasedAt := at, af_ReleaseReason := reason, fr_Released := True\<rparr> else f) (st_Fences s)"
    using assms(3) by (auto simp: release_fences_def Let_def split: if_splits)
  have "fence_holder s' t = Some x \<longleftrightarrow> fence_holder s t = Some x \<and> x \<noteq> aid"
    unfolding fence_holder_iff [OF assms(1)] fence_holder_iff [OF assms(2)] fs by auto
  then show "fence_holder s' t = Some x \<longleftrightarrow>
      (if fence_holder s t = Some aid then None else fence_holder s t) = Some x" by auto
qed

interpretation fence_custody: custody fence_holder store_acquire store_release
  "\<lambda>(aid, fid, d). ad_FenceSubject d" "\<lambda>(aid, fid, d). aid" "\<lambda>(aid, reason, at). aid" store_ok
proof unfold_locales
  fix s :: control_store and s' and d :: "ident \<times> ident \<times> attempt_admission"
  assume ok: "store_ok s" and acq: "store_acquire s d = Some s'"
  obtain aid fid ad where d: "d = (aid, fid, ad)" by (cases d)
  obtain a where cr: "CreateAttemptWithFence s aid fid ad = Inr (a, s')"
    using acq by (auto simp: store_acquire_def d split: sum.splits)
  show "store_ok s'" using store_ok_create [OF ok cr] .
  then show "fence_holder s (case d of (aid, fid, d) \<Rightarrow> ad_FenceSubject d) = None \<and>
      fence_holder s' = (fence_holder s)((case d of (aid, fid, d) \<Rightarrow> ad_FenceSubject d) :=
        Some (case d of (aid, fid, d) \<Rightarrow> aid))"
    using holder_acquired [OF _ _ cr] ok by (simp add: d store_ok_def)
next
  fix s :: control_store and s' and r :: "ident \<times> string \<times> instant"
  assume ok: "store_ok s" and rel: "store_release s r = Some s'"
  obtain aid reason at where r: "r = (aid, reason, at)" by (cases r)
  obtain k where rf: "release_fences s aid reason at = Inr (k, s')"
    using rel by (auto simp: store_release_def r ReleaseFenceForAttempt_def split: sum.splits if_splits)
  show "store_ok s'" using store_ok_release [OF ok rf] .
  then show "fence_holder s' = (\<lambda>t. if fence_holder s t = Some (case r of (aid, reason, at) \<Rightarrow> aid)
      then None else fence_holder s t)"
    using holder_released [OF _ _ rf] ok by (simp add: r store_ok_def)
qed

section \<open>Frozen receipts\<close>

text \<open>A receipt that was frozen as review evidence is never replaced.\<close>

definition frozen_kept :: "control_store \<Rightarrow> control_store \<Rightarrow> bool" where
  "frozen_kept s s' \<longleftrightarrow> (\<forall>r. r \<in> set (st_Receipts s) \<and> Receipt_Frozen r \<longrightarrow> r \<in> set (st_Receipts s'))"

definition receipts_unique :: "control_store \<Rightarrow> bool" where
  "receipts_unique s \<longleftrightarrow> distinct (map rp_AttemptID (st_Receipts s))"

lemma frozen_refl [simp]: "st_Receipts s' = st_Receipts s \<Longrightarrow> frozen_kept s s'"
  by (simp add: frozen_kept_def)

lemma receipts_save:
  assumes "SaveAttemptReceipt sha s r = Inr (u, s')" "receipts_unique s"
  shows "frozen_kept s s'" "receipts_unique s'"
proof -
  have s': "st_Receipts s' = filter (\<lambda>q. rp_AttemptID q \<noteq> rp_AttemptID r) (st_Receipts s) @
      [r\<lparr>rp_FrozenAt := None\<rparr>]"
    and old: "\<And>e. GetAttemptReceipt s (rp_AttemptID r) = Some e \<Longrightarrow> \<not> Receipt_Frozen e"
    using save_receipt_effect(1) [OF assms(1)] assms(1)
    by (simp_all add: SaveAttemptReceipt_def Let_def split: option.splits if_split_asm)
  have "rp_AttemptID q \<noteq> rp_AttemptID r" if q: "q \<in> set (st_Receipts s)" "Receipt_Frozen q" for q
  proof
    assume same: "rp_AttemptID q = rp_AttemptID r"
    then obtain e where e: "GetAttemptReceipt s (rp_AttemptID r) = Some e"
      using q(1) by (cases "GetAttemptReceipt s (rp_AttemptID r)")
        (auto simp: GetAttemptReceipt_def find_None_set)
    then have "e \<in> set (st_Receipts s)" "rp_AttemptID e = rp_AttemptID r"
      by (auto simp: GetAttemptReceipt_def dest: find_SomeD)
    then have "e = q"
      using assms(2) q(1) same distinct_map_unique unfolding receipts_unique_def by metis
    then show False using old [OF e] q(2) by simp
  qed
  then show "frozen_kept s s'" by (simp add: frozen_kept_def s')
  show "receipts_unique s'"
    using assms(2) by (auto simp: receipts_unique_def s' distinct_map_filter)
qed

lemma receipts_freeze: "frozen_kept s (freeze_rows s aid at)" "receipts_unique (freeze_rows s aid at) = receipts_unique s"
proof -
  have "map rp_AttemptID (st_Receipts (freeze_rows s aid at)) = map rp_AttemptID (st_Receipts s)"
    by (auto simp: freeze_rows_def)
  then show "receipts_unique (freeze_rows s aid at) = receipts_unique s"
    by (simp add: receipts_unique_def)
  show "frozen_kept s (freeze_rows s aid at)"
    by (force simp: frozen_kept_def freeze_rows_def Receipt_Frozen_def)
qed

text \<open>The transactions that touch no receipt.\<close>

lemma update_status_receipts: "update_status s oid aid e n at = Inr (k, s') \<Longrightarrow> st_Receipts s' = st_Receipts s"
  by (rule update_status_effect(6))

lemma append_validated_receipts: "append_validated s o1 = Inr (o2, s') \<Longrightarrow> st_Receipts s' = st_Receipts s"
  by (drule append_validated_effect(1)) simp

lemma classify_receipts:
  assumes "ClassifyAttemptSucceeded s obs c = Inr (u, s')"
  shows "st_Receipts s' = st_Receipts s \<or> (\<exists>aid at. st_Receipts s' = st_Receipts (freeze_rows s aid at))"
  using assms
proof (cases rule: classify_cases)
  case (written a r k s1 s3 k')
  have "st_Receipts s3 = st_Receipts (freeze_rows s1 (cl_AttemptID c) (cl_At c))"
    using insert_observation_effect [OF written(6)] by simp
  also have "\<dots> = st_Receipts (freeze_rows s (cl_AttemptID c) (cl_At c))"
    using update_status_effect(6) [OF written(4)] by (simp add: freeze_rows_def)
  finally show ?thesis using release_fences_effect(6) [OF written(7)] by auto
qed simp

lemma receipts_step:
  assumes "store_step sha s s'" "receipts_unique s"
  shows "frozen_kept s s' \<and> receipts_unique s'"
proof -
  have same: ?thesis if "st_Receipts s' = st_Receipts s"
    using that assms(2) by (simp add: receipts_unique_def)
  show ?thesis
    using assms(1)
  proof (cases rule: store_step.cases)
    case (create aid fid d a)
    then show ?thesis using create_effect [OF create] same by (metis control_store.select_convs(7)
          control_store.update_convs(1,4) control_store.surjective)
  next
    case (save r u)
    then show ?thesis using receipts_save assms(2) by blast
  next
    case (freeze aid at u)
    then have "s' = freeze_rows s aid at"
      by (auto simp: FreezeAttemptReceipt_def split: option.splits if_splits)
    then show ?thesis using receipts_freeze assms(2) by simp
  next
    case (classify obs c u)
    from classify_receipts [OF classify] show ?thesis
    proof
      assume "\<exists>aid at. st_Receipts s' = st_Receipts (freeze_rows s aid at)"
      then obtain aid at where r: "st_Receipts s' = st_Receipts (freeze_rows s aid at)" by blast
      have "frozen_kept s s' = frozen_kept s (freeze_rows s aid at)"
        "receipts_unique s' = receipts_unique (freeze_rows s aid at)"
        by (simp_all only: frozen_kept_def receipts_unique_def r)
      then show ?thesis using receipts_freeze assms(2) by simp
    qed (rule same)
  next
    case (transition oid aid e n at k)
    then show ?thesis using same update_status_receipts by (simp add: TransitionAttemptStatus_def)
  next
    case (observe obs aid kind payload at o')
    then show ?thesis using same append_validated_receipts by (simp add: AppendAttemptObservation_def)
  next
    case (prelaunch obs f o')
    then show ?thesis
      by (intro same) (auto simp: FailAttemptBeforeLaunch_def and_then_Inr split: if_splits
          dest!: append_validated_receipts update_status_receipts release_fences_effect(6))
  next
    case (terminate obs t r')
    then show ?thesis
      by (intro same) (auto simp: TerminateRunningAttemptWithObservation_def and_then_Inr split: if_splits
          dest!: append_validated_receipts update_status_receipts release_fences_effect(6))
  next
    case (release aid reason at k)
    then show ?thesis
      by (intro same) (auto simp: ReleaseFenceForAttempt_def split: if_splits dest!: release_fences_effect(6))
  next
    case (bind fresh now r r')
    then show ?thesis
      by (intro same) (auto dest!: bind_session_effect(1))
  next
    case (recover fresh r u)
    then show ?thesis
      by (intro same) (auto elim!: recovery_receipt_effect)
  next
    case (renew aid at k)
    then show ?thesis by (intro same) (auto simp: RenewFenceForAttempt_def)
  qed (rule same, simp)+
qed

end
