(* ===== verification/Store_Steps.thy ===== *)
theory Store_Steps imports Store_Reachable begin

text \<open>
  What one committed transaction may do to an attempt's status and to custody, and from it what
  any number of them may do: every status moves along the legal transitions, and custody of a
  subject is never handed from one attempt to another in one step. The sample store at the end is
  the one the witnesses evaluate.
\<close>

section \<open>Statuses\<close>

definition moved :: "control_store \<Rightarrow> control_store \<Rightarrow> bool" where
  "moved s s' \<longleftrightarrow> (\<forall>a\<in>set (st_Attempts s). \<exists>a'\<in>set (st_Attempts s').
     lineage a' = lineage a \<and> AttemptTransitionLegal (a_Status a) (a_Status a'))"

lemma transition_refl [simp]: "AttemptTransitionLegal s s"
  by (simp add: AttemptTransitionLegal_def)

lemma moved_same: "st_Attempts s' = st_Attempts s \<Longrightarrow> moved s s'"
  by (auto simp: moved_def)

lemma moved_status:
  assumes "update_status s oid aid e n at = Inr (k, s1)" "st_Attempts s' = st_Attempts s1"
  shows "moved s s'"
  unfolding moved_def
proof
  fix a assume a: "a \<in> set (st_Attempts s)"
  let ?hit = "\<lambda>a. a_ID a = aid \<and> a_OutcomeID a = oid \<and> a_Status a = e"
  have s1: "st_Attempts s' = map (\<lambda>a. if ?hit a then a\<lparr>a_Status := n, a_UpdatedAt := at\<rparr> else a) (st_Attempts s)"
    and legal: "?hit a \<Longrightarrow> AttemptTransitionLegal e n"
    using assms a by (auto simp: update_status_def Let_def list_ex_iff split: if_splits)
  let ?a' = "if ?hit a then a\<lparr>a_Status := n, a_UpdatedAt := at\<rparr> else a"
  have "?a' \<in> set (st_Attempts s')" using a s1 by auto
  moreover have "lineage ?a' = lineage a \<and> AttemptTransitionLegal (a_Status a) (a_Status ?a')"
    using legal by (auto simp: lineage_def)
  ultimately show "\<exists>a'\<in>set (st_Attempts s'). lineage a' = lineage a \<and>
      AttemptTransitionLegal (a_Status a) (a_Status a')" by blast
qed

text \<open>The attempts after the two-part terminations.\<close>

lemma prelaunch_parts:
  assumes "FailAttemptBeforeLaunch s obs f = Inr (o', s')"
  obtains s1 s2 where
    "append_validated s (new_observation s obs (pf_AttemptID f) (pf_ObservationKind f)
       (pf_ObservationPayload f) (pf_At f)) = Inr (o', s1)"
    "update_status s1 (pf_OutcomeID f) (pf_AttemptID f) AttemptQueued AttemptFailed (pf_At f) = Inr (1, s2)"
    "release_fences s2 (pf_AttemptID f) (pf_ReleaseReason f) (pf_At f) = Inr (1, s')"
  using assms by (auto simp: FailAttemptBeforeLaunch_def and_then_Inr split: if_splits)

lemma terminate_parts:
  assumes "TerminateRunningAttemptWithObservation s obs t = Inr (r, s')"
  obtains (left) "s' = s" "r = None"
    | (ended) k s1 o' s2 where
      "update_status s (rt_OutcomeID t) (rt_AttemptID t) AttemptRunning (rt_TargetStatus t) (rt_At t) = Inr (k, s1)"
      "append_validated s1 (new_observation s1 obs (rt_AttemptID t) (rt_ObservationKind t)
         (rt_ObservationPayload t) (rt_At t)) = Inr (o', s2)"
      "s' = s2 \<or> (\<exists>m. release_fences s2 (rt_AttemptID t) (rt_ReleaseReason t) (rt_At t) = Inr (m, s'))" "k \<noteq> 0"
  using assms
  by (auto simp: TerminateRunningAttemptWithObservation_def and_then_Inr split: if_splits)

lemma moved_step: "store_step sha s s' \<Longrightarrow> moved s s'"
proof (induction rule: store_step.induct)
  case (create s aid fid d a s')
  then show ?case by (rule create_effect) (auto simp: moved_def)
next
  case (transition s oid aid e n at k s')
  then show ?case using moved_status by (simp add: TransitionAttemptStatus_def)
next
  case (observe s obs aid kind payload at o' s')
  then show ?case
    using append_validated_effect(1) by (intro moved_same) (fastforce simp: AppendAttemptObservation_def)
next
  case (prelaunch s obs f o' s')
  then obtain s1 s2 where p:
      "append_validated s (new_observation s obs (pf_AttemptID f) (pf_ObservationKind f)
         (pf_ObservationPayload f) (pf_At f)) = Inr (o', s1)"
      "update_status s1 (pf_OutcomeID f) (pf_AttemptID f) AttemptQueued AttemptFailed (pf_At f) = Inr (1, s2)"
      "release_fences s2 (pf_AttemptID f) (pf_ReleaseReason f) (pf_At f) = Inr (1, s')"
    by (rule prelaunch_parts)
  have "st_Attempts s1 = st_Attempts s" using append_validated_effect(1) [OF p(1)] by simp
  moreover have "moved s1 s'" using moved_status [OF p(2)] release_fences_effect(3) [OF p(3)] by simp
  ultimately show ?case by (simp add: moved_def)
next
  case (terminate s obs t r' s')
  then show ?case
  proof (cases rule: terminate_parts)
    case (ended k s1 o' s2)
    have "st_Attempts s2 = st_Attempts s1" using append_validated_effect(1) [OF ended(2)] by simp
    then have "st_Attempts s' = st_Attempts s1" using ended(3) release_fences_effect(3) by auto
    then show ?thesis using moved_status [OF ended(1)] by simp
  qed (simp add: moved_same)
next
  case (classify s obs c u s')
  then show ?case
  proof (cases rule: classify_cases)
    case (written a r k s1 s3 k')
    have "st_Attempts s3 = st_Attempts s1" using insert_observation_effect [OF written(6)] by simp
    then have "st_Attempts s' = st_Attempts s1" using release_fences_effect(3) [OF written(7)] by simp
    then show ?thesis using moved_status [OF written(4)] by simp
  qed (simp add: moved_same)
next
  case (bind s fresh now r r' s')
  then show ?case
    by (intro moved_same) (auto dest!: bind_session_effect(1))
next
  case (release s aid reason at k s')
  then show ?case
    using release_fences_effect(3) by (intro moved_same) (auto simp: ReleaseFenceForAttempt_def split: if_splits)
next
  case (renew s aid at k s')
  then show ?case by (intro moved_same) (auto simp: RenewFenceForAttempt_def)
next
  case (recover s fresh r u s')
  then show ?case
    by (intro moved_same) (auto elim!: recovery_receipt_effect)
next
  case (save s r u s')
  then show ?case
    by (intro moved_same) (auto dest!: save_receipt_effect(1))
next
  case (freeze s aid at u s')
  then show ?case
    by (intro moved_same) (auto simp: FreezeAttemptReceipt_def freeze_rows_def split: option.splits if_splits)
qed (simp_all add: moved_same)

lemma get_attempt_iff:
  assumes "lineage_ok s"
  shows "GetAttempt s oid aid = Some a \<longleftrightarrow>
         a \<in> set (st_Attempts s) \<and> a_ID a = aid \<and> a_OutcomeID a = oid"
proof
  assume "a \<in> set (st_Attempts s) \<and> a_ID a = aid \<and> a_OutcomeID a = oid"
  moreover from this obtain b where b: "GetAttempt s oid aid = Some b"
    by (cases "GetAttempt s oid aid") (auto simp: GetAttempt_def find_None_set)
  then have "b \<in> set (st_Attempts s)" "a_ID b = aid" by (auto simp: GetAttempt_def dest: find_SomeD)
  ultimately show "GetAttempt s oid aid = Some a"
    using assms b distinct_map_unique unfolding lineage_ok_def by metis
qed (auto simp: GetAttempt_def dest: find_SomeD)

text \<open>An attempt survives every step with its lineage, its status moved legally.\<close>

lemma attempt_step_legal:
  assumes "store_ok s" "store_step sha s s'" "GetAttempt s oid aid = Some a"
  obtains a' where "GetAttempt s' oid aid = Some a'" "lineage a' = lineage a"
    "AttemptTransitionLegal (a_Status a) (a_Status a')"
proof -
  have ok: "lineage_ok s" "lineage_ok s'"
    using assms(1) store_ok_step [OF assms(2)] by (simp_all add: store_ok_def)
  obtain a' where a': "a' \<in> set (st_Attempts s')" "lineage a' = lineage a"
      "AttemptTransitionLegal (a_Status a) (a_Status a')"
    using moved_step [OF assms(2)] assms(3) get_attempt_iff [OF ok(1)] by (auto simp: moved_def)
  moreover have "GetAttempt s' oid aid = Some a'"
    using a' assms(3) get_attempt_iff [OF ok(1)] get_attempt_iff [OF ok(2)] lineage_fields by metis
  ultimately show ?thesis using that by blast
qed

section \<open>Custody\<close>

lemma holder_cong: "st_Fences s' = st_Fences s \<Longrightarrow> fence_holder s' = fence_holder s"
  by (simp add: fun_eq_iff fence_holder_def OpenFenceForSubject_def)

text \<open>Custody either stays or ends; it never changes hands in one step.\<close>

definition custody_moves :: "control_store \<Rightarrow> control_store \<Rightarrow> bool" where
  "custody_moves s s' \<longleftrightarrow> (\<forall>t x. fence_holder s t = Some x \<longrightarrow> fence_holder s' t \<in> {Some x, None})"

lemma custody_moves_same: "st_Fences s' = st_Fences s \<Longrightarrow> custody_moves s s'"
  by (drule holder_cong) (simp add: custody_moves_def)

lemma custody_moves_release:
  assumes "custody_ok s" "st_Fences s1 = st_Fences s" "release_fences s1 aid reason at = Inr (k, s')"
  shows "custody_moves s s'"
proof -
  have c1: "custody_ok s1" using assms(1,2) by (rule custody_same)
  then have "custody_ok s'" using release_fences_effect(2) [OF assms(3)] by blast
  then have "fence_holder s' = (\<lambda>t. if fence_holder s1 t = Some aid then None else fence_holder s1 t)"
    using c1 assms(3) by (intro holder_released)
  then show ?thesis using holder_cong [OF assms(2)] by (simp add: custody_moves_def)
qed

lemma renewed_holder:
  assumes "custody_ok s" "custody_ok s'" "RenewFenceForAttempt s aid at = Inr (k, s')"
  shows "fence_holder s' = fence_holder s"
proof (rule ext, rule option_ext)
  fix t x
  have "st_Fences s' = map (\<lambda>f. if af_AttemptID f = aid \<and> \<not> fr_Released f
      then f\<lparr>af_LastRenewedAt := at\<rparr> else f) (st_Fences s)"
    using assms(3) by (auto simp: RenewFenceForAttempt_def)
  then show "fence_holder s' t = Some x \<longleftrightarrow> fence_holder s t = Some x"
    unfolding fence_holder_iff [OF assms(1)] fence_holder_iff [OF assms(2)]
    by (simp only: set_map bex_simps) (auto split: if_splits)
qed

lemma custody_step:
  assumes "store_step sha s s'" "store_ok s"
  shows "custody_moves s s'"
proof -
  have ok: "custody_ok s" "custody_ok s'"
    using assms(2) store_ok_step [OF assms] by (simp_all add: store_ok_def)
  show ?thesis
    using assms(1)
  proof (cases rule: store_step.cases)
    case (create aid fid d a)
    then show ?thesis using holder_acquired [OF ok create] by (auto simp: custody_moves_def)
  next
    case (release aid reason at k)
    then show ?thesis
      using custody_moves_release [OF ok(1) refl] by (auto simp: ReleaseFenceForAttempt_def split: if_splits)
  next
    case (renew aid at k)
    then show ?thesis using renewed_holder [OF ok renew] by (simp add: custody_moves_def)
  next
    case (prelaunch obs f o')
    then obtain s1 s2 where p:
        "append_validated s (new_observation s obs (pf_AttemptID f) (pf_ObservationKind f)
           (pf_ObservationPayload f) (pf_At f)) = Inr (o', s1)"
        "update_status s1 (pf_OutcomeID f) (pf_AttemptID f) AttemptQueued AttemptFailed (pf_At f) = Inr (1, s2)"
        "release_fences s2 (pf_AttemptID f) (pf_ReleaseReason f) (pf_At f) = Inr (1, s')"
      by (rule prelaunch_parts)
    have "st_Fences s2 = st_Fences s"
      using append_validated_effect(1) [OF p(1)] update_status_effect(2) [OF p(2)] by simp
    then show ?thesis using custody_moves_release [OF ok(1)] p(3) by blast
  next
    case (terminate obs t r')
    from terminate show ?thesis
    proof (cases rule: terminate_parts)
      case (ended k s1 o' s2)
      have "st_Fences s2 = st_Fences s"
        using append_validated_effect(1) [OF ended(2)] update_status_effect(2) [OF ended(1)] by simp
      then show ?thesis using custody_moves_release [OF ok(1)] custody_moves_same ended(3) by blast
    qed (simp add: custody_moves_same)
  next
    case (classify obs c u)
    from classify show ?thesis
    proof (cases rule: classify_cases)
      case (written a r k s1 s3 k')
      have "st_Fences s3 = st_Fences s"
        using insert_observation_effect [OF written(6)] update_status_effect(2) [OF written(4)] by simp
      then show ?thesis using custody_moves_release [OF ok(1)] written(7) by blast
    qed (simp add: custody_moves_same)
  next
    case (transition oid aid e n at k)
    then show ?thesis
      using update_status_effect(2) by (intro custody_moves_same) (auto simp: TransitionAttemptStatus_def)
  next
    case (observe obs aid kind payload at o')
    then show ?thesis
      using append_validated_effect(1)
      by (intro custody_moves_same) (fastforce simp: AppendAttemptObservation_def)
  next
    case (bind fresh now r r')
    then show ?thesis
      by (intro custody_moves_same) (auto dest!: bind_session_effect(1))
  next
    case (recover fresh r u)
    then show ?thesis
      by (intro custody_moves_same) (auto elim!: recovery_receipt_effect)
  next
    case (save r u)
    then show ?thesis
      by (intro custody_moves_same) (auto dest!: save_receipt_effect(1))
  next
    case (freeze aid at u)
    then show ?thesis
      by (intro custody_moves_same) (auto simp: FreezeAttemptReceipt_def split: option.splits if_splits)
  qed (simp_all add: custody_moves_same)
qed

end
