(* ===== verification/Store_Properties.thy ===== *)
theory Store_Properties imports Store_Steps begin

text \<open>
  The properties of the control store, over every store its transactions can reach, and the
  sample store at which each of them is instantiated.
\<close>

section \<open>A sample store\<close>

definition after_write :: "'r transaction \<Rightarrow> control_store" where
  "after_write t = (case t of Inr (_, s) \<Rightarrow> s | Inl _ \<Rightarrow> empty_store)"

lemma written: "\<not> isl t \<Longrightarrow> t = Inr (fst (projr t), after_write t)"
  by (cases t) (auto simp: after_write_def)

definition sample_intent :: run_intent where
  "sample_intent = \<lparr>ri_ID = ''i1'', ri_OutcomeID = ''o1'', ri_Generation = 0, ri_Desired = RunRunning,
     ri_Command = CmdStart, ri_ExpectedGeneration = 0, ri_ExpectedGenerationSet = True,
     ri_RequestFingerprint = ''fp'', ri_PlanRevisionID = ''p1'', ri_ContractRevisionNumber = 1,
     ri_RequestKey = ''k1'', ri_RequestedAt = 5, ri_AcknowledgedAt = None, ri_AdmissionFailure = None\<rparr>"

definition sample_admission :: attempt_admission where
  "sample_admission = \<lparr>ad_OutcomeID = ''o1'', ad_PlanRevisionID = ''p1'', ad_WorkUnitID = ''u1'',
     ad_ContractRevisionNumber = 1, ad_RunIntentGeneration = 1, ad_RequestKey = ''k2'',
     ad_FenceSubject = ''project:x'', ad_At = 6\<rparr>"

definition sample_hash :: "string \<Rightarrow> string" where "sample_hash _ = ''v1''"

definition sample_receipt :: attempt_receipt where
  "sample_receipt = \<lparr>rp_AttemptID = ''a1'', rp_OutcomeID = ''o1'', rp_PlanRevisionID = ''p1'',
     rp_WorkUnitID = ''u1'', rp_ContractRevisionNumber = 1, rp_ArtifactVersion = ''v1'',
     rp_WorkspaceKind = WorkspaceGitWorktree, rp_WorkspacePath = ''/w'', rp_BaseRevision = ''b'',
     rp_ResultRevision = ''r'', rp_RetentionState = RetentionRetained, rp_RetentionDetail = [],
     rp_ObservedAt = 9, rp_FrozenAt = None, rp_Files = []\<rparr>"

definition sample_classify :: classify_input where
  "sample_classify = \<lparr>cl_OutcomeID = ''o1'', cl_AttemptID = ''a1'',
     cl_ExpectedStatus = AttemptReconciled, cl_ArtifactVersion = ''v1'', cl_ContractRevisionNumber = 1,
     cl_ProofGeneration = Some 0, cl_ObservationKind = ''attempt_classified'',
     cl_ObservationPayload = ''{}'', cl_At = 11\<rparr>"

definition sample_failure :: prelaunch_failure where
  "sample_failure = \<lparr>pf_OutcomeID = ''o1'', pf_AttemptID = ''a1'', pf_ObservationKind = ''admission_failed'',
     pf_ObservationPayload = [], pf_ReleaseReason = ''spawn failed'', pf_At = 8\<rparr>"

text \<open>An authorized run, one admitted attempt, its session ended and reconciled, its receipt
  saved, and the attempt classified.\<close>

definition sample_intended :: control_store where
  "sample_intended = empty_store\<lparr>st_Intents := (case AppendRunIntent [] sample_intent of
     Inr (_, rows) \<Rightarrow> rows | Inl _ \<Rightarrow> []), st_ContractNumber := (\<lambda>_. 1)\<rparr>"

definition sample_admitted :: control_store where
  "sample_admitted = after_write (CreateAttemptWithFence sample_intended ''a1'' ''f1'' sample_admission)"

definition sample_running :: control_store where
  "sample_running = after_write (TransitionAttemptStatus sample_admitted ''o1'' ''a1'' AttemptQueued AttemptRunning 7)"

definition sample_reconciled :: control_store where
  "sample_reconciled = after_write (TransitionAttemptStatus sample_running ''o1'' ''a1'' AttemptRunning AttemptReconciled 8)"

definition sample_retained :: control_store where
  "sample_retained = after_write (SaveAttemptReceipt sample_hash sample_reconciled sample_receipt)"

definition sample_classified :: control_store where
  "sample_classified = after_write (ClassifyAttemptSucceeded sample_retained ''ob1'' sample_classify)"

lemma sample_append: "\<not> isl (AppendRunIntent [] sample_intent)" by code_simp

lemma step_written:
  "\<not> isl (CreateAttemptWithFence s aid fid d) \<Longrightarrow>
     store_step sha s (after_write (CreateAttemptWithFence s aid fid d))"
  "\<not> isl (TransitionAttemptStatus s oid aid e n at) \<Longrightarrow>
     store_step sha s (after_write (TransitionAttemptStatus s oid aid e n at))"
  "\<not> isl (SaveAttemptReceipt sha s r) \<Longrightarrow>
     store_step sha s (after_write (SaveAttemptReceipt sha s r))"
  "\<not> isl (ClassifyAttemptSucceeded s obs c) \<Longrightarrow>
     store_step sha s (after_write (ClassifyAttemptSucceeded s obs c))"
  using written store_step.create store_step.transition store_step.save store_step.classify by metis+

lemma sample_intended_reachable: "reachable sample_hash sample_intended"
proof -
  obtain r rows where r: "AppendRunIntent [] sample_intent = Inr (r, rows)"
    using sample_append by (cases "AppendRunIntent [] sample_intent") auto
  have "reachable sample_hash (empty_store\<lparr>st_Intents := rows\<rparr>)"
    by (rule committed [OF initial], rule store_step.intent [of _ sample_intent r])
      (simp add: r empty_store_def)
  then have "reachable sample_hash (empty_store\<lparr>st_Intents := rows\<rparr>\<lparr>st_ContractNumber := (\<lambda>_. 1),
      st_ProofGeneration := (\<lambda>_. 0)\<rparr>)"
    by (rule committed) (rule store_step.elsewhere)
  then show ?thesis by (simp add: sample_intended_def r empty_store_def)
qed

lemma sample_steps:
  "store_step sample_hash sample_intended sample_admitted"
  "store_step sample_hash sample_admitted sample_running"
  "store_step sample_hash sample_running sample_reconciled"
  "store_step sample_hash sample_reconciled sample_retained"
  "store_step sample_hash sample_retained sample_classified"
  unfolding sample_admitted_def sample_running_def sample_reconciled_def sample_retained_def sample_classified_def
  by (rule step_written; code_simp)+

lemma sample_reachable:
  "reachable sample_hash sample_admitted" "reachable sample_hash sample_running"
  "reachable sample_hash sample_reconciled" "reachable sample_hash sample_retained"
  "reachable sample_hash sample_classified"
  using sample_intended_reachable sample_steps committed by metis+


definition sample_attempt :: attempt where
  "sample_attempt = fst (projr (CreateAttemptWithFence sample_intended ''a1'' ''f1'' sample_admission))"

lemma sample_create:
  "CreateAttemptWithFence sample_intended ''a1'' ''f1'' sample_admission = Inr (sample_attempt, sample_admitted)"
  unfolding sample_attempt_def sample_admitted_def by (rule written) code_simp

lemma sample_classification:
  "ClassifyAttemptSucceeded sample_retained ''ob1'' sample_classify = Inr ((), sample_classified)"
proof -
  have "\<not> isl (ClassifyAttemptSucceeded sample_retained ''ob1'' sample_classify)" by code_simp
  from written [OF this] show ?thesis by (simp add: sample_classified_def)
qed

lemma sample_prelaunch:
  "FailAttemptBeforeLaunch sample_admitted ''ob1'' sample_failure =
     Inr (fst (projr (FailAttemptBeforeLaunch sample_admitted ''ob1'' sample_failure)),
          after_write (FailAttemptBeforeLaunch sample_admitted ''ob1'' sample_failure))"
  by (rule written) code_simp

lemma receipt_found:
  assumes "receipts_unique s"
  shows "GetAttemptReceipt s aid = Some r \<longleftrightarrow> r \<in> set (st_Receipts s) \<and> rp_AttemptID r = aid"
proof
  assume r: "r \<in> set (st_Receipts s) \<and> rp_AttemptID r = aid"
  then obtain q where q: "GetAttemptReceipt s aid = Some q"
    by (cases "GetAttemptReceipt s aid") (auto simp: GetAttemptReceipt_def find_None_set)
  then have "q \<in> set (st_Receipts s)" "rp_AttemptID q = aid"
    by (auto simp: GetAttemptReceipt_def dest: find_SomeD)
  then show "GetAttemptReceipt s aid = Some r"
    using assms q r distinct_map_unique unfolding receipts_unique_def by metis
qed (auto simp: GetAttemptReceipt_def dest: find_SomeD)

lemma reachable_receipts_unique: "reachable sha s \<Longrightarrow> receipts_unique s"
proof (induction rule: reachable.induct)
  case initial
  show ?case by (simp add: receipts_unique_def empty_store_def)
qed (use receipts_step in blast)

lemma store_ok_steps: "(store_step sha)\<^sup>*\<^sup>* s t \<Longrightarrow> store_ok s \<Longrightarrow> store_ok t"
  by (induction rule: rtranclp_induct) (auto intro: store_ok_step)

lemma updated_attempt:
  assumes "lineage_ok s" "update_status s oid aid e n at = Inr (k, s1)" "k \<noteq> 0"
  shows "\<exists>a. GetAttempt s oid aid = Some a \<and> a_Status a = e \<and>
    GetAttempt s1 oid aid = Some (a\<lparr>a_Status := n, a_UpdatedAt := at\<rparr>)"
proof -
  let ?hit = "\<lambda>a. a_ID a = aid \<and> a_OutcomeID a = oid \<and> a_Status a = e"
  have s1: "st_Attempts s1 = map (\<lambda>a. if ?hit a then a\<lparr>a_Status := n, a_UpdatedAt := at\<rparr> else a) (st_Attempts s)"
    and "filter ?hit (st_Attempts s) \<noteq> []"
    using assms(2,3) by (auto simp: update_status_def Let_def split: if_splits)
  then obtain a where a: "a \<in> set (st_Attempts s)" "?hit a" by (auto simp: filter_empty_conv)
  moreover have ok1: "lineage_ok s1"
    using lineage_kept [OF update_status_effect(1) [OF assms(2)] assms(1)] .
  moreover have "a\<lparr>a_Status := n, a_UpdatedAt := at\<rparr> \<in> set (st_Attempts s1)"
    unfolding s1 using a by force
  ultimately show ?thesis
    using get_attempt_iff [OF assms(1), of oid aid a]
      get_attempt_iff [OF ok1, of oid aid "a\<lparr>a_Status := n, a_UpdatedAt := at\<rparr>"] by auto
qed

lemma get_attempt_cong: "st_Attempts s' = st_Attempts s \<Longrightarrow> GetAttempt s' oid aid = GetAttempt s oid aid"
  by (simp add: GetAttempt_def)

lemma released_holder:
  assumes "custody_ok s" "release_fences s aid reason at = Inr (k, s')"
  shows "fence_holder s' t \<noteq> Some aid"
  using holder_released [OF assms(1) release_fences_effect(2) [OF assms(2,1)] assms(2)] by auto

lemma frozen_by_freeze:
  assumes "GetAttemptReceipt s aid = Some r"
  shows "Receipt_Frozen (the (GetAttemptReceipt (freeze_rows s aid at) aid))"
proof -
  have "Receipt_Frozen (the (find (\<lambda>r. rp_AttemptID r = aid) (map (\<lambda>r.
      if rp_AttemptID r = aid \<and> rp_FrozenAt r = None then r\<lparr>rp_FrozenAt := Some at\<rparr> else r) rs)))"
    if "find (\<lambda>r. rp_AttemptID r = aid) rs = Some r" for rs
    using that by (induction rs) (auto simp: Receipt_Frozen_def split: if_splits)
  then show ?thesis using assms by (simp add: GetAttemptReceipt_def freeze_rows_def)
qed

section \<open>Properties\<close>

text \<open>C9: In every reachable store at most one fence is open per subject, so no two attempts can
  hold custody of one workspace at the same time.\<close>

theorem custody_exclusive:
  assumes "reachable sha s" "f \<in> set (st_Fences s)" "g \<in> set (st_Fences s)"
    and "\<not> fr_Released f" "\<not> fr_Released g" "af_Subject f = af_Subject g"
  shows "f = g"
proof -
  have "distinct (map af_Subject (filter (\<lambda>f. \<not> fr_Released f) (st_Fences s)))"
    using reachable_parts(2) [OF assms(1)] by (simp add: custody_ok_def open_subjects_def)
  then show ?thesis by (rule distinct_map_unique) (use assms in simp_all)
qed

lemma custody_exclusive_witness: "hd (st_Fences sample_admitted) = last (st_Fences sample_admitted)"
  by (rule custody_exclusive [OF sample_reachable(1)]; code_simp)

text \<open>No committed transaction hands custody of a subject from one attempt to another: after
  it the subject is held by the same attempt or by nobody.\<close>

theorem custody_never_handed_over:
  assumes "reachable sha s" "store_step sha s s'" "fence_holder s t = Some x"
  shows "fence_holder s' t = Some x \<or> fence_holder s' t = None"
  using custody_step [OF assms(2) reachable_ok [OF assms(1)]] assms(3)
  by (auto simp: custody_moves_def)

lemma custody_never_handed_over_witness:
  "fence_holder sample_running ''project:x'' = Some ''a1'' \<or> fence_holder sample_running ''project:x'' = None"
  by (rule custody_never_handed_over [OF sample_reachable(1) sample_steps(2)]) code_simp

text \<open>Whatever admissions and releases are attempted, in any order and with any of them
  refused, an attempt keeps custody of its subject as long as no release names it.\<close>

theorem custody_ends_by_release:
  assumes "reachable sha s" "fence_holder s t = Some x"
    and "\<forall>aid reason at. Release (aid, reason, at) \<in> set ops \<longrightarrow> aid \<noteq> x"
    and "fence_custody.run s ops = Some s'"
  shows "fence_holder s' t = Some x"
  by (rule fence_custody.custody_needs_release [OF reachable_ok [OF assms(1)] assms(2) _ assms(4)])
    (use assms(3) in auto)
lemma sample_refused: "store_acquire sample_admitted (''a2'', ''f2'', sample_admission) = None"
proof -
  have "isl (CreateAttemptWithFence sample_admitted ''a2'' ''f2'' sample_admission)" by code_simp
  then show ?thesis by (auto simp: store_acquire_def split: sum.splits)
qed

lemma custody_ends_by_release_witness: "fence_holder sample_admitted ''project:x'' = Some ''a1''"
proof (rule custody_ends_by_release [OF sample_reachable(1),
      where ops = "[Acquire (''a2'', ''f2'', sample_admission)]"])
  show "fence_holder sample_admitted ''project:x'' = Some ''a1''" by code_simp
  show "fence_custody.run sample_admitted [Acquire (''a2'', ''f2'', sample_admission)] = Some sample_admitted"
    by (simp add: sample_refused)
qed simp

text \<open>Attempts of one Outcome are numbered 1, 2, 3, ... without gaps, no two attempts share an
  id or a request key, and every attempt was issued exactly one fence.\<close>

theorem attempt_rows_exact:
  assumes "reachable sha s"
  shows "map a_Number (filter (\<lambda>a. a_OutcomeID a = oid) (st_Attempts s)) =
           [1..int (length (filter (\<lambda>a. a_OutcomeID a = oid) (st_Attempts s)))] \<and>
         distinct (map a_ID (st_Attempts s)) \<and> distinct (map a_RequestKey (st_Attempts s)) \<and>
         map af_AttemptID (st_Fences s) = map a_ID (st_Attempts s)"
proof -
  have ok: "lineage_ok s" using assms by (rule reachable_parts(1))
  then have "numbers s oid = [1..int (length (numbers s oid))]" by (simp add: lineage_ok_def)
  then show ?thesis using ok by (simp add: numbers_def lineage_ok_def)
qed

lemma attempt_rows_exact_witness:
  "map af_AttemptID (st_Fences sample_admitted) = map a_ID (st_Attempts sample_admitted)"
  using attempt_rows_exact [OF sample_reachable(1)] by blast

text \<open>C10: Every attempt bound to a run generation was authorized by the owner: a running intent of
  that generation exists for its Outcome and names the attempt's plan and contract revision.\<close>

theorem attempts_authorized:
  assumes "reachable sha s" "a \<in> set (st_Attempts s)" "a_RunIntentGeneration a > 0"
  shows "\<exists>i\<in>set (st_Intents s). ri_OutcomeID i = a_OutcomeID a \<and>
           ri_Generation i = a_RunIntentGeneration a \<and> ri_Desired i = RunRunning \<and>
           ri_PlanRevisionID i = a_PlanRevisionID a \<and>
           ri_ContractRevisionNumber i = a_ContractRevisionNumber a"
  using reachable_parts(4) [OF assms(1)] assms(2,3)
  by (simp add: authorization_ok_def authorized_def)

lemma attempts_authorized_witness:
  "\<exists>i\<in>set (st_Intents sample_admitted). ri_OutcomeID i = a_OutcomeID (hd (st_Attempts sample_admitted)) \<and>
     ri_Generation i = a_RunIntentGeneration (hd (st_Attempts sample_admitted)) \<and> ri_Desired i = RunRunning \<and>
     ri_PlanRevisionID i = a_PlanRevisionID (hd (st_Attempts sample_admitted)) \<and>
     ri_ContractRevisionNumber i = a_ContractRevisionNumber (hd (st_Attempts sample_admitted))"
  by (rule attempts_authorized [OF sample_reachable(1)]; code_simp)

text \<open>An admission that succeeds while the Outcome has a run intent finds that intent neither
  paused nor cancelled, and under a running intent the attempt is bound to exactly that
  authorization: its generation, its plan and its contract revision.\<close>

theorem admission_follows_intent:
  assumes "reachable sha s" "CreateAttemptWithFence s aid fid d = Inr (a, s')"
    and "CurrentRunIntent (st_Intents s) (a_OutcomeID a) = Some i"
  shows "ri_Desired i = RunIdle \<and> a_RunIntentGeneration a \<le> 0 \<or>
         ri_Desired i = RunRunning \<and> a_RunIntentGeneration a = ri_Generation i \<and>
         a_PlanRevisionID a = ri_PlanRevisionID i \<and>
         a_ContractRevisionNumber a = ri_ContractRevisionNumber i"
proof -
  obtain g where g: "admission_authorization s d = Inr g" "a = admitted_attempt s aid d g"
    using assms(2) by (rule create_effect)
  have "i \<in> set (st_Intents s)" using current_intent_mem assms(3) by blast
  then have "OutcomeRunIntent_Validate i = None"
    using reachable_parts(6) [OF assms(1)] by (simp add: wf_intents_def)
  then have "ri_Generation i > 0" "RunIntentDesired_Valid (ri_Desired i)"
    by (simp_all add: OutcomeRunIntent_Validate_def guards)
  then show ?thesis
    using g assms(3)
    by (auto simp: admission_authorization_def Let_def RunIntentDesired_Valid_def split: if_splits)
qed

lemma admission_follows_intent_witness:
  "ri_Desired (hd (st_Intents sample_intended)) = RunIdle \<and>
     a_RunIntentGeneration sample_attempt \<le> 0 \<or>
   ri_Desired (hd (st_Intents sample_intended)) = RunRunning \<and>
     a_RunIntentGeneration sample_attempt = ri_Generation (hd (st_Intents sample_intended)) \<and>
     a_PlanRevisionID sample_attempt = ri_PlanRevisionID (hd (st_Intents sample_intended)) \<and>
     a_ContractRevisionNumber sample_attempt =
       ri_ContractRevisionNumber (hd (st_Intents sample_intended))"
  by (rule admission_follows_intent [OF sample_intended_reachable sample_create]) code_simp

text \<open>C12: Over any number of committed transactions an attempt keeps its id, number, plan, work unit,
  contract revision, authorization and request key, its status moves along the legal transitions
  only, and an ended attempt changes at most from reconciled to succeeded.\<close>

theorem attempt_history_legal:
  assumes "reachable sha s" "(store_step sha)\<^sup>*\<^sup>* s s'" "GetAttempt s oid aid = Some a"
  shows "\<exists>a'. GetAttempt s' oid aid = Some a' \<and> lineage a' = lineage a \<and>
           attempt_step\<^sup>*\<^sup>* (a_Status a) (a_Status a') \<and>
           (AttemptStatus_Terminal (a_Status a) \<longrightarrow> a_Status a' = a_Status a \<or>
              a_Status a = AttemptReconciled \<and> a_Status a' = AttemptSucceeded)"
  using assms(2)
proof (induction rule: rtranclp_induct)
  case (step t u)
  from step.IH obtain b where b: "GetAttempt t oid aid = Some b" "lineage b = lineage a"
      "attempt_step\<^sup>*\<^sup>* (a_Status a) (a_Status b)"
      "AttemptStatus_Terminal (a_Status a) \<longrightarrow> a_Status b = a_Status a \<or>
         a_Status a = AttemptReconciled \<and> a_Status b = AttemptSucceeded" by blast
  have "store_ok t"
    using step.hyps(1) reachable_ok [OF assms(1)] by (rule store_ok_steps)
  then obtain c where c: "GetAttempt u oid aid = Some c" "lineage c = lineage b"
      "AttemptTransitionLegal (a_Status b) (a_Status c)"
    using step.hyps(2) b(1) by (rule attempt_step_legal)
  have "attempt_step\<^sup>*\<^sup>* (a_Status b) (a_Status c)"
    using c(3) attempt_step.step by (auto simp: AttemptTransitionLegal_def)
  moreover have "AttemptStatus_Terminal (a_Status a) \<longrightarrow> a_Status c = a_Status a \<or>
      a_Status a = AttemptReconciled \<and> a_Status c = AttemptSucceeded"
    using b(4) c(3) terminal_frozen [of "a_Status b" "a_Status c"]
    by (auto simp: AttemptStatus_Terminal_def)
  ultimately show ?case using b c by (metis rtranclp_trans)
qed (use assms(3) in auto)

lemma attempt_history_legal_witness:
  "\<exists>a'. GetAttempt sample_classified ''o1'' ''a1'' = Some a' \<and>
     lineage a' = lineage (hd (st_Attempts sample_retained)) \<and>
     attempt_step\<^sup>*\<^sup>* (a_Status (hd (st_Attempts sample_retained))) (a_Status a') \<and>
     (AttemptStatus_Terminal (a_Status (hd (st_Attempts sample_retained))) \<longrightarrow>
        a_Status a' = a_Status (hd (st_Attempts sample_retained)) \<or>
        a_Status (hd (st_Attempts sample_retained)) = AttemptReconciled \<and> a_Status a' = AttemptSucceeded)"
  by (rule attempt_history_legal [OF sample_reachable(4) r_into_rtranclp [of "store_step sample_hash",
        OF sample_steps(5)]]) code_simp

text \<open>C13: A receipt frozen as review evidence stays, unchanged, the one receipt of its attempt,
  whatever transactions commit afterwards.\<close>

theorem frozen_receipt_permanent:
  assumes "reachable sha s" "(store_step sha)\<^sup>*\<^sup>* s s'" "GetAttemptReceipt s aid = Some r" "Receipt_Frozen r"
  shows "GetAttemptReceipt s' aid = Some r"
proof -
  have get: "GetAttemptReceipt t aid = Some r \<longleftrightarrow> r \<in> set (st_Receipts t) \<and> rp_AttemptID r = aid"
    if "receipts_unique t" for t
    using receipt_found [OF that] .
  have unique: "receipts_unique s" using assms(1) by (rule reachable_receipts_unique)
  have "receipts_unique s' \<and> r \<in> set (st_Receipts s')"
    using assms(2)
  proof (induction rule: rtranclp_induct)
    case (step t u)
    then show ?case using receipts_step assms(4) unfolding frozen_kept_def by metis
  qed (use unique assms(3) get in auto)
  then show ?thesis using get assms(3) unique by blast
qed

lemma frozen_receipt_permanent_witness:
  "GetAttemptReceipt sample_classified ''a1'' = Some (hd (st_Receipts sample_classified))"
  by (rule frozen_receipt_permanent [OF sample_reachable(5) rtranclp.rtrancl_refl]; code_simp)

text \<open>C11: Classification is one atomic write. When it commits, the receipt of the attempt was
  fully retained and names the judged artifact version, the Outcome's current contract revision and
  proof generation are the judged ones, the attempt was reconciled, and afterwards it is succeeded,
  its receipt is frozen and it holds no custody; a repetition on a succeeded attempt changes nothing.\<close>

theorem classification_atomic:
  assumes "reachable sha s" "ClassifyAttemptSucceeded s obs c = Inr (u, s')"
  shows "\<exists>a r. GetAttempt s (cl_OutcomeID c) (cl_AttemptID c) = Some a \<and>
           GetAttemptReceipt s (cl_AttemptID c) = Some r \<and>
           rp_RetentionState r = RetentionRetained \<and> rp_ArtifactVersion r = cl_ArtifactVersion c \<and>
           st_ContractNumber s (cl_OutcomeID c) = cl_ContractRevisionNumber c \<and>
           cl_ProofGeneration c = Some (st_ProofGeneration s (cl_OutcomeID c)) \<and>
           (a_Status a = AttemptSucceeded \<and> s' = s \<or>
            a_Status a = AttemptReconciled \<and>
            GetAttempt s' (cl_OutcomeID c) (cl_AttemptID c) =
              Some (a\<lparr>a_Status := AttemptSucceeded, a_UpdatedAt := cl_At c\<rparr>) \<and>
            Receipt_Frozen (the (GetAttemptReceipt s' (cl_AttemptID c))) \<and>
            (\<forall>t. fence_holder s' t \<noteq> Some (cl_AttemptID c)))"
proof -
  have ok: "lineage_ok s" "custody_ok s" using assms(1) reachable_parts by blast+
  obtain a r where chk: "classification_checks s c = Inr (a, r)"
    using assms(2) by (cases rule: classify_cases) blast+
  then have facts: "GetAttempt s (cl_OutcomeID c) (cl_AttemptID c) = Some a"
      "GetAttemptReceipt s (cl_AttemptID c) = Some r" "rp_RetentionState r = RetentionRetained"
      "rp_ArtifactVersion r = cl_ArtifactVersion c"
      "st_ContractNumber s (cl_OutcomeID c) = cl_ContractRevisionNumber c"
      "cl_ProofGeneration c = Some (st_ProofGeneration s (cl_OutcomeID c))"
    by (auto simp: classification_checks_def split: option.splits if_splits)
  from assms(2) show ?thesis
  proof (cases rule: classify_cases)
    case (settled a' r')
    then show ?thesis using facts chk by auto
  next
    case (written a' r' k s1 s3 k')
    obtain b where b: "GetAttempt s (cl_OutcomeID c) (cl_AttemptID c) = Some b"
        "a_Status b = cl_ExpectedStatus c"
        "GetAttempt s1 (cl_OutcomeID c) (cl_AttemptID c) =
           Some (b\<lparr>a_Status := AttemptSucceeded, a_UpdatedAt := cl_At c\<rparr>)"
      using updated_attempt [OF ok(1) written(4,5)] by blast
    have ab: "b = a" "a' = a" using b(1) facts(1) written(1) chk by auto
    have s3: "st_Attempts s3 = st_Attempts s1" "st_Fences s3 = st_Fences s1"
      "st_Receipts s3 = st_Receipts (freeze_rows s1 (cl_AttemptID c) (cl_At c))"
      using insert_observation_effect [OF written(6)] by simp_all
    have "AttemptTransitionLegal (a_Status a) AttemptSucceeded"
    proof -
      have "list_ex (\<lambda>a. a_ID a = cl_AttemptID c \<and> a_OutcomeID a = cl_OutcomeID c \<and>
          a_Status a = cl_ExpectedStatus c) (st_Attempts s)"
        using b(1,2) get_attempt_iff [OF ok(1)] by (auto simp: list_ex_iff)
      then show ?thesis
        using written(2,4) ab by (auto simp: update_status_def Let_def split: if_splits)
    qed
    then have "a_Status a = AttemptReconciled"
      using succeeded_only_from_reconciled written(3) ab by blast
    moreover have "GetAttempt s' (cl_OutcomeID c) (cl_AttemptID c) =
        Some (a\<lparr>a_Status := AttemptSucceeded, a_UpdatedAt := cl_At c\<rparr>)"
      using b(3) ab get_attempt_cong s3(1) release_fences_effect(3) [OF written(7)] by metis
    moreover have "custody_ok s3"
      using ok(2) s3(2) update_status_effect(2) [OF written(4)] custody_same by metis
    then have "\<forall>t. fence_holder s' t \<noteq> Some (cl_AttemptID c)" using released_holder written(7) by blast
    moreover have "Receipt_Frozen (the (GetAttemptReceipt s' (cl_AttemptID c)))"
    proof -
      have "st_Receipts s' = st_Receipts (freeze_rows s (cl_AttemptID c) (cl_At c))"
        using release_fences_effect(6) [OF written(7)] s3(3) update_status_effect(6) [OF written(4)]
        by (simp add: freeze_rows_def)
      then show ?thesis using frozen_by_freeze [OF facts(2)] by (simp add: GetAttemptReceipt_def)
    qed
    ultimately show ?thesis using facts by blast
  qed
qed

lemma classification_atomic_witness:
  "\<exists>a r. GetAttempt sample_retained ''o1'' ''a1'' = Some a \<and>
     GetAttemptReceipt sample_retained ''a1'' = Some r \<and>
     rp_RetentionState r = RetentionRetained \<and> rp_ArtifactVersion r = ''v1'' \<and>
     st_ContractNumber sample_retained ''o1'' = 1 \<and> Some 0 = Some (st_ProofGeneration sample_retained ''o1'') \<and>
     (a_Status a = AttemptSucceeded \<and> sample_classified = sample_retained \<or>
      a_Status a = AttemptReconciled \<and>
      GetAttempt sample_classified ''o1'' ''a1'' = Some (a\<lparr>a_Status := AttemptSucceeded, a_UpdatedAt := 11\<rparr>) \<and>
      Receipt_Frozen (the (GetAttemptReceipt sample_classified ''a1'')) \<and>
      (\<forall>t. fence_holder sample_classified t \<noteq> Some ''a1''))"
  using classification_atomic [OF sample_reachable(4) sample_classification]
  by (simp add: sample_classify_def)

text \<open>A failure before launch settles the attempt completely: it was queued, it is failed,
  it holds no custody any more, and the observation that says why is the last of its history.\<close>

theorem prelaunch_failure_settles:
  assumes "reachable sha s" "FailAttemptBeforeLaunch s obs f = Inr (ob, s')"
  shows "\<exists>a. GetAttempt s (pf_OutcomeID f) (pf_AttemptID f) = Some a \<and> a_Status a = AttemptQueued \<and>
           GetAttempt s' (pf_OutcomeID f) (pf_AttemptID f) =
             Some (a\<lparr>a_Status := AttemptFailed, a_UpdatedAt := pf_At f\<rparr>) \<and>
           (\<forall>t. fence_holder s' t \<noteq> Some (pf_AttemptID f)) \<and>
           st_Observations s' = st_Observations s @ [ob] \<and> ob_Kind ob = pf_ObservationKind f \<and>
           ob_Seq ob = MaxAttemptObservationSeq s (pf_AttemptID f) + 1"
proof -
  obtain s1 s2 where p:
      "append_validated s (new_observation s obs (pf_AttemptID f) (pf_ObservationKind f)
         (pf_ObservationPayload f) (pf_At f)) = Inr (ob, s1)"
      "update_status s1 (pf_OutcomeID f) (pf_AttemptID f) AttemptQueued AttemptFailed (pf_At f) = Inr (1, s2)"
      "release_fences s2 (pf_AttemptID f) (pf_ReleaseReason f) (pf_At f) = Inr (1, s')"
    using assms(2) by (rule prelaunch_parts)
  have ob: "ob = new_observation s obs (pf_AttemptID f) (pf_ObservationKind f) (pf_ObservationPayload f) (pf_At f)"
    using append_validated_effect(2) [OF p(1)] .
  have s1: "s1 = s\<lparr>st_Observations := st_Observations s @ [ob]\<rparr>"
    using append_validated_effect(1) [OF p(1)] ob by simp
  have "lineage_ok s1" "custody_ok s1"
    using s1 reachable_parts(1,2) [OF assms(1)]
    by (simp_all add: lineage_ok_def numbers_def custody_ok_def open_subjects_def)
  moreover have "custody_ok s2"
    using \<open>custody_ok s1\<close> update_status_effect(2) [OF p(2)] custody_same by blast
  moreover obtain a where "GetAttempt s1 (pf_OutcomeID f) (pf_AttemptID f) = Some a" "a_Status a = AttemptQueued"
      "GetAttempt s2 (pf_OutcomeID f) (pf_AttemptID f) = Some (a\<lparr>a_Status := AttemptFailed, a_UpdatedAt := pf_At f\<rparr>)"
    using updated_attempt [OF \<open>lineage_ok s1\<close> p(2)] by auto
  moreover have "GetAttempt s1 = GetAttempt s" by (simp add: fun_eq_iff s1 GetAttempt_def)
  moreover have "GetAttempt s' oid aid = GetAttempt s2 oid aid" for oid aid
    using get_attempt_cong release_fences_effect(3) [OF p(3)] by blast
  moreover have "st_Observations s' = st_Observations s @ [ob]"
    using release_fences_effect(4) [OF p(3)] update_status_effect(3) [OF p(2)] s1 by simp
  ultimately show ?thesis
    using released_holder p(3) ob by (simp add: new_observation_def)
qed

lemma prelaunch_failure_settles_witness:
  "\<exists>a. GetAttempt sample_admitted ''o1'' ''a1'' = Some a \<and> a_Status a = AttemptQueued"
  using prelaunch_failure_settles [OF sample_reachable(1) sample_prelaunch]
  by (auto simp: sample_failure_def)

text \<open>The run intents of an Outcome are numbered 1, 2, 3, ... without gaps, and no two intents
  share a request key.\<close>

theorem run_generations_gapless:
  assumes "reachable sha s"
  shows "map ri_Generation (filter (\<lambda>i. ri_OutcomeID i = oid) (st_Intents s)) =
           [1..int (length (filter (\<lambda>i. ri_OutcomeID i = oid) (st_Intents s)))] \<and>
         distinct (map ri_RequestKey (st_Intents s))"
proof -
  have ok: "wf_intents (st_Intents s)" using assms by (rule reachable_parts(6))
  then have "generations (st_Intents s) oid = [1..int (length (generations (st_Intents s) oid))]"
    by (simp add: wf_intents_def)
  then show ?thesis using ok by (simp add: generations_def wf_intents_def)
qed

lemma run_generations_gapless_witness: "distinct (map ri_RequestKey (st_Intents sample_classified))"
  using run_generations_gapless [OF sample_reachable(5)] by blast

text \<open>Delivering a run command's append again, after it committed, returns the same generation
  and changes nothing; the same key with another fingerprint is refused with the existing intent.\<close>

theorem run_intent_replay:
  assumes "AppendRunIntent rows i = Inr (r, rows')"
  shows "(\<exists>r'. AppendRunIntent rows' i = Inr (r', rows') \<and> ri_Generation r' = ri_Generation r) \<and>
         (\<forall>j::run_intent. ri_RequestKey j = ri_RequestKey i \<and> ri_RequestFingerprint j \<noteq> ri_RequestFingerprint i \<longrightarrow>
            (\<exists>e. AppendRunIntent rows' j = Inl (RunIntentReplayConflict e)))"
proof (intro conjI allI impI)
  show "\<exists>r'. AppendRunIntent rows' i = Inr (r', rows') \<and> ri_Generation r' = ri_Generation r"
    using run_log.retry_is_silent [OF assms] by blast
  fix j :: run_intent
  assume "ri_RequestKey j = ri_RequestKey i \<and> ri_RequestFingerprint j \<noteq> ri_RequestFingerprint i"
  then show "\<exists>e. AppendRunIntent rows' j = Inl (RunIntentReplayConflict e)"
    using append_find [OF assms] by (auto simp: AppendRunIntent_def)
qed

lemma run_intent_replay_witness:
  "\<exists>r'. AppendRunIntent (snd (projr (AppendRunIntent [] sample_intent))) sample_intent =
     Inr (r', snd (projr (AppendRunIntent [] sample_intent)))"
proof -
  have "AppendRunIntent [] sample_intent =
      Inr (fst (projr (AppendRunIntent [] sample_intent)), snd (projr (AppendRunIntent [] sample_intent)))"
    using sample_append by (cases "AppendRunIntent [] sample_intent") auto
  from run_intent_replay [OF this] show ?thesis by blast
qed
end
