(* ===== verification/Topology.thy ===== *)
theory Topology
  imports Go_Prelude "HOL-Library.Multiset"
begin

text \<open>
  The serial order of dependent work. Both \<^verbatim>\<open>PlanRevision.TopologicalWorkUnits\<close>
  (outcome_plan.go) and \<^verbatim>\<open>PlanDraftProposal.TopologicalOrder\<close> (plan_draft.go) run the same
  loop: Kahn's algorithm with a ready list that is sorted again after every append. The loop is
  modelled once over a list of keys with their dependencies. Its fuel is one more than the number
  of keys, and \<^verbatim>\<open>kahn_terminates\<close> shows that it never runs out on a graph whose keys and
  dependencies passed the checks that precede the loop.
\<close>

type_synonym graph = "(ident \<times> ident list) list"

definition keys :: "graph \<Rightarrow> ident set" where
  "keys g = fst ` set g"

definition deps_of :: "graph \<Rightarrow> ident \<Rightarrow> ident list" where
  "deps_of g k = (case map_of g k of Some ds \<Rightarrow> ds | None \<Rightarrow> [])"

definition indegree :: "graph \<Rightarrow> ident \<Rightarrow> int" where
  "indegree g k = int (length (deps_of g k))"

definition dependents :: "graph \<Rightarrow> ident \<Rightarrow> ident list" where
  "dependents g d = concat (map (\<lambda>(k, ds). map (\<lambda>_. k) (filter (\<lambda>x. x = d) ds)) g)"

fun relax :: "ident list \<Rightarrow> (ident \<Rightarrow> int) \<times> ident list \<Rightarrow> (ident \<Rightarrow> int) \<times> ident list" where
  "relax [] s = s"
| "relax (d # ds) (deg, ready) =
     (let deg' = deg(d := deg d - 1)
      in relax ds (deg', if deg' d = 0 then sort (ready @ [d]) else ready))"

fun kahn_loop ::
  "nat \<Rightarrow> graph \<Rightarrow> (ident \<Rightarrow> int) \<Rightarrow> ident list \<Rightarrow> ident list \<Rightarrow> ident list option" where
  "kahn_loop 0 g deg ready order = None"
| "kahn_loop (Suc n) g deg [] order = Some order"
| "kahn_loop (Suc n) g deg (k # ready) order =
     (let (deg', ready') = relax (sort (dependents g k)) (deg, ready)
      in kahn_loop n g deg' ready' (order @ [k]))"

definition kahn :: "graph \<Rightarrow> ident list option" where
  "kahn g = kahn_loop (Suc (length g)) g (indegree g)
     (sort (filter (\<lambda>k. indegree g k = 0) (map fst g))) []"

section \<open>Graphs that passed the checks\<close>

definition wf_graph :: "graph \<Rightarrow> bool" where
  "wf_graph g \<longleftrightarrow> distinct (map fst g) \<and>
     (\<forall>(k, ds)\<in>set g. distinct ds \<and> set ds \<subseteq> keys g \<and> k \<notin> set ds)"

definition edges :: "graph \<Rightarrow> (ident \<times> ident) set" where
  "edges g = {(d, k). k \<in> keys g \<and> d \<in> set (deps_of g k)}"

lemma finite_keys [simp]: "finite (keys g)"
  by (simp add: keys_def)

lemma card_keys: "wf_graph g \<Longrightarrow> card (keys g) = length g"
  unfolding wf_graph_def keys_def by (metis distinct_card length_map list.set_map)

lemma deps_of_mem: "wf_graph g \<Longrightarrow> (k, ds) \<in> set g \<Longrightarrow> deps_of g k = ds"
  by (simp add: deps_of_def wf_graph_def)

lemma wf_deps:
  assumes "wf_graph g" "k \<in> keys g"
  shows "distinct (deps_of g k)" "set (deps_of g k) \<subseteq> keys g" "k \<notin> set (deps_of g k)"
proof -
  obtain ds where mem: "(k, ds) \<in> set g" using assms(2) by (auto simp: keys_def)
  then show "distinct (deps_of g k)" "set (deps_of g k) \<subseteq> keys g" "k \<notin> set (deps_of g k)"
    using assms(1) deps_of_mem [OF assms(1) mem] by (auto simp: wf_graph_def)
qed

lemma set_dependents: "wf_graph g \<Longrightarrow> set (dependents g d) = {k \<in> keys g. d \<in> set (deps_of g k)}"
  by (auto simp: dependents_def keys_def deps_of_mem image_iff split: prod.splits)
    (metis deps_of_mem fst_conv)+

lemma distinct_dependents:
  assumes "wf_graph g" shows "distinct (dependents g d)"
proof -
  have "distinct (concat (map (\<lambda>(k, ds). map (\<lambda>_. k) (filter (\<lambda>x. x = d) ds)) h))"
    if "distinct (map fst h)" "\<forall>(k, ds)\<in>set h. distinct ds" for h :: graph
    using that
  proof (induction h)
    case (Cons p h)
    obtain k ds where p: "p = (k, ds)" by (cases p)
    have "filter (\<lambda>x. x = d) es = (if d \<in> set es then [d] else [])" if "distinct es" for es
      using that by (induction es) auto
    then have "distinct (map (\<lambda>_. k) (filter (\<lambda>x. x = d) ds))"
      using Cons.prems p by simp
    then show ?case
      using Cons p by (force split: prod.splits)
  qed simp
  then show ?thesis using assms by (auto simp: dependents_def wf_graph_def)
qed

section \<open>The loop\<close>

lemma relax_Cons:
  "relax (d # ds) (deg, ready) =
     relax ds (deg(d := deg d - 1), if deg d = 1 then sort (ready @ [d]) else ready)"
  by (simp add: Let_def)

lemma relax_degrees:
  "distinct ds \<Longrightarrow>
   fst (relax ds (deg, ready)) = (\<lambda>k. if k \<in> set ds then deg k - 1 else deg k)"
proof (induction ds arbitrary: deg ready)
  case (Cons d ds)
  then show ?case by (simp only: relax_Cons) (auto simp: fun_eq_iff)
qed simp

lemma relax_ready:
  "distinct ds \<Longrightarrow>
   mset (snd (relax ds (deg, ready))) = mset ready + mset (filter (\<lambda>d. deg d = 1) ds)"
proof (induction ds arbitrary: deg ready)
  case (Cons d ds)
  let ?deg = "deg(d := deg d - 1)" and ?ready = "if deg d = 1 then sort (ready @ [d]) else ready"
  have "filter (\<lambda>x. ?deg x = 1) ds = filter (\<lambda>x. deg x = 1) ds"
    using Cons.prems by (intro filter_cong) auto
  moreover have "mset (snd (relax ds (?deg, ?ready))) =
      mset ?ready + mset (filter (\<lambda>x. ?deg x = 1) ds)"
    using Cons.prems by (intro Cons.IH) simp
  ultimately have "mset (snd (relax ds (?deg, ?ready))) =
      mset ?ready + mset (filter (\<lambda>x. deg x = 1) ds)" by metis
  then show ?case unfolding relax_Cons by simp
qed simp

definition kahn_inv :: "graph \<Rightarrow> (ident \<Rightarrow> int) \<Rightarrow> ident list \<Rightarrow> ident list \<Rightarrow> bool" where
  "kahn_inv g deg ready order \<longleftrightarrow>
     distinct (order @ ready) \<and> set order \<union> set ready \<subseteq> keys g \<and>
     (\<forall>k\<in>keys g. deg k = int (card (set (deps_of g k) - set order))) \<and>
     (\<forall>k\<in>keys g. k \<in> set order \<union> set ready \<longleftrightarrow> set (deps_of g k) \<subseteq> set order) \<and>
     (\<forall>i<length order. set (deps_of g (order ! i)) \<subseteq> set (take i order))"

lemma kahn_inv_init:
  assumes "wf_graph g"
  shows "kahn_inv g (indegree g) (sort (filter (\<lambda>k. indegree g k = 0) (map fst g))) []"
  using assms
  by (auto simp: kahn_inv_def indegree_def keys_def wf_graph_def intro: distinct_card [symmetric]
      dest: wf_deps(1) [OF assms])
    (metis assms distinct_card fst_conv imageI keys_def wf_deps(1))

lemma card_remove_dep:
  assumes "finite D" "x \<notin> S"
  shows "int (card (D - insert x S)) = int (card (D - S)) - (if x \<in> D then 1 else 0)"
proof (cases "x \<in> D")
  case True
  then have "D - S = insert x (D - insert x S)" using assms by auto
  then have "card (D - S) = Suc (card (D - insert x S))"
    using assms(1) by (metis Diff_iff card_insert_disjoint finite_Diff insertI1)
  then show ?thesis using True by simp
next
  case False
  then have "D - insert x S = D - S" by auto
  then show ?thesis using False by simp
qed

lemma kahn_inv_step:
  assumes wf: "wf_graph g" and inv: "kahn_inv g deg (k # ready) order"
    and step: "relax (sort (dependents g k)) (deg, ready) = (deg', ready')"
  shows "kahn_inv g deg' ready' (order @ [k])"
proof -
  let ?next = "sort (dependents g k)"
  have dn: "distinct ?next" and sn: "set ?next = {j \<in> keys g. k \<in> set (deps_of g j)}"
    using distinct_dependents [OF wf] set_dependents [OF wf] by simp_all
  have deg': "deg' = (\<lambda>j. if j \<in> set ?next then deg j - 1 else deg j)"
    and ready': "mset ready' = mset ready + mset (filter (\<lambda>j. deg j = 1) ?next)"
    using relax_degrees [OF dn, of deg ready] relax_ready [OF dn, of deg ready] step by simp_all
  have knew: "k \<notin> set order" and kin: "k \<in> keys g" and degs:
      "\<forall>j\<in>keys g. deg j = int (card (set (deps_of g j) - set order))"
    and mem: "\<forall>j\<in>keys g. j \<in> set order \<or> j = k \<or> j \<in> set ready \<longleftrightarrow> set (deps_of g j) \<subseteq> set order"
    and pre: "\<forall>i<length order. set (deps_of g (order ! i)) \<subseteq> set (take i order)"
    using inv by (auto simp: kahn_inv_def)
  have set_ready': "set ready' = set ready \<union> {j \<in> set ?next. deg j = 1}"
    using arg_cong [OF ready', of set_mset] by simp
  have degs': "\<forall>j\<in>keys g. deg' j = int (card (set (deps_of g j) - set (order @ [k])))"
    using degs knew sn by (auto simp: deg' card_remove_dep)
  have pending: "j \<notin> set order \<and> j \<noteq> k \<and> j \<notin> set ready" if "j \<in> set ?next" for j
  proof -
    have "j \<in> keys g" "\<not> set (deps_of g j) \<subseteq> set order" using that sn knew by auto
    then show ?thesis using mem by blast
  qed
  have "\<forall>j\<in>keys g. j \<in> set (order @ [k]) \<union> set ready' \<longleftrightarrow> set (deps_of g j) \<subseteq> set (order @ [k])"
  proof
    fix j assume j: "j \<in> keys g"
    have fin: "card (set (deps_of g j) - set order) = 1 \<longleftrightarrow> set (deps_of g j) \<subseteq> insert k (set order)"
      if "k \<in> set (deps_of g j)"
    proof -
      have "int (card (set (deps_of g j) - insert k (set order))) =
            int (card (set (deps_of g j) - set order)) - 1"
        using that card_remove_dep [OF finite_set knew] by simp
      then have "card (set (deps_of g j) - set order) = 1 \<longleftrightarrow>
                 card (set (deps_of g j) - insert k (set order)) = 0" by linarith
      then show ?thesis by auto
    qed
    show "j \<in> set (order @ [k]) \<union> set ready' \<longleftrightarrow> set (deps_of g j) \<subseteq> set (order @ [k])"
    proof (cases "k \<in> set (deps_of g j)")
      case True
      then have "j \<in> set ?next" using j sn by simp
      then show ?thesis using fin [OF True] pending set_ready' degs j by auto
    next
      case False
      then have "j \<notin> set ?next" using sn by simp
      then show ?thesis using mem j False set_ready' by auto
    qed
  qed
  moreover have "distinct ((order @ [k]) @ ready')"
  proof -
    have "distinct (ready @ filter (\<lambda>j. deg j = 1) ?next)"
      using inv dn pending by (auto simp: kahn_inv_def)
    then have "distinct ready'" using ready' by (metis mset_append mset_eq_imp_distinct_iff)
    then show ?thesis using inv pending set_ready' by (auto simp: kahn_inv_def)
  qed
  moreover have "\<forall>i<length (order @ [k]). set (deps_of g ((order @ [k]) ! i)) \<subseteq> set (take i (order @ [k]))"
    using pre mem kin by (auto simp: less_Suc_eq nth_append)
  moreover have "set (order @ [k]) \<union> set ready' \<subseteq> keys g"
    using inv set_ready' sn by (auto simp: kahn_inv_def)
  ultimately show ?thesis using degs' unfolding kahn_inv_def by blast
qed

lemma kahn_loop_result:
  assumes wf: "wf_graph g"
  shows "kahn_inv g deg ready order \<Longrightarrow> n + length order = Suc (length g) \<Longrightarrow>
         \<exists>deg' final. kahn_loop n g deg ready order = Some final \<and> kahn_inv g deg' [] final"
proof (induction n arbitrary: deg ready order)
  case 0
  have "length order = card (set order)"
    using 0(1) by (simp add: kahn_inv_def distinct_card)
  also have "\<dots> \<le> card (keys g)"
    using 0(1) by (auto simp: kahn_inv_def intro: card_mono)
  finally show ?case using 0(2) card_keys [OF wf] by simp
next
  case (Suc n)
  show ?case
  proof (cases ready)
    case Nil
    then show ?thesis using Suc.prems(1) by auto
  next
    case (Cons k rest)
    obtain deg' ready' where st: "relax (sort (dependents g k)) (deg, rest) = (deg', ready')"
      by fastforce
    show ?thesis
      using Suc.IH [OF kahn_inv_step [OF wf _ st]] Suc.prems Cons st by simp
  qed
qed

lemma kahn_final:
  assumes "wf_graph g"
  obtains deg order where "kahn g = Some order" "kahn_inv g deg [] order"
  using kahn_loop_result [OF assms kahn_inv_init [OF assms]] by (auto simp: kahn_def)

lemma kahn_terminates: "wf_graph g \<Longrightarrow> \<exists>order. kahn g = Some order"
  using kahn_final by blast

section \<open>Orders and cycles\<close>

definition topological :: "graph \<Rightarrow> ident list \<Rightarrow> bool" where
  "topological g order \<longleftrightarrow> distinct order \<and> set order = keys g \<and>
     (\<forall>i<length order. set (deps_of g (order ! i)) \<subseteq> set (take i order))"

lemma topological_acyclic:
  assumes "topological g order"
  shows "acyclic (edges g)"
proof -
  define pos where "pos k = (LEAST i. i < length order \<and> order ! i = k)" for k
  have pos: "pos (order ! i) = i" if "i < length order" for i
    unfolding pos_def using that assms
    by (intro Least_equality) (auto simp: topological_def nth_eq_iff_index_eq)
  have "pos d < pos k" if "(d, k) \<in> edges g" for d k
  proof -
    have "k \<in> set order" "d \<in> set (deps_of g k)"
      using that assms by (auto simp: edges_def topological_def)
    then obtain i where i: "i < length order" "order ! i = k" by (auto simp: in_set_conv_nth)
    then have "d \<in> set (take i order)"
      using assms \<open>d \<in> set (deps_of g k)\<close> unfolding topological_def by blast
    then obtain j where "j < i" "order ! j = d" by (auto simp: in_set_conv_nth)
    then show ?thesis using pos i by (metis order.strict_trans)
  qed
  then have "edges g \<subseteq> measure pos" by auto
  then show ?thesis using wf_subset [OF wf_measure] wf_acyclic by blast
qed

lemma finite_edges: "wf_graph g \<Longrightarrow> finite (edges g)"
  by (rule finite_subset [of _ "keys g \<times> keys g"]) (auto simp: edges_def dest: wf_deps(2))

lemma kahn_inv_complete:
  assumes "wf_graph g" "kahn_inv g deg [] order" "acyclic (edges g)"
  shows "set order = keys g"
proof (rule ccontr)
  assume "set order \<noteq> keys g"
  then obtain k where "k \<in> keys g - set order" using assms(2) by (auto simp: kahn_inv_def)
  moreover have "wf (edges g)"
    using assms(1,3) finite_edges finite_acyclic_wf by blast
  ultimately obtain m where m: "m \<in> keys g - set order"
      and least: "\<And>d. (d, m) \<in> edges g \<Longrightarrow> d \<notin> keys g - set order"
    by (metis wfE_min)
  have "set (deps_of g m) \<subseteq> set order"
    using least m wf_deps(2) [OF assms(1)] by (auto simp: edges_def)
  then show False using m assms(2) by (auto simp: kahn_inv_def)
qed

text \<open>The order covers every key exactly when the dependencies have no cycle.\<close>

lemma kahn_correct:
  assumes "wf_graph g" "kahn g = Some order"
  shows "length order = length g \<longleftrightarrow> acyclic (edges g)"
    and "length order = length g \<Longrightarrow> topological g order"
proof -
  obtain deg where inv: "kahn_inv g deg [] order"
    using kahn_final [OF assms(1)] assms(2) by (metis option.inject)
  have dist: "distinct order" and sub: "set order \<subseteq> keys g"
    using inv by (auto simp: kahn_inv_def)
  have full: "length order = length g \<longleftrightarrow> set order = keys g"
    using dist sub card_keys [OF assms(1)]
    by (metis card_subset_eq distinct_card finite_keys)
  show top: "length order = length g \<Longrightarrow> topological g order"
    using inv full by (auto simp: topological_def kahn_inv_def)
  show "length order = length g \<longleftrightarrow> acyclic (edges g)"
    using top topological_acyclic full kahn_inv_complete [OF assms(1) inv] by blast
qed

text \<open>The order does not depend on how the keys are listed.\<close>

lemma map_of_mset_eq:
  assumes "mset g = mset h" "distinct (map fst g)"
  shows "map_of g = map_of h"
proof -
  have "distinct (map fst h)" using assms by (metis mset_eq_imp_distinct_iff mset_map)
  moreover have "set g = set h" using assms(1) by (rule mset_eq_setD)
  ultimately show ?thesis using assms(2) by (metis map_of_inject_set)
qed

lemma sort_dependents_mset:
  assumes "mset g = mset h"
  shows "sort (dependents g d) = sort (dependents h d)"
proof (rule properties_for_sort)
  let ?f = "\<lambda>(k, ds). map (\<lambda>_. k) (filter (\<lambda>x. x = d) ds)"
  have "mset (dependents x d) = sum_mset (image_mset (mset \<circ> ?f) (mset x))" for x
    by (simp add: dependents_def mset_concat sum_mset_sum_list flip: mset_map)
  then show "mset (sort (dependents h d)) = mset (dependents g d)"
    using assms by simp
qed simp

lemma kahn_loop_cong:
  assumes "\<And>d. sort (dependents g d) = sort (dependents h d)"
  shows "kahn_loop n g deg ready order = kahn_loop n h deg ready order"
  by (induction n arbitrary: deg ready order; case_tac ready)
    (simp_all add: assms split: prod.splits)

lemma kahn_permute:
  assumes "mset g = mset h" "distinct (map fst g)"
  shows "kahn g = kahn h"
proof -
  have "indegree g = indegree h"
    by (simp add: fun_eq_iff indegree_def deps_of_def map_of_mset_eq [OF assms])
  moreover have "mset (filter P (map fst g)) = mset (filter P (map fst h))" for P
    using assms(1) by simp
  then have "sort (filter P (map fst g)) = sort (filter P (map fst h))" for P
    by (intro properties_for_sort) simp_all
  moreover have "length g = length h" using assms(1) by (rule mset_eq_length)
  ultimately show ?thesis
    unfolding kahn_def using kahn_loop_cong [OF sort_dependents_mset [OF assms(1)]] by simp
qed

end
