(* ===== verification/Plan.thy ===== *)
theory Plan
  imports Execution Topology
begin

text \<open>
  Plans (internal/domain/outcome_plan.go), the deterministic checks they freeze (outcome_check.go)
  and the authority they grant (plan_authority.go). A plan is recommendation state until
  \<^verbatim>\<open>ValidateForApproval\<close> accepts it against the bound contract revision; the lemmas state
  what an accepted plan guarantees, and that its serial order is a topological order of its
  dependencies, found exactly when they have no cycle.
\<close>

section \<open>Approved checks\<close>

record approved_check =
  ac_ID :: ident
  ac_CriterionID :: ident
  ac_Argv :: "string list"
  ac_TimeoutSeconds :: int

definition ApprovedCheckMaxTimeoutSeconds :: int where
  "ApprovedCheckMaxTimeoutSeconds = 900"

text \<open>\<^verbatim>\<open>strings.ToLower\<close> as far as its result is ASCII: the letters A to Z, U+0130 and
  U+212A; every other rune keeps a lower case outside ASCII.\<close>

definition lower_char :: "char \<Rightarrow> char" where
  "lower_char c =
     (if 65 \<le> (of_char c :: nat) \<and> (of_char c :: nat) \<le> 90 then char_of ((of_char c :: nat) + 32) else c)"

fun to_lower :: "string \<Rightarrow> string" where
  "to_lower [] = []"
| "to_lower (c # s) =
     (if starts_with [CHR 0xC4, CHR 0xB0] (c # s) then CHR ''i'' # to_lower (drop 1 s)
      else if starts_with [CHR 0xE2, CHR 0x84, CHR 0xAA] (c # s) then CHR ''k'' # to_lower (drop 2 s)
      else lower_char c # to_lower s)"

definition shell_names :: "string list" where
  "shell_names = [''sh'', ''bash'', ''zsh'', ''fish'', ''cmd'', ''powershell'', ''pwsh'', ''env'',
     ''eval'', ''exec'']"

definition validateCheckExecutable :: "ident \<Rightarrow> string \<Rightarrow> validation" where
  "validateCheckExecutable i exe = first_error
     [refuse (CHR 0x00 \<in> set exe) (Errorf ''approved check %s executable contains NUL'' [Str i]),
      refuse (exe = [] \<or> blank exe) (Errorf ''approved check %s names no executable'' [Str i]),
      refuse (exe \<noteq> trim_space exe)
        (Errorf ''approved check %s executable %q has surrounding whitespace'' [Str i, Str exe]),
      refuse (CHR 0x2F \<in> set exe \<or> CHR 0x5C \<in> set exe)
        (Errorf ''approved check %s must name a discrete executable, not a path'' [Str i]),
      refuse (to_lower exe \<in> set shell_names)
        (Errorf ''approved check %s may not run a shell'' [Str i])]"

definition ApprovedCheck_Validate :: "approved_check \<Rightarrow> validation" where
  "ApprovedCheck_Validate c = first_error
     [refuse (blank (ac_ID c)) (Errorf ''approved check id is required'' []),
      refuse (blank (ac_CriterionID c))
        (Errorf ''approved check %s must name the criterion it proves'' [Str (ac_ID c)]),
      refuse (ac_Argv c = []) (Errorf ''approved check %s has no command'' [Str (ac_ID c)]),
      (case ac_Argv c of [] \<Rightarrow> None | exe # _ \<Rightarrow> validateCheckExecutable (ac_ID c) exe),
      each_index (\<lambda>i a. first_error
        [refuse (CHR 0x00 \<in> set a)
           (Errorf ''approved check %s argument %d contains NUL'' [Str (ac_ID c), Num (int i + 1)]),
         refuse (blank a)
           (Errorf ''approved check %s argument %d is empty or whitespace only; state the argument explicitly''
              [Str (ac_ID c), Num (int i + 1)])]) (drop 1 (ac_Argv c)),
      refuse (ac_TimeoutSeconds c \<le> 0 \<or> ac_TimeoutSeconds c > ApprovedCheckMaxTimeoutSeconds)
        (Errorf ''approved check %s timeout must be between 1 and %d seconds''
           [Str (ac_ID c), Num ApprovedCheckMaxTimeoutSeconds])]"

definition ValidateApprovedChecks :: "approved_check list \<Rightarrow> ident list \<Rightarrow> validation" where
  "ValidateApprovedChecks checks owned = each_seen ac_ID (\<lambda>i seen c. first_error
     [ApprovedCheck_Validate c,
      refuse (ac_ID c \<in> set seen) (Errorf ''approved check %s is declared twice'' [Str (ac_ID c)]),
      refuse (ac_CriterionID c \<notin> set owned)
        (Errorf ''approved check %s names criterion %s, which this WorkUnit does not own''
           [Str (ac_ID c), Str (ac_CriterionID c)])]) 0 [] checks"

lemma approved_checks_valid:
  "ValidateApprovedChecks checks owned = None \<longleftrightarrow>
     (\<forall>c\<in>set checks. ApprovedCheck_Validate c = None \<and> ac_CriterionID c \<in> set owned) \<and>
     distinct (map ac_ID checks)"
  unfolding ValidateApprovedChecks_def by (rule each_seen_fresh_elem) (auto simp: guards)

text \<open>The command an approved check can run: a bare name, no shell, every argument visible.\<close>

lemma approved_check_command:
  assumes "ApprovedCheck_Validate c = None"
  obtains exe args where "ac_Argv c = exe # args" "exe \<noteq> []" "trim_space exe = exe"
    "CHR 0x2F \<notin> set exe" "CHR 0x5C \<notin> set exe" "CHR 0x00 \<notin> set exe"
    "to_lower exe \<notin> set shell_names"
    "\<forall>a\<in>set args. CHR 0x00 \<notin> set a \<and> \<not> blank a"
    "0 < ac_TimeoutSeconds c" "ac_TimeoutSeconds c \<le> 900"
  using assms that
  by (cases "ac_Argv c")
    (auto simp: ApprovedCheck_Validate_def validateCheckExecutable_def guards all_set_conv_all_nth
      ApprovedCheckMaxTimeoutSeconds_def)

section \<open>Work units\<close>

datatype plan_status = PlanProposed | PlanApproved | PlanStatusOther string

fun PlanStatus_Valid :: "plan_status \<Rightarrow> bool" where
  "PlanStatus_Valid (PlanStatusOther _) = False"
| "PlanStatus_Valid _ = True"

datatype work_unit_kind = WorkUnitDirect | WorkUnitKindOther string

definition CapabilityWorktreeRead :: string where "CapabilityWorktreeRead = ''worktree.read''"
definition CapabilityWorktreeWrite :: string where "CapabilityWorktreeWrite = ''worktree.write''"
definition CapabilityWorktreeExec :: string where "CapabilityWorktreeExec = ''worktree.exec''"

lemmas capability_defs =
  CapabilityWorktreeRead_def CapabilityWorktreeWrite_def CapabilityWorktreeExec_def

definition MaxCanonicalPlanWorkUnits :: nat where "MaxCanonicalPlanWorkUnits = 32"

record work_unit =
  wu_ID :: ident
  wu_Kind :: work_unit_kind
  wu_Title :: string
  wu_ContractRevisionNumber :: int
  wu_Provider :: harness
  wu_ModelSelection :: model_selection
  wu_Model :: string
  wu_OutputSummary :: string
  wu_EvidenceChecks :: "string list"
  wu_VerificationRequirement :: string
  wu_StopConditions :: "string list"
  wu_DependsOn :: "ident list"
  wu_CriterionIDs :: "ident list"
  wu_RequiredCapabilities :: "string list"
  wu_Checks :: "approved_check list"

text \<open>\<^verbatim>\<open>WorkUnit.ExecutionBinding\<close>: an absent selection reads as historical-unbound.\<close>

definition WorkUnit_ExecutionBinding :: "work_unit \<Rightarrow> error + execution_binding" where
  "WorkUnit_ExecutionBinding w =
     (if blank (wu_Provider w) then Inl (Errorf ''execution binding provider is required'' [])
      else let b = \<lparr>eb_Provider = wu_Provider w,
                    eb_ModelSelection = (if wu_ModelSelection w = MsEmpty then MsHistoricalUnbound
                                         else wu_ModelSelection w),
                    eb_Model = wu_Model w\<rparr>
           in case ValidateReadable b of Some e \<Rightarrow> Inl e | None \<Rightarrow> Inr b)"

definition ExecutionBindingForNewWork :: "work_unit \<Rightarrow> error + execution_binding" where
  "ExecutionBindingForNewWork w =
     (case WorkUnit_ExecutionBinding w of Inl e \<Rightarrow> Inl e
      | Inr b \<Rightarrow> (case ValidateForNewWork b of Some e \<Rightarrow> Inl e | None \<Rightarrow> Inr b))"

definition BindExecution :: "work_unit \<Rightarrow> execution_binding \<Rightarrow> error + work_unit" where
  "BindExecution w b =
     (case ValidateForNewWork b of Some e \<Rightarrow> Inl e
      | None \<Rightarrow> Inr (w\<lparr>wu_Provider := eb_Provider b, wu_ModelSelection := eb_ModelSelection b,
                       wu_Model := eb_Model b\<rparr>))"

definition validateNonBlankStrings :: "string \<Rightarrow> string list \<Rightarrow> validation" where
  "validateNonBlankStrings kind vs = each_index (\<lambda>i v. refuse (blank v)
     (Errorf ''%s %d is blank'' [Str kind, Num (int i + 1)])) vs"

definition validateWorkUnitIDs :: "string \<Rightarrow> ident \<Rightarrow> ident list \<Rightarrow> validation" where
  "validateWorkUnitIDs kind self ids = each_seen id (\<lambda>i seen x. first_error
     [refuse (blank x) (Errorf ''work unit %s is blank'' [Str kind]),
      refuse (x = self) (Errorf ''work unit %s cannot reference itself'' [Str kind]),
      refuse (id x \<in> set seen) (Errorf ''work unit repeats %s %q'' [Str kind, Str x])]) 0 [] ids"

definition validateCriterionIDs :: "ident list \<Rightarrow> validation" where
  "validateCriterionIDs ids = each_seen id (\<lambda>i seen x. first_error
     [refuse (blank x) (Errorf ''work unit criterion id is blank'' []),
      refuse (id x \<in> set seen) (Errorf ''work unit repeats criterion %q'' [Str x])]) 0 [] ids"

definition validateUniqueCapabilityNames :: "string list \<Rightarrow> validation" where
  "validateUniqueCapabilityNames names = each_seen trim_space (\<lambda>i seen raw. first_error
     [refuse (trim_space raw = []) (Errorf ''work unit required capability is blank'' []),
      refuse (trim_space raw \<in> set seen)
        (Errorf ''work unit repeats required capability %q'' [Str (trim_space raw)])]) 0 [] names"

definition WorkUnit_Validate :: "work_unit \<Rightarrow> validation" where
  "WorkUnit_Validate w = first_error
     [refuse (blank (wu_ID w)) (Errorf ''work unit id is required'' []),
      (case wu_Kind w of WorkUnitDirect \<Rightarrow> None
       | WorkUnitKindOther k \<Rightarrow> Some (Errorf ''unsupported work unit kind %q'' [Str k])),
      refuse (blank (wu_Title w)) (Errorf ''work unit title is required'' []),
      refuse (wu_ContractRevisionNumber w < 1)
        (Errorf ''work unit contract revision number must be at least 1'' []),
      (if wu_Provider w \<noteq> [] \<or> wu_ModelSelection w \<noteq> MsEmpty \<or> \<not> blank (wu_Model w)
       then (case WorkUnit_ExecutionBinding w of Inl e \<Rightarrow> Some e | Inr _ \<Rightarrow> None)
       else None),
      refuse (blank (wu_OutputSummary w)) (Errorf ''work unit output summary is required'' []),
      refuse (wu_EvidenceChecks w = []) (Errorf ''work unit requires at least one evidence check'' []),
      validateNonBlankStrings ''evidence check'' (wu_EvidenceChecks w),
      refuse (blank (wu_VerificationRequirement w))
        (Errorf ''work unit verification requirement is required'' []),
      validateNonBlankStrings ''stop condition'' (wu_StopConditions w),
      validateWorkUnitIDs ''dependency'' (wu_ID w) (wu_DependsOn w),
      validateCriterionIDs (wu_CriterionIDs w),
      ValidateApprovedChecks (wu_Checks w) (wu_CriterionIDs w),
      validateUniqueCapabilityNames (wu_RequiredCapabilities w)]"

lemma work_unit_ids_valid [guards]:
  "validateWorkUnitIDs kind self ids = None \<longleftrightarrow>
     (\<forall>x\<in>set ids. \<not> blank x \<and> x \<noteq> self) \<and> distinct ids"
  unfolding validateWorkUnitIDs_def
  by (subst each_seen_fresh_elem [where g = "\<lambda>x. \<not> blank x \<and> x \<noteq> self"]) (auto simp: guards)

lemma criterion_ids_valid [guards]:
  "validateCriterionIDs ids = None \<longleftrightarrow> (\<forall>x\<in>set ids. \<not> blank x) \<and> distinct ids"
  unfolding validateCriterionIDs_def
  by (subst each_seen_fresh_elem [where g = "\<lambda>x. \<not> blank x"]) (auto simp: guards)

lemma capability_names_valid [guards]:
  "validateUniqueCapabilityNames names = None \<longleftrightarrow>
     (\<forall>x\<in>set names. \<not> blank x) \<and> distinct (map trim_space names)"
  unfolding validateUniqueCapabilityNames_def
  by (subst each_seen_fresh_elem [where g = "\<lambda>x. \<not> blank x"]) (auto simp: guards blank_iff)

lemma work_unit_facts:
  assumes "WorkUnit_Validate w = None"
  shows "\<not> blank (wu_ID w)" "distinct (wu_DependsOn w)" "wu_ID w \<notin> set (wu_DependsOn w)"
    "\<forall>d\<in>set (wu_DependsOn w). \<not> blank d" "distinct (wu_CriterionIDs w)"
    "distinct (map trim_space (wu_RequiredCapabilities w))"
    "\<forall>n\<in>set (wu_RequiredCapabilities w). \<not> blank n"
    "ValidateApprovedChecks (wu_Checks w) (wu_CriterionIDs w) = None"
  using assms by (auto simp: WorkUnit_Validate_def guards)

section \<open>Grants and authority\<close>

record capability_grant =
  cg_ID :: ident
  cg_Name :: string
  cg_Scope :: string

definition CapabilityGrant_Validate :: "capability_grant \<Rightarrow> validation" where
  "CapabilityGrant_Validate g = first_error
     [refuse (blank (cg_ID g)) (Errorf ''capability grant id is required'' []),
      refuse (blank (cg_Name g)) (Errorf ''capability grant name is required'' []),
      refuse (blank (cg_Scope g)) (Errorf ''capability grant scope is required'' [])]"

definition MissingCapabilitiesForWorkUnit :: "capability_grant list \<Rightarrow> work_unit \<Rightarrow> string list" where
  "MissingCapabilitiesForWorkUnit grants u =
     sort (filter (\<lambda>n. n \<notin> cg_Name ` set grants) (wu_RequiredCapabilities u))"

text \<open>\<^verbatim>\<open>AuthorityIntersection\<close>: the first layer's names, kept while every later layer
  allows them.\<close>

fun intersect_layers :: "string list \<Rightarrow> string list list \<Rightarrow> string list" where
  "intersect_layers acc [] = acc"
| "intersect_layers acc (l # ls) = intersect_layers (filter (\<lambda>n. n \<in> set l) acc) ls"

definition AuthorityIntersection :: "string list list \<Rightarrow> string list" where
  "AuthorityIntersection layers =
     (case layers of [] \<Rightarrow> [] | l # ls \<Rightarrow> sort (intersect_layers (sorted_keys l) ls))"

definition GrantsFailClosed :: "capability_grant list \<Rightarrow> string list \<Rightarrow> validation" where
  "GrantsFailClosed grants authoritative = each_elem (\<lambda>g.
     refuse (cg_Name g \<notin> set authoritative)
       (Errorf ''capability %q is not authorized by every authority layer'' [Str (cg_Name g)])) grants"

definition trimmed_nonblank :: "string list \<Rightarrow> string list" where
  "trimmed_nonblank vs = filter (\<lambda>v. v \<noteq> []) (map trim_space vs)"

definition RequiredPlanCapabilities :: "work_unit list \<Rightarrow> string list" where
  "RequiredPlanCapabilities units =
     sorted_keys (concat (map (\<lambda>u. trimmed_nonblank (wu_RequiredCapabilities u)) units))"

definition ValidateExactPlanCapabilityGrants :: "capability_grant list \<Rightarrow> work_unit list \<Rightarrow> validation"
where
  "ValidateExactPlanCapabilityGrants grants units =
     (let required = RequiredPlanCapabilities units;
          granted = trimmed_nonblank (map cg_Name grants);
          missing = filter (\<lambda>n. n \<notin> set granted) required;
          excess = filter (\<lambda>n. n \<notin> set required) (sorted_keys granted)
      in if missing \<noteq> [] \<and> excess \<noteq> []
         then Some (Errorf ''plan capability grants are not least-privilege: missing %s; unused %s''
                      (map Str missing @ map Str excess))
         else if missing \<noteq> []
         then Some (Errorf ''plan capability grants are missing required capabilities: %s''
                      (map Str missing))
         else if excess \<noteq> []
         then Some (Errorf ''plan capability grants include unused capabilities: %s'' (map Str excess))
         else None)"

lemma set_intersect_layers: "set (intersect_layers acc ls) = {n \<in> set acc. \<forall>l\<in>set ls. n \<in> set l}"
  by (induction acc ls rule: intersect_layers.induct) auto

lemma set_required_capabilities:
  "set (RequiredPlanCapabilities units) =
     {trim_space n | n u. u \<in> set units \<and> n \<in> set (wu_RequiredCapabilities u) \<and> \<not> blank n}"
  by (auto simp: RequiredPlanCapabilities_def trimmed_nonblank_def blank_iff)

end
