(* ===== verification/Plan_Revision.thy ===== *)
theory Plan_Revision
  imports Plan
begin

text \<open>
  Plan revisions (internal/domain/outcome_plan.go): validation, the serial order of the work
  units, the approval checks against a contract revision, and the run brief whose digest freezes
  what was approved. The digest itself (SHA-256 of the JSON encoding) is a parameter: the model
  keeps the structure that is hashed.
\<close>

section \<open>Plan revisions\<close>

record work_unit_routing =
  wr_WorkUnitID :: ident
  wr_Decision :: routing_decision

record plan_revision =
  pr_ID :: ident
  pr_OutcomeID :: ident
  pr_Number :: int
  pr_ContractRevisionNumber :: int
  pr_Status :: plan_status
  pr_Summary :: string
  pr_Assumptions :: "string list"
  pr_Blockers :: "string list"
  pr_WorkUnits :: "work_unit list"
  pr_Grants :: "capability_grant list"
  pr_RoutingDecisions :: "work_unit_routing list"
  pr_RunBriefCoreDigest :: string
  pr_RunBriefCompiledDigest :: string
  pr_PlanningSessionID :: ident
  pr_SourceIntelligenceRunID :: ident
  pr_CreatedAt :: instant

definition hex_char :: "char \<Rightarrow> bool" where
  "hex_char c = (let n = (of_char c :: nat) in
     48 \<le> n \<and> n \<le> 57 \<or> 97 \<le> n \<and> n \<le> 102 \<or> 65 \<le> n \<and> n \<le> 70)"

definition isSHA256Hex :: "string \<Rightarrow> bool" where
  "isSHA256Hex v = (length v = 64 \<and> list_all hex_char v)"

definition validatePlanReviewStrings :: "string \<Rightarrow> string list \<Rightarrow> validation" where
  "validatePlanReviewStrings kind vs = each_seen trim_space (\<lambda>i seen v. first_error
     [refuse (trim_space v = []) (Errorf ''plan %s %d is blank'' [Str kind, Num (int i + 1)]),
      refuse (trim_space v \<in> set seen)
        (Errorf ''plan %s %q is duplicated'' [Str kind, Str (trim_space v)])]) 0 [] vs"

section \<open>Serial order\<close>

definition unit_graph :: "work_unit list \<Rightarrow> graph" where
  "unit_graph units = map (\<lambda>u. (wu_ID u, wu_DependsOn u)) units"

definition unit_by_id :: "work_unit list \<Rightarrow> ident \<Rightarrow> work_unit option" where
  "unit_by_id units i = find (\<lambda>u. wu_ID u = i) units"

definition unit_id_checks :: "work_unit list \<Rightarrow> validation" where
  "unit_id_checks units = each_seen wu_ID (\<lambda>i seen u. first_error
     [refuse (blank (wu_ID u)) (Errorf ''plan contains blank work unit id'' []),
      refuse (wu_ID u \<in> set seen) (Errorf ''duplicate work unit id %q'' [Str (wu_ID u)])])
     0 [] units"

definition dependency_checks :: "work_unit list \<Rightarrow> work_unit \<Rightarrow> validation" where
  "dependency_checks units u = each_seen (\<lambda>d. d) (\<lambda>i seen d. first_error
     [refuse (blank d \<or> d = wu_ID u)
        (Errorf ''work unit %s has invalid dependency %s'' [Str (wu_ID u), Str d]),
      refuse (d \<notin> wu_ID ` set units)
        (Errorf ''work unit %s depends on unknown work unit %s'' [Str (wu_ID u), Str d]),
      refuse (d \<in> set seen)
        (Errorf ''work unit %s repeats dependency %s'' [Str (wu_ID u), Str d])])
     0 [] (wu_DependsOn u)"

definition topology_checks :: "work_unit list \<Rightarrow> validation" where
  "topology_checks units =
     first_error [unit_id_checks units, each_elem (dependency_checks units) units]"

definition TopologicalWorkUnits :: "work_unit list \<Rightarrow> error + work_unit list" where
  "TopologicalWorkUnits units =
     (case topology_checks units of
        Some e \<Rightarrow> Inl e
      | None \<Rightarrow>
          (case kahn (unit_graph units) of
             None \<Rightarrow> Inl (Errorf ''out of fuel'' [])
           | Some order \<Rightarrow>
               if length order \<noteq> length units
               then Inl (Errorf ''plan work unit dependencies contain a cycle'' [])
               else Inr (List.map_filter (unit_by_id units) order)))"

lemma keys_unit_graph [simp]: "keys (unit_graph units) = wu_ID ` set units"
  by (auto simp: keys_def unit_graph_def image_image)

lemma fst_unit_graph [simp]: "map fst (unit_graph units) = map wu_ID units"
  by (simp add: unit_graph_def comp_def)

lemma length_unit_graph [simp]: "length (unit_graph units) = length units"
  by (simp add: unit_graph_def)

lemma unit_id_checks_None [guards]:
  "unit_id_checks units = None \<longleftrightarrow>
     (\<forall>u\<in>set units. \<not> blank (wu_ID u)) \<and> distinct (map wu_ID units)"
  unfolding unit_id_checks_def by (rule each_seen_fresh_elem) (auto simp: guards)

lemma dependency_checks_None [guards]:
  "dependency_checks units u = None \<longleftrightarrow>
     (\<forall>d\<in>set (wu_DependsOn u). (\<not> blank d \<and> d \<noteq> wu_ID u) \<and> d \<in> wu_ID ` set units) \<and>
     distinct (map (\<lambda>d. d) (wu_DependsOn u))"
  unfolding dependency_checks_def by (rule each_seen_fresh_elem) (auto simp: guards)

lemma topology_checks_None:
  "topology_checks units = None \<longleftrightarrow>
     (\<forall>u\<in>set units. \<not> blank (wu_ID u) \<and> (\<forall>d\<in>set (wu_DependsOn u). \<not> blank d)) \<and>
     wf_graph (unit_graph units)"
  by (auto simp: topology_checks_def guards wf_graph_def)
    (auto simp: unit_graph_def)

lemma unit_by_id_mem:
  assumes "distinct (map wu_ID units)" "u \<in> set units"
  shows "unit_by_id units (wu_ID u) = Some u"
proof -
  obtain v where v: "unit_by_id units (wu_ID u) = Some v"
    using assms(2) by (cases "unit_by_id units (wu_ID u)") (auto simp: unit_by_id_def find_None_set)
  then have "v \<in> set units" "wu_ID v = wu_ID u" by (auto simp: unit_by_id_def dest: find_SomeD)
  then show ?thesis using v assms by (metis distinct_map inj_onD)
qed

lemma map_ids_of_order:
  assumes "distinct (map wu_ID units)" "set order \<subseteq> wu_ID ` set units"
  shows "map wu_ID (List.map_filter (unit_by_id units) order) = order"
    and "set (List.map_filter (unit_by_id units) order) \<subseteq> set units"
  using assms(2)
  by (induction order; use unit_by_id_mem [OF assms(1)] in \<open>force simp: List.map_filter_simps\<close>)+

text \<open>What a returned order is: the plan's units, each once, dependencies first.\<close>

lemma topological_order_sound:
  assumes "TopologicalWorkUnits units = Inr us"
  shows "wf_graph (unit_graph units)" and "acyclic (edges (unit_graph units))"
    and "topological (unit_graph units) (map wu_ID us)" and "mset us = mset units"
proof -
  obtain order where ok: "topology_checks units = None" "kahn (unit_graph units) = Some order"
      "length order = length units" "us = List.map_filter (unit_by_id units) order"
    using assms by (auto simp: TopologicalWorkUnits_def split: option.splits if_splits)
  show wf: "wf_graph (unit_graph units)" using ok(1) topology_checks_None by blast
  have top: "topological (unit_graph units) order" and "acyclic (edges (unit_graph units))"
    using kahn_correct [OF wf ok(2)] ok(3) by simp_all
  then show "acyclic (edges (unit_graph units))" by simp
  have dist: "distinct (map wu_ID units)" using wf by (simp add: wf_graph_def)
  have ids: "set order = wu_ID ` set units" using top by (simp add: topological_def)
  have us: "map wu_ID us = order" "set us \<subseteq> set units"
    using map_ids_of_order [OF dist] ids ok(4) by auto
  then show "topological (unit_graph units) (map wu_ID us)" using top by simp
  have du: "distinct (map wu_ID us)" using top us(1) by (simp add: topological_def)
  have "set us = set units"
  proof
    show "set units \<subseteq> set us"
    proof
      fix u assume u: "u \<in> set units"
      then have "wu_ID u \<in> wu_ID ` set us" using ids us(1) by (metis imageI list.set_map)
      then show "u \<in> set us" using u us(2) dist by (auto dest: distinct_map_unique)
    qed
  qed (rule us(2))
  then show "mset us = mset units"
    using du dist by (metis distinct_map set_eq_iff_mset_eq_distinct)
qed

lemma topological_order_complete:
  assumes "topology_checks units = None" "acyclic (edges (unit_graph units))"
  shows "\<exists>us. TopologicalWorkUnits units = Inr us"
proof -
  have wf: "wf_graph (unit_graph units)" using assms(1) topology_checks_None by blast
  obtain order where k: "kahn (unit_graph units) = Some order" using kahn_terminates [OF wf] by blast
  then show ?thesis
    using kahn_correct(1) [OF wf k] assms by (simp add: TopologicalWorkUnits_def)
qed

lemma topology_checks_permute:
  assumes "mset us = mset vs"
  shows "topology_checks us = None \<longleftrightarrow> topology_checks vs = None"
proof -
  have "set us = set vs" using assms by (rule mset_eq_setD)
  moreover have "distinct (map wu_ID us) \<longleftrightarrow> distinct (map wu_ID vs)"
    using assms by (metis mset_eq_imp_distinct_iff mset_map)
  ultimately show ?thesis
    by (auto simp: topology_checks_None wf_graph_def unit_graph_def keys_def comp_def)
qed

text \<open>The order in which a plan lists its units is irrelevant.\<close>

lemma topological_order_permute:
  assumes "mset us = mset vs" "TopologicalWorkUnits us = Inr order"
  shows "TopologicalWorkUnits vs = Inr order"
proof -
  have chk: "topology_checks us = None"
    using assms(2) by (auto simp: TopologicalWorkUnits_def split: option.splits)
  then have dist: "distinct (map wu_ID us)" by (simp add: topology_checks_None wf_graph_def)
  have "kahn (unit_graph us) = kahn (unit_graph vs)"
  proof (rule kahn_permute)
    show "mset (unit_graph us) = mset (unit_graph vs)"
      using assms(1) by (simp only: unit_graph_def mset_map)
  qed (use dist in simp)
  moreover have "unit_by_id us = unit_by_id vs"
  proof
    fix i
    have sets: "set us = set vs" using assms(1) by (rule mset_eq_setD)
    have dv: "distinct (map wu_ID vs)" using dist assms(1) by (metis mset_eq_imp_distinct_iff mset_map)
    show "unit_by_id us i = unit_by_id vs i"
    proof (cases "unit_by_id us i")
      case None
      then have "find (\<lambda>u. wu_ID u = i) vs = None"
        using sets by (simp add: unit_by_id_def find_None_set)
      then show ?thesis using None by (simp add: unit_by_id_def)
    next
      case (Some u)
      then have "u \<in> set vs" "wu_ID u = i" using sets by (auto simp: unit_by_id_def dest: find_SomeD)
      then show ?thesis using Some unit_by_id_mem [OF dv] by auto
    qed
  qed
  moreover have "length us = length vs" using assms(1) by (rule mset_eq_length)
  moreover have "topology_checks vs = None" using chk topology_checks_permute [OF assms(1)] by simp
  ultimately show ?thesis using assms(2) chk
    by (auto simp: TopologicalWorkUnits_def split: option.splits if_splits)
qed

section \<open>Validation\<close>

definition plan_unit_checks :: "plan_revision \<Rightarrow> validation" where
  "plan_unit_checks p = each_seen wu_ID (\<lambda>i seen u. first_error
     [(case WorkUnit_Validate u of
         Some e \<Rightarrow> Some (Wrapf ''work unit %d: %w'' [Num (int i + 1)] e) | None \<Rightarrow> None),
      refuse (wu_ContractRevisionNumber u \<noteq> pr_ContractRevisionNumber p)
        (Errorf ''work unit %s binds contract revision %d, plan binds %d''
           [Str (wu_ID u), Num (wu_ContractRevisionNumber u), Num (pr_ContractRevisionNumber p)]),
      refuse (wu_ID u \<in> set seen) (Errorf ''duplicate work unit id %q'' [Str (wu_ID u)])])
     0 [] (pr_WorkUnits p)"

definition plan_grant_checks :: "plan_revision \<Rightarrow> validation" where
  "plan_grant_checks p = each_seen cg_Name (\<lambda>i seen g. first_error
     [(case CapabilityGrant_Validate g of
         Some e \<Rightarrow> Some (Wrapf ''grant %d: %w'' [Num (int i)] e) | None \<Rightarrow> None),
      refuse (cg_Name g \<in> set seen) (Errorf ''duplicate capability grant %q'' [Str (cg_Name g)])])
     0 [] (pr_Grants p)"

definition PlanRevision_Validate :: "plan_revision \<Rightarrow> validation" where
  "PlanRevision_Validate p = first_error
     [refuse (blank (pr_ID p)) (Errorf ''plan revision id is required'' []),
      refuse (blank (pr_OutcomeID p)) (Errorf ''plan revision outcome id is required'' []),
      refuse (pr_Number p < 1) (Errorf ''plan revision number must be at least 1'' []),
      refuse (pr_ContractRevisionNumber p < 1)
        (Errorf ''plan revision must bind a contract revision of at least 1'' []),
      refuse (\<not> PlanStatus_Valid (pr_Status p)) (Errorf ''unsupported plan status %q''
        [case pr_Status p of PlanStatusOther s \<Rightarrow> Str s | _ \<Rightarrow> Str []]),
      refuse (blank (pr_Summary p)) (Errorf ''plan revision summary is required'' []),
      validatePlanReviewStrings ''assumption'' (pr_Assumptions p),
      validatePlanReviewStrings ''blocker'' (pr_Blockers p),
      refuse (pr_WorkUnits p = []) (Errorf ''plan revision requires at least one work unit'' []),
      refuse (length (pr_WorkUnits p) > MaxCanonicalPlanWorkUnits)
        (Errorf ''plan revision has %d work units; maximum is %d''
           [Num (int (length (pr_WorkUnits p))), Num (int MaxCanonicalPlanWorkUnits)]),
      plan_unit_checks p,
      each_elem (\<lambda>u. each_elem (\<lambda>d. refuse (d \<notin> wu_ID ` set (pr_WorkUnits p))
           (Errorf ''work unit %s depends on unknown work unit %s'' [Str (wu_ID u), Str d]))
         (wu_DependsOn u)) (pr_WorkUnits p),
      (case TopologicalWorkUnits (pr_WorkUnits p) of Inl e \<Rightarrow> Some e | Inr _ \<Rightarrow> None),
      plan_grant_checks p,
      refuse (\<not> isSHA256Hex (pr_RunBriefCoreDigest p))
        (Errorf ''plan revision requires a SHA-256 run brief core digest'' []),
      refuse (blank (pr_PlanningSessionID p) \<noteq> blank (pr_SourceIntelligenceRunID p))
        (Errorf ''planning Plan provenance must be complete'' [])]"

text \<open>The parts of \<^verbatim>\<open>Validate\<close> the rest of the development uses.\<close>

lemma plan_unit_checks_None [guards]:
  "plan_unit_checks p = None \<longleftrightarrow>
     (\<forall>u\<in>set (pr_WorkUnits p). WorkUnit_Validate u = None \<and>
        wu_ContractRevisionNumber u = pr_ContractRevisionNumber p) \<and>
     distinct (map wu_ID (pr_WorkUnits p))"
  unfolding plan_unit_checks_def
  by (rule each_seen_fresh_elem) (auto simp: guards split: option.splits)

lemma plan_grant_checks_None [guards]:
  "plan_grant_checks p = None \<longleftrightarrow>
     (\<forall>g\<in>set (pr_Grants p). CapabilityGrant_Validate g = None) \<and>
     distinct (map cg_Name (pr_Grants p))"
  unfolding plan_grant_checks_def
  by (rule each_seen_fresh_elem) (auto simp: guards split: option.splits)

lemma plan_valid_facts:
  assumes "PlanRevision_Validate p = None"
  shows "\<forall>u\<in>set (pr_WorkUnits p). WorkUnit_Validate u = None \<and>
           wu_ContractRevisionNumber u = pr_ContractRevisionNumber p"
    and "distinct (map wu_ID (pr_WorkUnits p))"
    and "\<forall>g\<in>set (pr_Grants p). CapabilityGrant_Validate g = None"
    and "distinct (map cg_Name (pr_Grants p))"
    and "pr_WorkUnits p \<noteq> []" and "\<not> blank (pr_ID p)" and "\<not> blank (pr_OutcomeID p)"
    and "1 \<le> pr_ContractRevisionNumber p"
    and "length (pr_WorkUnits p) \<le> MaxCanonicalPlanWorkUnits"
    and "isSHA256Hex (pr_RunBriefCoreDigest p)"
  using assms by (simp_all add: PlanRevision_Validate_def guards)

lemma plan_valid_order:
  assumes "PlanRevision_Validate p = None"
  obtains order where "TopologicalWorkUnits (pr_WorkUnits p) = Inr order"
  using assms by (auto simp: PlanRevision_Validate_def guards split: sum.splits)

end
