(* ===== verification/Plan_Approval.thy ===== *)
theory Plan_Approval
  imports Plan_Revision Go_Path
begin

text \<open>
  What turns a plan into execution authority: the approval checks of outcome_plan.go, the run
  brief whose digest freezes the approved graph, and the execution policy one attempt receives
  (internal/domain/execution_policy.go). The digest is a function parameter applied to the brief;
  symbolic links are resolved by a parameter that models the file system.
\<close>

section \<open>Approval\<close>

definition ValidateAgainst :: "work_unit_routing \<Rightarrow> work_unit \<Rightarrow> validation" where
  "ValidateAgainst r u =
     (if blank (wr_WorkUnitID r) \<or> wr_WorkUnitID r \<noteq> wu_ID u
      then Some (Errorf ''routing decision work unit %q does not match %q''
                   [Str (wr_WorkUnitID r), Str (wu_ID u)])
      else (case RecommendedBinding (wr_Decision r) of
              None \<Rightarrow> Some (Errorf ''work unit %s has no valid routing recommendation'' [Str (wu_ID u)])
            | Some recommended \<Rightarrow>
                (case ExecutionBindingForNewWork u of
                   Inl e \<Rightarrow> Some e
                 | Inr bound \<Rightarrow> refuse (recommended \<noteq> bound)
                     (Errorf ''routing recommendation for work unit %s does not match persisted execution binding''
                        [Str (wu_ID u)]))))"

definition uncovered_criteria :: "plan_revision \<Rightarrow> contract_revision \<Rightarrow> string list" where
  "uncovered_criteria p r =
     sorted_keys (filter (\<lambda>c. c \<notin> set (concat (map wu_CriterionIDs (pr_WorkUnits p))))
       (map cc_ID (cr_Criteria r)))"

definition ValidateAgainstContract :: "plan_revision \<Rightarrow> contract_revision \<Rightarrow> validation" where
  "ValidateAgainstContract p r = first_error
     [refuse (pr_OutcomeID p \<noteq> cr_OutcomeID r \<or> pr_ContractRevisionNumber p \<noteq> cr_Number r)
        (Errorf ''plan does not bind the supplied contract revision'' []),
      refuse (cr_Criteria r = []) (Errorf ''contract revision has no canonical criteria'' []),
      each_elem (\<lambda>u. each_elem (\<lambda>c. refuse (c \<notin> cc_ID ` set (cr_Criteria r))
          (Errorf ''work unit %s covers criterion %s outside the bound contract revision''
             [Str (wu_ID u), Str c])) (wu_CriterionIDs u)) (pr_WorkUnits p),
      refuse (uncovered_criteria p r \<noteq> [])
        (Errorf ''plan does not cover required contract criteria: %s''
           (map Str (uncovered_criteria p r)))]"

definition routing_record :: "plan_revision \<Rightarrow> ident \<Rightarrow> work_unit_routing option" where
  "routing_record p i = find (\<lambda>r. wr_WorkUnitID r = i) (pr_RoutingDecisions p)"

definition unit_approval_check :: "plan_revision \<Rightarrow> work_unit \<Rightarrow> validation" where
  "unit_approval_check p u = first_error
     [(case ExecutionBindingForNewWork u of
         Inl e \<Rightarrow> Some (Wrapf ''work unit %s is not executable: %w'' [Str (wu_ID u)] e)
       | Inr _ \<Rightarrow> None),
      (case routing_record p (wu_ID u) of
         None \<Rightarrow> Some (Errorf ''work unit %s has no routing decision'' [Str (wu_ID u)])
       | Some r \<Rightarrow> ValidateAgainst r u),
      refuse (MissingCapabilitiesForWorkUnit (pr_Grants p) u \<noteq> [])
        (Errorf ''work unit %s is missing required capability grants: %s''
           (Str (wu_ID u) # map Str (MissingCapabilitiesForWorkUnit (pr_Grants p) u)))]"

definition routing_checks :: "plan_revision \<Rightarrow> validation" where
  "routing_checks p = each_seen wr_WorkUnitID (\<lambda>i seen r.
     refuse (wr_WorkUnitID r \<in> set seen)
       (Errorf ''duplicate routing decision for work unit %s'' [Str (wr_WorkUnitID r)]))
     0 [] (pr_RoutingDecisions p)"

definition ValidateForApproval :: "plan_revision \<Rightarrow> contract_revision \<Rightarrow> validation" where
  "ValidateForApproval p r = first_error
     [PlanRevision_Validate p,
      ValidateAgainstContract p r,
      routing_checks p,
      each_elem (unit_approval_check p) (pr_WorkUnits p),
      refuse (length (remdups (map wr_WorkUnitID (pr_RoutingDecisions p))) \<noteq> length (pr_WorkUnits p))
        (Errorf ''plan has routing decisions for unknown work units'' [])]"

definition BindsCurrentContract :: "plan_revision \<Rightarrow> int \<Rightarrow> bool" where
  "BindsCurrentContract p current = (pr_ContractRevisionNumber p = current)"

lemma routing_checks_None [guards]:
  "routing_checks p = None \<longleftrightarrow> distinct (map wr_WorkUnitID (pr_RoutingDecisions p))"
  unfolding routing_checks_def
  by (subst each_seen_fresh_elem [where g = "\<lambda>_. True"]) (auto simp: guards)

lemma missing_capabilities_Nil [guards]:
  "MissingCapabilitiesForWorkUnit grants u = [] \<longleftrightarrow>
     set (wu_RequiredCapabilities u) \<subseteq> cg_Name ` set grants"
  by (auto simp: MissingCapabilitiesForWorkUnit_def filter_empty_conv)

lemma uncovered_Nil:
  "uncovered_criteria p r = [] \<longleftrightarrow>
     (\<forall>c\<in>set (cr_Criteria r). \<exists>u\<in>set (pr_WorkUnits p). cc_ID c \<in> set (wu_CriterionIDs u))"
  by (auto simp: uncovered_criteria_def filter_empty_conv)

lemma validate_approved: "PlanRevision_Validate p = None \<Longrightarrow> PlanRevision_Validate (p\<lparr>pr_Status := PlanApproved\<rparr>) = None"
  by (auto simp: PlanRevision_Validate_def plan_unit_checks_def plan_grant_checks_def guards)

text \<open>The approval checks do not look at the status of the plan nor at the time of the contract, so an
  approved plan still passes what it was approved under.\<close>

lemma approval_survives_stamps:
  assumes "ValidateForApproval p r = None"
  shows "ValidateForApproval (p\<lparr>pr_Status := PlanApproved\<rparr>) (r\<lparr>cr_CreatedAt := at\<rparr>) = None"
proof -
  let ?p = "p\<lparr>pr_Status := PlanApproved\<rparr>"
  have "unit_approval_check ?p = unit_approval_check p" "routing_checks ?p = routing_checks p"
    by (simp_all add: fun_eq_iff unit_approval_check_def routing_record_def routing_checks_def)
  then show ?thesis using assms validate_approved
    by (simp add: ValidateForApproval_def ValidateAgainstContract_def uncovered_criteria_def guards)
qed

lemma approved_against_contract:
  assumes "ValidateForApproval p r = None"
  shows "pr_OutcomeID p = cr_OutcomeID r" "pr_ContractRevisionNumber p = cr_Number r"
    and "\<forall>u\<in>set (pr_WorkUnits p). \<forall>c\<in>set (wu_CriterionIDs u). c \<in> cc_ID ` set (cr_Criteria r)"
    and "\<forall>c\<in>set (cr_Criteria r). \<exists>u\<in>set (pr_WorkUnits p). cc_ID c \<in> set (wu_CriterionIDs u)"
    and "cr_Criteria r \<noteq> []"
  using assms
  by (simp_all add: ValidateForApproval_def ValidateAgainstContract_def guards uncovered_Nil)

lemma approved_unit_binding:
  assumes "ValidateForApproval p r = None" "u \<in> set (pr_WorkUnits p)"
  obtains b d where "ExecutionBindingForNewWork u = Inr b"
    "routing_record p (wu_ID u) = Some d" "RecommendedBinding (wr_Decision d) = Some b"
    "ValidateForNewWork b = None"
    "set (wu_RequiredCapabilities u) \<subseteq> cg_Name ` set (pr_Grants p)"
proof -
  have chk: "unit_approval_check p u = None"
    using assms by (simp add: ValidateForApproval_def guards)
  then obtain b d where b: "ExecutionBindingForNewWork u = Inr b"
      "routing_record p (wu_ID u) = Some d" "ValidateAgainst d u = None"
      "set (wu_RequiredCapabilities u) \<subseteq> cg_Name ` set (pr_Grants p)"
    by (auto simp: unit_approval_check_def guards split: sum.splits option.splits)
  moreover have "RecommendedBinding (wr_Decision d) = Some b"
    using b(1,3) by (auto simp: ValidateAgainst_def guards split: if_splits option.splits)
  moreover have "ValidateForNewWork b = None"
    using b(1) by (auto simp: ExecutionBindingForNewWork_def split: sum.splits option.splits)
  ultimately show ?thesis using that by blast
qed

text \<open>The units and the routing decisions of an approved plan correspond one to one.\<close>

lemma approved_routing_exact:
  assumes "ValidateForApproval p r = None"
  shows "wr_WorkUnitID ` set (pr_RoutingDecisions p) = wu_ID ` set (pr_WorkUnits p)"
proof -
  have dr: "distinct (map wr_WorkUnitID (pr_RoutingDecisions p))"
    and len: "length (pr_RoutingDecisions p) = length (pr_WorkUnits p)"
    using assms by (auto simp: ValidateForApproval_def guards distinct_remdups_id)
  have du: "distinct (map wu_ID (pr_WorkUnits p))"
    using assms plan_valid_facts(2) by (simp add: ValidateForApproval_def guards)
  have sub: "wu_ID ` set (pr_WorkUnits p) \<subseteq> wr_WorkUnitID ` set (pr_RoutingDecisions p)"
  proof
    fix i assume "i \<in> wu_ID ` set (pr_WorkUnits p)"
    then obtain u where "u \<in> set (pr_WorkUnits p)" "i = wu_ID u" by auto
    then obtain d where "routing_record p i = Some d"
      using approved_unit_binding [OF assms] by metis
    then show "i \<in> wr_WorkUnitID ` set (pr_RoutingDecisions p)"
      by (auto simp: routing_record_def dest: find_SomeD)
  qed
  have "card (wu_ID ` set (pr_WorkUnits p)) = card (wr_WorkUnitID ` set (pr_RoutingDecisions p))"
    using dr du len by (metis distinct_card length_map list.set_map)
  then show ?thesis using sub by (metis card_subset_eq finite_imageI List.finite_set)
qed

section \<open>The run brief\<close>

record run_brief_unit =
  rb_ID :: string
  rb_Title :: string
  rb_Provider :: string
  rb_ModelSelection :: model_selection
  rb_Model :: string
  rb_Output :: string
  rb_EvidenceChecks :: "string list"
  rb_VerificationRequirement :: string
  rb_StopConditions :: "string list"
  rb_DependsOn :: "string list"
  rb_CriterionIDs :: "string list"
  rb_RequiredCapabilities :: "string list"
  rb_Checks :: "string list"

record run_brief_core =
  rb_ContractRevisionNumber :: int
  rb_Goal :: string
  rb_SuccessCriteria :: "string list"
  rb_Review :: string
  rb_Constraints :: "string list"
  rb_NonGoals :: "string list"
  rb_Clarification :: string
  rb_WorkUnits :: "run_brief_unit list"
  rb_Grants :: "string list"

definition sortedTrimmed :: "string list \<Rightarrow> string list" where
  "sortedTrimmed vs = sort (filter (\<lambda>v. v \<noteq> []) (map trim_space vs))"

definition render_check :: "approved_check \<Rightarrow> string" where
  "render_check c =
     ac_ID c @ ''|'' @ ac_CriterionID c @ ''|'' @ decimal (ac_TimeoutSeconds c) @ ''|'' @
     join_on [CHR 0x00] (ac_Argv c)"

definition runBriefChecks :: "approved_check list \<Rightarrow> string list" where
  "runBriefChecks checks = sort (map render_check checks)"

definition run_brief_unit_of :: "work_unit \<Rightarrow> run_brief_unit" where
  "run_brief_unit_of u =
     \<lparr>rb_ID = wu_ID u, rb_Title = wu_Title u, rb_Provider = wu_Provider u,
      rb_ModelSelection = wu_ModelSelection u, rb_Model = wu_Model u,
      rb_Output = wu_OutputSummary u, rb_EvidenceChecks = sortedTrimmed (wu_EvidenceChecks u),
      rb_VerificationRequirement = wu_VerificationRequirement u,
      rb_StopConditions = sortedTrimmed (wu_StopConditions u),
      rb_DependsOn = sort (wu_DependsOn u), rb_CriterionIDs = sort (wu_CriterionIDs u),
      rb_RequiredCapabilities = sortedTrimmed (wu_RequiredCapabilities u),
      rb_Checks = runBriefChecks (wu_Checks u)\<rparr>"

definition digest_plan :: "contract_revision \<Rightarrow> work_unit list \<Rightarrow> capability_grant list \<Rightarrow> plan_revision"
where
  "digest_plan r units grants =
     \<lparr>pr_ID = ''digest-plan'', pr_OutcomeID = cr_OutcomeID r, pr_Number = 1,
      pr_ContractRevisionNumber = cr_Number r, pr_Status = PlanProposed, pr_Summary = ''digest'',
      pr_Assumptions = [], pr_Blockers = [], pr_WorkUnits = units, pr_Grants = grants,
      pr_RoutingDecisions = [], pr_RunBriefCoreDigest = replicate 64 (CHR ''0''),
      pr_RunBriefCompiledDigest = [], pr_PlanningSessionID = [], pr_SourceIntelligenceRunID = [],
      pr_CreatedAt = zero_time\<rparr>"

definition run_brief_core_of ::
  "contract_revision \<Rightarrow> work_unit list \<Rightarrow> capability_grant list \<Rightarrow> run_brief_core" where
  "run_brief_core_of r ordered grants =
     \<lparr>rb_ContractRevisionNumber = cr_Number r, rb_Goal = cr_Goal r,
      rb_SuccessCriteria = sortedTrimmed (cr_SuccessCriteria r), rb_Review = cr_Review r,
      rb_Constraints = sortedTrimmed (cr_Constraints r), rb_NonGoals = sortedTrimmed (cr_NonGoals r),
      rb_Clarification = cr_Clarification r, rb_WorkUnits = map run_brief_unit_of ordered,
      rb_Grants = sort (map (\<lambda>g. cg_Name g @ ''@'' @ cg_Scope g) grants)\<rparr>"

definition ComputePlanRunBriefCoreDigest ::
  "(run_brief_core \<Rightarrow> string) \<Rightarrow> contract_revision \<Rightarrow> work_unit list \<Rightarrow> capability_grant list \<Rightarrow>
   error + string" where
  "ComputePlanRunBriefCoreDigest digest r units grants =
     (case ContractRevision_Validate r of
        Some e \<Rightarrow> Inl (Wrapf ''run brief contract: %w'' [] e)
      | None \<Rightarrow>
          (case PlanRevision_Validate (digest_plan r units grants) of
             Some e \<Rightarrow> Inl (Wrapf ''run brief plan: %w'' [] e)
           | None \<Rightarrow>
               (case TopologicalWorkUnits units of
                  Inl e \<Rightarrow> Inl e
                | Inr ordered \<Rightarrow> Inr (digest (run_brief_core_of r ordered grants)))))"

text \<open>Without a bar in the identifiers and NUL in the arguments the rendering of a check loses
  nothing.\<close>

lemma bar_prefix_inject:
  "a @ ''|'' @ s = b @ ''|'' @ t \<Longrightarrow> CHR ''|'' \<notin> set a \<Longrightarrow> CHR ''|'' \<notin> set b \<Longrightarrow> a = b \<and> s = t"
  by (induction a arbitrary: b; case_tac b) auto

lemma decimal_no_bar: "CHR ''|'' \<notin> set (decimal i)"
  using decimal_nat_digits [of "CHR ''|''"] by (auto simp: decimal_def)

lemma render_check_inject:
  assumes "render_check c = render_check d"
    and "CHR ''|'' \<notin> set (ac_ID c)" "CHR ''|'' \<notin> set (ac_ID d)"
    and "CHR ''|'' \<notin> set (ac_CriterionID c)" "CHR ''|'' \<notin> set (ac_CriterionID d)"
    and "ApprovedCheck_Validate c = None" "ApprovedCheck_Validate d = None"
  shows "c = d"
proof -
  have parts: "ac_ID c = ac_ID d" "ac_CriterionID c = ac_CriterionID d"
      "decimal (ac_TimeoutSeconds c) = decimal (ac_TimeoutSeconds d)"
      "join_on [CHR 0x00] (ac_Argv c) = join_on [CHR 0x00] (ac_Argv d)"
    using assms(1-5) bar_prefix_inject decimal_no_bar unfolding render_check_def by metis+
  have argv: "ac_Argv e \<noteq> [] \<and> (\<forall>a\<in>set (ac_Argv e). CHR 0x00 \<notin> set a)"
    if "ApprovedCheck_Validate e = None" for e
    using approved_check_command [OF that] by (metis list.distinct(1) set_ConsD)
  have "ac_Argv c = ac_Argv d"
    using parts(4) argv [OF assms(6)] argv [OF assms(7)] by (intro join_on_inject) auto
  then show ?thesis using parts decimal_inject by simp
qed

lemma digest_ignores_unit_order:
  assumes "mset us = mset vs"
    and "ComputePlanRunBriefCoreDigest digest r us grants = Inr d"
    and "PlanRevision_Validate (digest_plan r vs grants) = None"
  shows "ComputePlanRunBriefCoreDigest digest r vs grants = Inr d"
  using assms topological_order_permute [OF assms(1)]
  by (auto simp: ComputePlanRunBriefCoreDigest_def split: option.splits sum.splits)

section \<open>Attempt execution policies\<close>

record execution_policy =
  ep_OutcomeID :: ident
  ep_PlanRevisionID :: ident
  ep_WorkUnitID :: ident
  ep_ContractRevisionNumber :: int
  ep_RunBriefCoreDigest :: string
  ep_WorkspaceRoot :: string
  ep_RequiredCapabilities :: "string list"
  ep_Grants :: "capability_grant list"
  ep_ApprovedChecks :: "approved_check list"

definition uniqueSortedStrings :: "string list \<Rightarrow> string list" where
  "uniqueSortedStrings vs = sorted_keys (filter (\<lambda>v. v \<noteq> []) vs)"

definition ExecutionPolicy_Has :: "execution_policy \<Rightarrow> string \<Rightarrow> bool" where
  "ExecutionPolicy_Has p name = (trim_space name \<in> set (ep_RequiredCapabilities p))"

definition policy_check_checks :: "approved_check list \<Rightarrow> validation" where
  "policy_check_checks cs = each_seen ac_ID (\<lambda>i seen c. first_error
     [(case ApprovedCheck_Validate c of
         Some e \<Rightarrow> Some (Wrapf ''execution policy: %w'' [] e) | None \<Rightarrow> None),
      refuse (ac_ID c \<in> set seen)
        (Errorf ''execution policy approved check %s is duplicated'' [Str (ac_ID c)]),
      refuse (case seen of [] \<Rightarrow> False | l # _ \<Rightarrow> l \<noteq> [] \<and> ac_ID c < l)
        (Errorf ''execution policy approved checks must be sorted by id'' [])]) 0 [] cs"

definition ExecutionPolicy_Validate :: "execution_policy \<Rightarrow> validation" where
  "ExecutionPolicy_Validate p = (let required = uniqueSortedStrings (ep_RequiredCapabilities p) in
     first_error
     [refuse (blank (ep_OutcomeID p) \<or> blank (ep_PlanRevisionID p) \<or> blank (ep_WorkUnitID p))
        (Errorf ''execution policy attribution is incomplete'' []),
      refuse (ep_ContractRevisionNumber p < 1)
        (Errorf ''execution policy contract revision must be positive'' []),
      refuse (blank (ep_RunBriefCoreDigest p))
        (Errorf ''execution policy RunBrief digest is required'' []),
      refuse (ep_WorkspaceRoot p \<noteq> [] \<and>
              (\<not> is_abs (ep_WorkspaceRoot p) \<or> path_clean (ep_WorkspaceRoot p) \<noteq> ep_WorkspaceRoot p))
        (Errorf ''execution policy workspace root must be an absolute clean path'' []),
      refuse (required = []) (Errorf ''execution policy requires at least one capability'' []),
      refuse (required \<noteq> ep_RequiredCapabilities p)
        (Errorf ''execution policy capabilities must be sorted and unique'' []),
      refuse (length required \<noteq> length (ep_Grants p))
        (Errorf ''execution policy has %d required capabilities but %d grants''
           [Num (int (length required)), Num (int (length (ep_Grants p)))]),
      each_index (\<lambda>i g. first_error
        [(case CapabilityGrant_Validate g of
            Some e \<Rightarrow> Some (Wrapf ''execution policy grant %d: %w'' [Num (int i + 1)] e)
          | None \<Rightarrow> None),
         refuse (cg_Name g \<noteq> required ! i)
           (Errorf ''execution policy grant %q does not match required capability %q''
              [Str (cg_Name g), Str (required ! i)])]) (ep_Grants p),
      policy_check_checks (ep_ApprovedChecks p),
      refuse (ep_ApprovedChecks p \<noteq> [] \<and> \<not> ExecutionPolicy_Has p CapabilityWorktreeExec)
        (Errorf ''execution policy approved checks require %s'' [Str CapabilityWorktreeExec])])"

text \<open>\<^verbatim>\<open>BindWorkspaceRoot\<close> and \<^verbatim>\<open>ValidateWorkspaceRoot\<close>; \<^verbatim>\<open>resolve\<close> is
  \<^verbatim>\<open>filepath.EvalSymlinks\<close>, which may fail.\<close>

definition resolved_root :: "(string \<Rightarrow> string option) \<Rightarrow> string \<Rightarrow> string" where
  "resolved_root resolve root =
     (case resolve (path_clean (trim_space root)) of
        Some s \<Rightarrow> s | None \<Rightarrow> path_clean (trim_space root))"

definition BindWorkspaceRoot ::
  "(string \<Rightarrow> string option) \<Rightarrow> execution_policy \<Rightarrow> string \<Rightarrow> error + execution_policy" where
  "BindWorkspaceRoot resolve p root =
     (if path_clean (trim_space root) = ''.'' \<or> \<not> is_abs (path_clean (trim_space root))
      then Inl (Errorf ''execution policy workspace root must be absolute'' [])
      else if ep_WorkspaceRoot p \<noteq> [] \<and> ep_WorkspaceRoot p \<noteq> resolved_root resolve root
      then Inl (Errorf ''execution policy workspace root %q does not match %q''
                  [Str (ep_WorkspaceRoot p), Str (resolved_root resolve root)])
      else let q = p\<lparr>ep_WorkspaceRoot := resolved_root resolve root\<rparr>
           in case ExecutionPolicy_Validate q of Some e \<Rightarrow> Inl e | None \<Rightarrow> Inr q)"

definition ValidateWorkspaceRoot ::
  "(string \<Rightarrow> string option) \<Rightarrow> execution_policy \<Rightarrow> string \<Rightarrow> validation" where
  "ValidateWorkspaceRoot resolve p root =
     refuse (ep_WorkspaceRoot p = [] \<or> ep_WorkspaceRoot p \<noteq> resolved_root resolve root)
       (Errorf ''execution policy workspace root %q does not match launch root %q''
          [Str (ep_WorkspaceRoot p), Str (resolved_root resolve root)])"

text \<open>The grants by trimmed name; a later grant of the same name replaces an earlier one.\<close>

definition grant_by_name :: "capability_grant list \<Rightarrow> string \<Rightarrow> capability_grant option" where
  "grant_by_name grants name =
     (if name = [] then None
      else map_option (\<lambda>g. g\<lparr>cg_Name := name, cg_Scope := trim_space (cg_Scope g)\<rparr>)
             (find (\<lambda>g. trim_space (cg_Name g) = name) (rev grants)))"

fun policy_grants :: "capability_grant list \<Rightarrow> ident \<Rightarrow> string list \<Rightarrow> error + capability_grant list" where
  "policy_grants grants unit [] = Inr []"
| "policy_grants grants unit (n # ns) =
     (case grant_by_name grants n of
        None \<Rightarrow> Inl (Errorf ''work unit %s is missing capability grant %q'' [Str unit, Str n])
      | Some g \<Rightarrow>
          (case CapabilityGrant_Validate g of
             Some e \<Rightarrow> Inl (Wrapf ''capability grant %s: %w'' [Str (cg_ID g)] e)
           | None \<Rightarrow> (case policy_grants grants unit ns of Inl e \<Rightarrow> Inl e | Inr gs \<Rightarrow> Inr (g # gs))))"

definition BuildAttemptExecutionPolicy ::
  "ident \<Rightarrow> plan_revision \<Rightarrow> work_unit \<Rightarrow> string \<Rightarrow> error + execution_policy" where
  "BuildAttemptExecutionPolicy outcome plan u digest =
     (let required = uniqueSortedStrings (map trim_space (wu_RequiredCapabilities u)) in
      if blank outcome \<or> blank (pr_ID plan) \<or> blank (wu_ID u)
      then Inl (Errorf ''execution policy requires outcome, plan, and work unit ids'' [])
      else if pr_OutcomeID plan \<noteq> outcome
      then Inl (Errorf ''execution policy plan %s does not belong to outcome %s''
                  [Str (pr_ID plan), Str outcome])
      else if blank digest
      then Inl (Errorf ''execution policy requires the approved RunBrief digest'' [])
      else if required = []
      then Inl (Errorf ''work unit %s requires at least one capability'' [Str (wu_ID u)])
      else (case policy_grants (pr_Grants plan) (wu_ID u) required of
              Inl e \<Rightarrow> Inl e
            | Inr grants \<Rightarrow>
                let p = \<lparr>ep_OutcomeID = outcome, ep_PlanRevisionID = pr_ID plan,
                         ep_WorkUnitID = wu_ID u,
                         ep_ContractRevisionNumber = pr_ContractRevisionNumber plan,
                         ep_RunBriefCoreDigest = trim_space digest, ep_WorkspaceRoot = [],
                         ep_RequiredCapabilities = required, ep_Grants = grants,
                         ep_ApprovedChecks = sort_key ac_ID (wu_Checks u)\<rparr>
                in case ExecutionPolicy_Validate p of Some e \<Rightarrow> Inl e | None \<Rightarrow> Inr p))"

lemma built_policy_valid:
  "BuildAttemptExecutionPolicy oid plan u digest = Inr p \<Longrightarrow> ExecutionPolicy_Validate p = None"
  by (auto simp: BuildAttemptExecutionPolicy_def Let_def split: if_splits sum.splits option.splits)

lemma built_policy_fields:
  assumes "BuildAttemptExecutionPolicy oid plan u digest = Inr p"
  shows "ep_RequiredCapabilities p = uniqueSortedStrings (map trim_space (wu_RequiredCapabilities u))"
    and "ep_ApprovedChecks p = sort_key ac_ID (wu_Checks u)"
    and "ep_OutcomeID p = oid" "ep_PlanRevisionID p = pr_ID plan" "ep_WorkUnitID p = wu_ID u"
    and "policy_grants (pr_Grants plan) (wu_ID u) (ep_RequiredCapabilities p) = Inr (ep_Grants p)"
    and "ep_WorkspaceRoot p = []"
  using assms
  by (auto simp: BuildAttemptExecutionPolicy_def Let_def split: if_splits sum.splits option.splits)

lemma policy_grants_from_plan:
  "policy_grants grants unit ns = Inr gs \<Longrightarrow>
   map cg_Name gs = ns \<and>
   (\<forall>g\<in>set gs. \<exists>h\<in>set grants. cg_ID g = cg_ID h \<and> cg_Name g = trim_space (cg_Name h) \<and>
      cg_Scope g = trim_space (cg_Scope h))"
  by (induction ns arbitrary: gs)
    (fastforce simp: grant_by_name_def split: option.splits sum.splits if_splits dest: find_SomeD)+

lemma bound_root_fixed:
  assumes "BindWorkspaceRoot resolve p root = Inr q"
  shows "ep_WorkspaceRoot q = resolved_root resolve root"
    and "ep_WorkspaceRoot p = [] \<or> ep_WorkspaceRoot p = ep_WorkspaceRoot q"
    and "ExecutionPolicy_Validate q = None"
  using assms by (auto simp: BindWorkspaceRoot_def Let_def split: if_splits option.splits)

end
