(* ===== verification/Plan_Samples.thy ===== *)
theory Plan_Samples imports Plan_Approval begin

text \<open>
  The sample contract, plan and routing inventory at which the properties are instantiated: two
  criteria, two dependent work units listed in the wrong order.
\<close>

section \<open>A sample plan\<close>

definition sample_criterion :: "ident \<Rightarrow> int \<Rightarrow> contract_criterion" where
  "sample_criterion i n = \<lparr>cc_ID = i, cc_ContractRevisionID = ''r1'', cc_Position = n, cc_Text = i\<rparr>"

definition sample_contract :: contract_revision where
  "sample_contract = \<lparr>cr_ID = ''r1'', cr_OutcomeID = ''o1'', cr_Number = 1, cr_Goal = ''g'',
     cr_Criteria = [sample_criterion ''c1'' 1, sample_criterion ''c2'' 2],
     cr_SuccessCriteria = [''c1'', ''c2''], cr_Review = ''rv'', cr_Constraints = [], cr_NonGoals = [],
     cr_Clarification = [],
     cr_EvidenceExpectations = [\<lparr>ee_CriterionID = ''c2'', ee_Descriptions = [''d'']\<rparr>],
     cr_AuthorityCeiling = \<lparr>ReadWorkspace = True, WriteWorkspace = True, ExecuteLocal = True,
       UseNetwork = False, CommitLocal = False, CreatePR = False, Deploy = False, ExternalEffect = False\<rparr>,
     cr_StopConditions = [], cr_TemporalCondition = None, cr_Facets = [],
     cr_ExecutionPreference = None, cr_CreatedAt = 1\<rparr>"

definition sample_check :: approved_check where
  "sample_check = \<lparr>ac_ID = ''k1'', ac_CriterionID = ''c1'', ac_Argv = [''go'', ''test''], ac_TimeoutSeconds = 60\<rparr>"

definition sample_unit :: "ident \<Rightarrow> ident list \<Rightarrow> ident \<Rightarrow> approved_check list \<Rightarrow> work_unit" where
  "sample_unit i deps c checks = \<lparr>wu_ID = i, wu_Kind = WorkUnitDirect, wu_Title = ''t'',
     wu_ContractRevisionNumber = 1, wu_Provider = HarnessCodex, wu_ModelSelection = MsProviderDefault,
     wu_Model = [], wu_OutputSummary = ''s'', wu_EvidenceChecks = [''e''],
     wu_VerificationRequirement = ''v'', wu_StopConditions = [], wu_DependsOn = deps,
     wu_CriterionIDs = [c], wu_RequiredCapabilities = [CapabilityWorktreeExec, CapabilityWorktreeRead],
     wu_Checks = checks\<rparr>"

definition sample_units :: "work_unit list" where
  "sample_units = [sample_unit ''u2'' [''u1''] ''c2'' [], sample_unit ''u1'' [] ''c1'' [sample_check]]"

definition sample_candidate :: "string \<Rightarrow> harness \<Rightarrow> capability_support \<Rightarrow> routing_candidate" where
  "sample_candidate i h ready = \<lparr>rc_ID = i, rc_Provider = h, rc_ModelSelection = MsProviderDefault,
     rc_Model = [], rc_WorkerEligible = True, rc_CoordinatorEligible = False, rc_Readiness = ready,
     rc_Capabilities = (\<lambda>_. Some Supported), rc_Models = (\<lambda>_. None)\<rparr>"

definition sample_candidates :: "routing_candidate list" where
  "sample_candidates = [sample_candidate ''z'' HarnessCodex Supported,
     sample_candidate ''b'' HarnessClaudeCode Supported, sample_candidate ''a'' HarnessPi Unsupported]"

definition sample_requirements :: routing_requirements where
  "sample_requirements = \<lparr>rr_Role = RoleWorker, rr_HardCapabilities = [''x''],
     rr_Preference = Some \<lparr>rp_Provider = HarnessCodex, rp_ModelSelection = PrefProviderDefault, rp_Model = []\<rparr>\<rparr>"

definition sample_decision :: routing_decision where
  "sample_decision = RouteExecution sample_requirements sample_candidates ''snap''"

definition sample_grants :: "capability_grant list" where
  "sample_grants = [\<lparr>cg_ID = ''g1'', cg_Name = CapabilityWorktreeRead, cg_Scope = ''w''\<rparr>,
     \<lparr>cg_ID = ''g2'', cg_Name = CapabilityWorktreeExec, cg_Scope = ''w''\<rparr>]"

definition sample_plan :: plan_revision where
  "sample_plan = \<lparr>pr_ID = ''p1'', pr_OutcomeID = ''o1'', pr_Number = 1, pr_ContractRevisionNumber = 1,
     pr_Status = PlanProposed, pr_Summary = ''s'', pr_Assumptions = [], pr_Blockers = [],
     pr_WorkUnits = sample_units, pr_Grants = sample_grants,
     pr_RoutingDecisions = [\<lparr>wr_WorkUnitID = ''u1'', wr_Decision = sample_decision\<rparr>,
        \<lparr>wr_WorkUnitID = ''u2'', wr_Decision = sample_decision\<rparr>],
     pr_RunBriefCoreDigest = replicate 64 (CHR ''0''), pr_RunBriefCompiledDigest = [],
     pr_PlanningSessionID = [], pr_SourceIntelligenceRunID = [], pr_CreatedAt = 1\<rparr>"

lemma sample_contract_valid: "ContractRevision_Validate sample_contract = None"
  by code_simp

definition sample_order :: "work_unit list" where
  "sample_order = rev sample_units"

lemma sample_topological: "TopologicalWorkUnits sample_units = Inr sample_order"
  by code_simp

text \<open>The checks of an approval, each evaluated on its own.\<close>

lemma sample_unit_checks: "plan_unit_checks sample_plan = None"
  by code_simp

lemma sample_grant_checks: "plan_grant_checks sample_plan = None"
  by code_simp

lemma sample_bound: "ValidateAgainstContract sample_plan sample_contract = None"
  by code_simp

lemma sample_routed: "routing_checks sample_plan = None"
  by code_simp

lemma sample_units_approvable: "each_elem (unit_approval_check sample_plan) sample_units = None"
  by code_simp

lemma sample_references:
  "each_elem (\<lambda>u. each_elem (\<lambda>d. refuse (d \<notin> wu_ID ` set sample_units)
     (Errorf ''work unit %s depends on unknown work unit %s'' [Str (wu_ID u), Str d])) (wu_DependsOn u)) sample_units = None"
  by code_simp

lemma sample_fields:
  "\<not> blank ''p1'' \<and> \<not> blank ''o1'' \<and> \<not> blank ''s'' \<and> blank [] \<and> PlanStatus_Valid PlanProposed \<and>
   isSHA256Hex (replicate 64 (CHR ''0'')) \<and> length sample_units \<le> MaxCanonicalPlanWorkUnits \<and> sample_units \<noteq> [] \<and>
   validatePlanReviewStrings ''assumption'' [] = None \<and> validatePlanReviewStrings ''blocker'' [] = None"
  by code_simp

lemma sample_plan_valid: "PlanRevision_Validate sample_plan = None"
proof -
  have fields: "pr_ID sample_plan = ''p1''" "pr_OutcomeID sample_plan = ''o1''" "pr_Number sample_plan = 1"
    "pr_ContractRevisionNumber sample_plan = 1" "pr_Status sample_plan = PlanProposed" "pr_Summary sample_plan = ''s''"
    "pr_Assumptions sample_plan = []" "pr_Blockers sample_plan = []" "pr_WorkUnits sample_plan = sample_units"
    "pr_RunBriefCoreDigest sample_plan = replicate 64 (CHR ''0'')" "pr_PlanningSessionID sample_plan = []"
    "pr_SourceIntelligenceRunID sample_plan = []" by (simp_all only: sample_plan_def plan_revision.simps)
  show ?thesis
    using sample_fields
    by (simp only: PlanRevision_Validate_def fields sample_unit_checks sample_grant_checks sample_references sample_topological
        first_error_None) (simp add: refuse_def)
qed

lemma sample_plan_approvable: "ValidateForApproval sample_plan sample_contract = None"
proof -
  have "pr_WorkUnits sample_plan = sample_units" "length (remdups (map wr_WorkUnitID (pr_RoutingDecisions sample_plan))) = length sample_units"
    by (simp_all add: sample_plan_def sample_units_def)
  then show ?thesis
    by (simp add: ValidateForApproval_def sample_plan_valid sample_bound sample_routed sample_units_approvable guards)
qed

definition sample_policy :: execution_policy where
  "sample_policy = \<lparr>ep_OutcomeID = ''o1'', ep_PlanRevisionID = ''p1'', ep_WorkUnitID = ''u1'',
     ep_ContractRevisionNumber = 1, ep_RunBriefCoreDigest = ''digest'', ep_WorkspaceRoot = [],
     ep_RequiredCapabilities = [CapabilityWorktreeExec, CapabilityWorktreeRead],
     ep_Grants = rev sample_grants, ep_ApprovedChecks = [sample_check]\<rparr>"

lemma sample_policy_built:
  "BuildAttemptExecutionPolicy ''o1'' sample_plan (hd sample_order) ''digest'' = Inr sample_policy"
  by code_simp

end
