(* ===== verification/Plan_Properties.thy ===== *)
theory Plan_Properties imports Plan_Samples begin

text \<open>
  The properties of contracts, plans, routing and execution policies.
\<close>

section \<open>Shared facts\<close>

text \<open>The first preferred admitted candidate, else the first: nothing admitted beats it.\<close>

lemma find_sorted_least:
  "sorted (map f xs) \<Longrightarrow> find P xs = Some w \<Longrightarrow> c \<in> set xs \<Longrightarrow> P c \<Longrightarrow> f w \<le> f c"
  by (induction xs) (auto split: if_splits)

lemma routed_winner_best:
  assumes "routed_winner req cs = Some w" "c \<in> set (admitted_candidates req cs)"
  shows "(is_preferred req c \<longrightarrow> is_preferred req w) \<and>
         (is_preferred req c = is_preferred req w \<longrightarrow> rc_ID w \<le> rc_ID c)"
proof (cases "find (is_preferred req) (admitted_candidates req cs)")
  case None
  then obtain as where "admitted_candidates req cs = w # as"
    using assms(1) by (auto simp: routed_winner_def split: list.splits)
  moreover have "\<forall>x\<in>set (admitted_candidates req cs). \<not> is_preferred req x"
    using None by (simp add: find_None_set)
  ultimately show ?thesis using sorted_admitted [of req cs] assms(2) by auto
next
  case (Some v)
  then have w: "v = w" using assms(1) by (simp add: routed_winner_def)
  then show ?thesis
    using Some assms(2) sorted_admitted [of req cs] find_sorted_least find_SomeD by metis
qed

lemma only_element:
  assumes "distinct ys" "set ys = {k}" shows "ys = [k]"
proof -
  have "length ys = 1" using assms distinct_card by fastforce
  then show ?thesis using assms(2) by (cases ys) auto
qed

lemma sort_key_unique:
  assumes "mset xs = mset ys" "distinct (map f xs)"
  shows "sort_key f xs = sort_key f ys"
proof (rule properties_for_sort_key)
  show "mset (sort_key f ys) = mset xs" using assms(1) by simp
  show "sorted (map f (sort_key f ys))" by simp
  fix k assume "k \<in> set (sort_key f ys)"
  then have "k \<in> set xs" using assms(1) mset_eq_setD by fastforce
  have inj: "inj_on f (set xs)" using assms(2) by (simp add: distinct_map)
  have one: "filter (\<lambda>x. f k = f x) zs = [k]" if "mset zs = mset xs" for zs
  proof -
    have dz: "distinct zs" "set zs = set xs"
      using that assms(2) distinct_map mset_eq_imp_distinct_iff mset_eq_setD by blast+
    show ?thesis
    proof (rule only_element)
      show "distinct (filter (\<lambda>x. f k = f x) zs)" using dz(1) by simp
      show "set (filter (\<lambda>x. f k = f x) zs) = {k}"
        using inj dz(2) \<open>k \<in> set xs\<close> by (auto dest: inj_onD)
    qed
  qed
  show "filter (\<lambda>x. f k = f x) (sort_key f ys) = filter (\<lambda>x. f k = f x) xs"
    using one [of "sort_key f ys"] one [of xs] assms(1) by simp
qed

text \<open>In a returned order the dependencies of a unit stand before it.\<close>

lemma order_prefix:
  assumes "TopologicalWorkUnits units = Inr us" "i < length us"
  shows "set (wu_DependsOn (us ! i)) \<subseteq> wu_ID ` set (take i us)"
proof -
  note s = topological_order_sound [OF assms(1)]
  have "us ! i \<in> set units" using assms(2) s(4) by (metis nth_mem set_mset_mset)
  then have "deps_of (unit_graph units) (wu_ID (us ! i)) = wu_DependsOn (us ! i)"
    by (intro deps_of_mem [OF s(1)]) (auto simp: unit_graph_def)
  moreover have "set (deps_of (unit_graph units) (map wu_ID us ! i)) \<subseteq> set (take i (map wu_ID us))"
    using s(3) assms(2) unfolding topological_def by simp
  ultimately show ?thesis using assms(2) by (simp add: take_map)
qed

lemma ordered_checked: "TopologicalWorkUnits units = Inr us \<Longrightarrow> topology_checks units = None"
  by (auto simp: TopologicalWorkUnits_def split: option.splits)

section \<open>Contracts\<close>

text \<open>A valid contract revision with stable criteria has exactly one criterion per success
  criterion, in order: each belongs to this revision, is numbered by its place, and no id is used
  twice; every evidence expectation names one of them and says what it expects.\<close>

theorem contract_criteria_stable:
  assumes "ContractRevision_Validate r = None" "cr_Criteria r \<noteq> []"
  shows "map cc_Position (cr_Criteria r) = [1..int (length (cr_SuccessCriteria r))] \<and>
         map (trim_space \<circ> cc_Text) (cr_Criteria r) = map trim_space (cr_SuccessCriteria r) \<and>
         distinct (map cc_ID (cr_Criteria r)) \<and>
         (\<forall>c\<in>set (cr_Criteria r). cc_ContractRevisionID c = cr_ID r) \<and>
         (\<forall>e\<in>set (cr_EvidenceExpectations r).
            ee_CriterionID e \<in> cc_ID ` set (cr_Criteria r) \<and> ee_Descriptions e \<noteq> [])"
proof (intro conjI)
  note c = contract_valid_criteria [OF assms]
  show "map cc_Position (cr_Criteria r) = [1..int (length (cr_SuccessCriteria r))]"
    using c(1,3) by (intro nth_equalityI) auto
  show "map (trim_space \<circ> cc_Text) (cr_Criteria r) = map trim_space (cr_SuccessCriteria r)"
    using c(1,3) by (intro nth_equalityI) auto
  show "\<forall>c\<in>set (cr_Criteria r). cc_ContractRevisionID c = cr_ID r"
    using c(3) by (auto simp: all_set_conv_all_nth)
  show "distinct (map cc_ID (cr_Criteria r))" by (rule c(2))
  show "\<forall>e\<in>set (cr_EvidenceExpectations r). ee_CriterionID e \<in> cc_ID ` set (cr_Criteria r) \<and>
      ee_Descriptions e \<noteq> []"
    using contract_valid_expectations [OF assms] by blast
qed

lemma contract_criteria_stable_witness:
  "distinct (map cc_ID (cr_Criteria sample_contract))"
  using contract_criteria_stable [OF sample_contract_valid] by (simp add: sample_contract_def)

section \<open>Routing\<close>

text \<open>C19: Routing recommends exactly when some candidate passes every requirement; what it
  recommends is such a candidate, a preferred one whenever a preferred one passes, and among those
  the one whose id is least.\<close>

theorem routing_recommends_best:
  "rd_Status (RouteExecution req cs snap) = DecisionRecommended \<longleftrightarrow>
     (\<exists>w\<in>set cs. rejections req w = [] \<and>
        rd_RecommendedCandidateID (RouteExecution req cs snap) = rc_ID w \<and>
        rd_RecommendedProvider (RouteExecution req cs snap) = rc_Provider w \<and>
        (\<forall>c\<in>set cs. rejections req c = [] \<longrightarrow>
           (is_preferred req c \<longrightarrow> is_preferred req w) \<and>
           (is_preferred req c = is_preferred req w \<longrightarrow> rc_ID w \<le> rc_ID c)))"
  (is "?l \<longleftrightarrow> ?r")
proof
  assume ?l
  then obtain w where w: "routed_winner req cs = Some w" using routed_status by (metis not_Some_eq)
  have "w \<in> set cs" "rejections req w = []"
    using routed_winner_admitted [OF w] admitted_facts(1,2) by auto
  moreover have "(is_preferred req c \<longrightarrow> is_preferred req w) \<and>
      (is_preferred req c = is_preferred req w \<longrightarrow> rc_ID w \<le> rc_ID c)"
    if "c \<in> set cs" "rejections req c = []" for c
  proof -
    have "c \<in> set (admitted_candidates req cs)" using that by (simp add: admitted_candidates_def)
    then show ?thesis using routed_winner_best [OF w] by blast
  qed
  ultimately show ?r using routed_fields(2,3) [OF w] by blast
next
  assume ?r
  then have "admitted_candidates req cs \<noteq> []" by (auto simp: admitted_candidates_def filter_empty_conv)
  then show ?l using routed_status routed_winner_None by metis
qed

lemma routing_recommends_best_witness:
  "\<exists>w\<in>set sample_candidates. rejections sample_requirements w = [] \<and>
     rd_RecommendedCandidateID sample_decision = rc_ID w"
proof -
  have "rd_Status sample_decision = DecisionRecommended" by code_simp
  then show ?thesis
    using routing_recommends_best [of sample_requirements sample_candidates "''snap''"]
    unfolding sample_decision_def by blast
qed

text \<open>With distinct candidate ids the decision does not depend on the order in which the
  candidates are listed.\<close>

theorem routing_deterministic:
  assumes "mset cs = mset ds" "distinct (map rc_ID cs)"
  shows "RouteExecution req cs snap = RouteExecution req ds snap"
proof -
  have "sort_key rc_ID cs = sort_key rc_ID ds"
    using assms by (intro sort_key_unique)
  then show ?thesis by (simp add: RouteExecution_def admitted_candidates_def)
qed

lemma routing_deterministic_witness:
  "RouteExecution sample_requirements sample_candidates ''snap'' =
   RouteExecution sample_requirements (rev sample_candidates) ''snap''"
  by (rule routing_deterministic) (simp_all add: sample_candidates_def sample_candidate_def)

section \<open>Plans\<close>

text \<open>C15: Ordering the work units of a plan succeeds exactly when ids and dependencies are well
  formed and the dependencies have no cycle; the order holds every unit once, and each unit stands
  after all the units it depends on.\<close>

theorem serial_order_correct:
  "(\<exists>us. TopologicalWorkUnits units = Inr us) =
     (topology_checks units = None \<and> acyclic (edges (unit_graph units))) \<and>
   (\<forall>us. TopologicalWorkUnits units = Inr us \<longrightarrow> mset us = mset units \<and>
      (\<forall>i<length us. set (wu_DependsOn (us ! i)) \<subseteq> wu_ID ` set (take i us)))"
proof (intro conjI allI impI)
  show "(\<exists>us. TopologicalWorkUnits units = Inr us) =
      (topology_checks units = None \<and> acyclic (edges (unit_graph units)))"
    using topological_order_complete topological_order_sound(2) ordered_checked by metis
  fix us assume us: "TopologicalWorkUnits units = Inr us"
  show "mset us = mset units" using topological_order_sound(4) [OF us] .
  fix i assume "i < length us"
  then show "set (wu_DependsOn (us ! i)) \<subseteq> wu_ID ` set (take i us)"
    using order_prefix [OF us] by blast
qed

lemma serial_order_correct_witness: "mset sample_order = mset sample_units"
  using serial_order_correct [of sample_units] sample_topological by blast

text \<open>C16: The serial order depends on the set of work units only, not on how the plan lists them,
  and so does the digest that freezes the approved run brief.\<close>

theorem serial_order_canonical:
  assumes "mset us = mset vs" "TopologicalWorkUnits us = Inr order"
  shows "TopologicalWorkUnits vs = Inr order \<and>
         (PlanRevision_Validate (digest_plan r us grants) = None \<and>
          PlanRevision_Validate (digest_plan r vs grants) = None \<longrightarrow>
            ComputePlanRunBriefCoreDigest digest r us grants = ComputePlanRunBriefCoreDigest digest r vs grants)"
  using topological_order_permute [OF assms] assms(2)
  by (auto simp: ComputePlanRunBriefCoreDigest_def split: option.splits)

lemma serial_order_canonical_witness: "TopologicalWorkUnits (rev sample_units) = Inr sample_order"
  using serial_order_canonical [OF _ sample_topological, of "rev sample_units"] by simp

text \<open>C14: A plan accepted for approval binds the given contract revision, covers exactly its
  criteria, can be ordered serially, and gives every work unit an executable binding that is the
  recommendation of its one routing decision, with every capability the unit requires granted.\<close>

theorem approval_exact:
  assumes "ValidateForApproval p r = None"
  shows "pr_OutcomeID p = cr_OutcomeID r \<and> pr_ContractRevisionNumber p = cr_Number r \<and>
         (\<Union>u\<in>set (pr_WorkUnits p). set (wu_CriterionIDs u)) = cc_ID ` set (cr_Criteria r) \<and>
         (\<exists>order. TopologicalWorkUnits (pr_WorkUnits p) = Inr order) \<and>
         wr_WorkUnitID ` set (pr_RoutingDecisions p) = wu_ID ` set (pr_WorkUnits p) \<and>
         (\<forall>u\<in>set (pr_WorkUnits p). \<exists>b d. ExecutionBindingForNewWork u = Inr b \<and>
            routing_record p (wu_ID u) = Some d \<and> RecommendedBinding (wr_Decision d) = Some b \<and>
            set (wu_RequiredCapabilities u) \<subseteq> cg_Name ` set (pr_Grants p))"
proof (intro conjI ballI)
  note c = approved_against_contract [OF assms]
  show "pr_OutcomeID p = cr_OutcomeID r" "pr_ContractRevisionNumber p = cr_Number r"
    by (rule c(1), rule c(2))
  show "(\<Union>u\<in>set (pr_WorkUnits p). set (wu_CriterionIDs u)) = cc_ID ` set (cr_Criteria r)"
    using c(3,4) by fast
  have "PlanRevision_Validate p = None" using assms by (simp add: ValidateForApproval_def guards)
  then show "\<exists>order. TopologicalWorkUnits (pr_WorkUnits p) = Inr order" by (rule plan_valid_order) blast
  show "wr_WorkUnitID ` set (pr_RoutingDecisions p) = wu_ID ` set (pr_WorkUnits p)"
    by (rule approved_routing_exact [OF assms])
  fix u assume "u \<in> set (pr_WorkUnits p)"
  then show "\<exists>b d. ExecutionBindingForNewWork u = Inr b \<and> routing_record p (wu_ID u) = Some d \<and>
      RecommendedBinding (wr_Decision d) = Some b \<and>
      set (wu_RequiredCapabilities u) \<subseteq> cg_Name ` set (pr_Grants p)"
    using approved_unit_binding [OF assms] by metis
qed

lemma approval_exact_witness:
  "(\<Union>u\<in>set (pr_WorkUnits sample_plan). set (wu_CriterionIDs u)) = cc_ID ` set (cr_Criteria sample_contract)"
  by (rule approval_exact [OF sample_plan_approvable, THEN conjunct2, THEN conjunct2, THEN conjunct1])

text \<open>A plan's grants are accepted as least privilege exactly when the granted names are the
  required ones, neither more nor fewer, both read without surrounding white space.\<close>

theorem grants_least_privilege:
  "ValidateExactPlanCapabilityGrants grants units = None \<longleftrightarrow>
     {trim_space (cg_Name g) | g. g \<in> set grants \<and> \<not> blank (cg_Name g)} =
     {trim_space n | n u. u \<in> set units \<and> n \<in> set (wu_RequiredCapabilities u) \<and> \<not> blank n}"
proof -
  have granted: "set (trimmed_nonblank (map cg_Name grants)) =
      {trim_space (cg_Name g) | g. g \<in> set grants \<and> \<not> blank (cg_Name g)}"
    by (auto simp: trimmed_nonblank_def blank_iff)
  have "ValidateExactPlanCapabilityGrants grants units = None \<longleftrightarrow>
      set (trimmed_nonblank (map cg_Name grants)) = set (RequiredPlanCapabilities units)"
    by (auto simp: ValidateExactPlanCapabilityGrants_def Let_def filter_empty_conv)
  then show ?thesis by (simp only: granted set_required_capabilities)
qed

text \<open>Grants pass the fail-closed check against the intersection of the authority layers
  exactly when every layer allows every granted name.\<close>

theorem grants_fail_closed:
  assumes "layers \<noteq> []"
  shows "GrantsFailClosed grants (AuthorityIntersection layers) = None \<longleftrightarrow>
         (\<forall>g\<in>set grants. \<forall>l\<in>set layers. cg_Name g \<in> set l)"
  using assms
  by (cases layers) (auto simp: GrantsFailClosed_def AuthorityIntersection_def guards set_intersect_layers)

lemma grants_fail_closed_witness:
  "GrantsFailClosed sample_grants (AuthorityIntersection [[CapabilityWorktreeRead, CapabilityWorktreeExec]]) = None \<longleftrightarrow>
   (\<forall>g\<in>set sample_grants. \<forall>l\<in>set [[CapabilityWorktreeRead, CapabilityWorktreeExec]]. cg_Name g \<in> set l)"
  by (rule grants_fail_closed) simp

text \<open>A check an owner approves is a bare command: its executable is named without any path
  separator or NUL, is not a shell whatever its case, no argument is invisible, and its time limit
  lies between 1 and 900 seconds.\<close>

theorem approved_check_bare:
  assumes "ApprovedCheck_Validate c = None"
  shows "\<exists>exe args. ac_Argv c = exe # args \<and> exe \<noteq> [] \<and> trim_space exe = exe \<and>
           set exe \<inter> {CHR 0x2F, CHR 0x5C, CHR 0x00} = {} \<and> to_lower exe \<notin> set shell_names \<and>
           (\<forall>a\<in>set args. CHR 0x00 \<notin> set a \<and> \<not> blank a) \<and>
           0 < ac_TimeoutSeconds c \<and> ac_TimeoutSeconds c \<le> 900"
proof -
  obtain exe args where "ac_Argv c = exe # args" "exe \<noteq> []" "trim_space exe = exe"
      "CHR 0x2F \<notin> set exe" "CHR 0x5C \<notin> set exe" "CHR 0x00 \<notin> set exe"
      "to_lower exe \<notin> set shell_names" "\<forall>a\<in>set args. CHR 0x00 \<notin> set a \<and> \<not> blank a"
      "0 < ac_TimeoutSeconds c" "ac_TimeoutSeconds c \<le> 900"
    by (rule approved_check_command [OF assms])
  then show ?thesis by (intro exI [of _ exe] exI [of _ args]) simp
qed

lemma sample_check_valid: "ApprovedCheck_Validate sample_check = None" by code_simp

lemma approved_check_bare_witness:
  "\<exists>exe args. ac_Argv sample_check = exe # args \<and> to_lower exe \<notin> set shell_names"
  using approved_check_bare [OF sample_check_valid] by blast



section \<open>Execution policies\<close>

text \<open>C17: The policy of an attempt grants exactly the capabilities its work unit requires, each
  taken from a grant of the plan, and carries exactly the unit's approved checks; it is attributed
  to the outcome, plan and unit it was built from, and it is valid.\<close>

theorem policy_exact:
  assumes "BuildAttemptExecutionPolicy oid plan u digest = Inr p"
  shows "ExecutionPolicy_Validate p = None \<and>
         set (ep_RequiredCapabilities p) = {trim_space n | n. n \<in> set (wu_RequiredCapabilities u) \<and> \<not> blank n} \<and>
         map cg_Name (ep_Grants p) = ep_RequiredCapabilities p \<and>
         (\<forall>g\<in>set (ep_Grants p). \<exists>h\<in>set (pr_Grants plan). cg_ID g = cg_ID h \<and>
            cg_Name g = trim_space (cg_Name h) \<and> cg_Scope g = trim_space (cg_Scope h)) \<and>
         set (ep_ApprovedChecks p) = set (wu_Checks u) \<and>
         ep_OutcomeID p = oid \<and> ep_PlanRevisionID p = pr_ID plan \<and> ep_WorkUnitID p = wu_ID u"
  using built_policy_valid [OF assms] built_policy_fields [OF assms]
    policy_grants_from_plan [OF built_policy_fields(6) [OF assms]]
  by (auto simp: uniqueSortedStrings_def blank_iff)

lemma policy_exact_witness: "ExecutionPolicy_Validate sample_policy = None"
  using policy_exact [OF sample_policy_built] by blast

text \<open>A policy is bound to one workspace root for good: binding a bound policy again succeeds
  only with a root that resolves to the same directory, and changes nothing.\<close>

theorem workspace_root_fixed:
  assumes "BindWorkspaceRoot resolve p root = Inr q" "ep_WorkspaceRoot q \<noteq> []"
    and "BindWorkspaceRoot resolve' q root' = Inr q'"
  shows "q' = q \<and> resolved_root resolve' root' = resolved_root resolve root"
  using assms by (auto simp: BindWorkspaceRoot_def Let_def split: if_splits option.splits)

definition sample_bound :: execution_policy where
  "sample_bound = sample_policy\<lparr>ep_WorkspaceRoot := ''/w''\<rparr>"

lemma sample_bound_root:
  "BindWorkspaceRoot Some sample_policy ''/w'' = Inr sample_bound"
  "BindWorkspaceRoot Some sample_bound ''/w/x/..'' = Inr sample_bound"
  by code_simp+

lemma workspace_root_fixed_witness:
  "resolved_root Some ''/w/x/..'' = resolved_root Some ''/w''"
proof -
  have "ep_WorkspaceRoot sample_bound \<noteq> []" by code_simp
  then show ?thesis
    using workspace_root_fixed [OF sample_bound_root(1) _ sample_bound_root(2)] by blast
qed
end
