(* ===== verification/Attempt_Properties.thy ===== *)
theory Attempt_Properties imports Receipt begin

text \<open>
  The properties of the pure attempt rules: what the presentation may claim, which commands admit
  work, where the path of an artifact can lead, and what an artifact version identifies.
\<close>





text \<open>A command leads to an intent that admits work exactly for a start from any intent that is
  not running and for a resume of a paused one; a cancelled run admits nothing until a new start.\<close>

theorem work_needs_start_or_resume:
  "(\<exists>d'. NextRunIntent d c = Some d' \<and> AdmitsWork d') \<longleftrightarrow>
     c = CmdStart \<and> d \<noteq> RunRunning \<or> c = CmdResume \<and> d = RunPaused"
  by (auto simp: AdmitsWork_def next_run_intent_running)

text \<open>C20: The path of a valid artifact never leaves the workspace: walked from any directory it
  descends at every component, so each directory on the way lies below the one it started from.\<close>

theorem artifact_path_confined:
  assumes "ArtifactFile_Validate f = None"
    and "components = split_on slash (replace_char backslash slash (trim_space (fl_RelativePath f)))"
  shows "\<forall>n\<le>length components. walk dir (take n components) = rev (take n components) @ dir"
proof (intro allI impI)
  fix n assume "n \<le> length components"
  have "validateArtifactPath (fl_RelativePath f) = None"
    using assms(1) by (simp add: ArtifactFile_Validate_def guards)
  then have "\<forall>w\<in>set components. w \<noteq> [] \<and> w \<noteq> ''.'' \<and> w \<noteq> ''..''"
    using artifact_path_components(1) assms(2) by blast
  then have "\<forall>w\<in>set (take n components). w \<noteq> [] \<and> w \<noteq> ''.'' \<and> w \<noteq> ''..''"
    by (meson in_set_takeD)
  then show "walk dir (take n components) = rev (take n components) @ dir" by (rule walk_ordinary)
qed

definition sample_file :: artifact_file where
  "sample_file = \<lparr>fl_ID = ''f1'', fl_AttemptID = ''a1'', fl_RelativePath = ''src/main.go'',
     fl_ChangeKind = ArtifactAdded, fl_ContentDigest = ''d'', fl_SizeBytes = Some 3,
     fl_FileMode = None, fl_IsBinary = False, fl_UnsupportedReason = []\<rparr>"

lemma artifact_path_confined_witness:
  "walk [''w''] [''src'', ''main.go''] = [''main.go'', ''src'', ''w'']"
proof -
  have v: "ArtifactFile_Validate sample_file = None" by code_simp
  have c: "[''src'', ''main.go''] =
      split_on slash (replace_char backslash slash (trim_space (fl_RelativePath sample_file)))"
    by code_simp
  show ?thesis using artifact_path_confined [OF v c, of "[''w'']"] by force
qed

text \<open>C21: The bytes an artifact version hashes are the same for two file lists exactly when the
  lists hold the same files up to order and row ids: with a collision-free hash a version
  identifies what was produced.\<close>

theorem artifact_version_identifies:
  assumes "representable fs" "representable gs"
  shows "manifest_bytes fs = manifest_bytes gs \<longleftrightarrow>
         mset (map artifact_identity fs) = mset (map artifact_identity gs)"
proof -
  have "mset (map manifest_entry fs) = mset (map manifest_entry gs) \<longleftrightarrow>
      mset (map artifact_identity fs) = mset (map artifact_identity gs)"
  proof
    assume "mset (map manifest_entry fs) = mset (map manifest_entry gs)"
    then have "image_mset manifest_entry (mset fs) = image_mset manifest_entry (mset gs)" by simp
    then have "image_mset artifact_identity (mset fs) = image_mset artifact_identity (mset gs)"
    proof (rule image_mset_eq_transfer)
      fix f g assume "f \<in># mset fs" "g \<in># mset gs" "manifest_entry f = manifest_entry g"
      then show "artifact_identity f = artifact_identity g"
        using assms by (intro manifest_entry_inject) (auto simp: representable_def)
    qed
    then show "mset (map artifact_identity fs) = mset (map artifact_identity gs)" by simp
  next
    assume "mset (map artifact_identity fs) = mset (map artifact_identity gs)"
    then have "image_mset artifact_identity (mset fs) = image_mset artifact_identity (mset gs)" by simp
    then have "image_mset manifest_entry (mset fs) = image_mset manifest_entry (mset gs)"
      by (rule image_mset_eq_transfer) (rule manifest_entry_cong)
    then show "mset (map manifest_entry fs) = mset (map manifest_entry gs)" by simp
  qed
  then show ?thesis using manifest_bytes_entries [OF assms] by simp
qed

lemma artifact_version_identifies_witness:
  "manifest_bytes [sample_file] = manifest_bytes [sample_file\<lparr>fl_ID := ''f2''\<rparr>]"
proof -
  have "representable [sample_file]" "representable [sample_file\<lparr>fl_ID := ''f2''\<rparr>]"
    by (simp_all add: representable_def manifest_entry_def manifest_values_def manifest_field_def
        optional_number_def decimal_def decimal_nat.simps sample_file_def)
  from artifact_version_identifies [OF this] show ?thesis by (simp add: artifact_identity_def)
qed

end
