(* ===== verification/Proof.thy ===== *)
theory Proof
  imports Plan_Revision
begin

text \<open>
  Proof records (internal/domain/outcome_proof.go): evidence, verification runs, the owner's
  acceptance decisions and corrections, each with its \<^verbatim>\<open>Validate\<close> method; the
  independence of verifications and the batched acceptance of contributing outcomes
  (outcome_parent_proof.go). The named string types of the source are datatypes whose last
  constructor keeps a value outside the declared constants.
\<close>

section \<open>Evidence\<close>

datatype proof_subject = ProofSubjectOutcome | ProofSubjectContract | ProofSubjectPlan
  | ProofSubjectWorkUnit | ProofSubjectAttempt | ProofSubjectOther string

fun ProofSubjectType_valid :: "proof_subject \<Rightarrow> bool" where
  "ProofSubjectType_valid (ProofSubjectOther _) = False"
| "ProofSubjectType_valid _ = True"

datatype evidence_kind = EvidenceSupporting | EvidenceContradicting | EvidenceKindOther string

datatype evidence_source = EvidenceSourceArtifact | EvidenceSourceDeterministicCheck
  | EvidenceSourceProviderOutput | EvidenceSourceOwnerWalkthrough | EvidenceSourceOther string

datatype evidence_producer = EvidenceProducerUser | EvidenceProducerProvider | EvidenceProducerTool
  | EvidenceProducerOther string

record evidence_item =
  ev_ID :: ident
  ev_OutcomeID :: ident
  ev_ContractRevisionID :: ident
  ev_CriterionID :: ident
  ev_SubjectType :: proof_subject
  ev_SubjectID :: string
  ev_SubjectRevision :: string
  ev_Kind :: evidence_kind
  ev_SourceType :: evidence_source
  ev_SourceRef :: string
  ev_ProducerType :: evidence_producer
  ev_ProducerRef :: string
  ev_Summary :: string
  ev_ContentDigest :: string
  ev_RequestKey :: string
  ev_RequestFingerprint :: string
  ev_CreatedAt :: instant

definition EvidenceItem_Validate :: "evidence_item \<Rightarrow> validation" where
  "EvidenceItem_Validate e = first_error
     [refuse (blank (ev_ID e)) (Errorf ''evidence item id is required'' []),
      refuse (blank (ev_OutcomeID e)) (Errorf ''evidence outcome id is required'' []),
      refuse (blank (ev_ContractRevisionID e))
        (Errorf ''evidence contract revision id is required'' []),
      refuse (blank (ev_CriterionID e)) (Errorf ''evidence criterion id is required'' []),
      refuse (\<not> ProofSubjectType_valid (ev_SubjectType e))
        (Errorf ''evidence subject type is invalid'' []),
      refuse (blank (ev_SubjectID e)) (Errorf ''evidence subject id is required'' []),
      refuse (blank (ev_SubjectRevision e)) (Errorf ''evidence subject revision is required'' []),
      refuse (ev_Kind e \<noteq> EvidenceSupporting \<and> ev_Kind e \<noteq> EvidenceContradicting)
        (Errorf ''evidence kind is invalid'' []),
      (case ev_SourceType e of
         EvidenceSourceOther s \<Rightarrow>
           Some (Errorf (if blank s then ''evidence source type is required''
                         else ''evidence source type is invalid'') [])
       | _ \<Rightarrow> None),
      refuse (blank (ev_SourceRef e)) (Errorf ''evidence source provenance is required'' []),
      (case ev_ProducerType e of
         EvidenceProducerOther s \<Rightarrow> Some (Errorf ''evidence producer type is invalid'' [])
       | _ \<Rightarrow> None),
      refuse (blank (ev_ProducerRef e)) (Errorf ''evidence producer reference is required'' []),
      refuse (blank (ev_Summary e)) (Errorf ''evidence summary is required'' []),
      refuse (\<not> isSHA256Hex (ev_ContentDigest e))
        (Errorf ''evidence content digest must be 64 hexadecimal characters'' []),
      refuse (blank (ev_RequestKey e)) (Errorf ''evidence request key is required'' []),
      refuse (\<not> isSHA256Hex (ev_RequestFingerprint e))
        (Errorf ''evidence request fingerprint must be 64 hexadecimal characters'' [])]"

section \<open>Verification\<close>

datatype independence = VerificationDeterministic | VerificationProducerSelfCheck
  | VerificationSeparateSession | VerificationCrossProvider | VerificationOwnerWalkthrough
  | IndependenceOther string

datatype verification_result = VerificationPassed | VerificationFailed | VerificationInconclusive
  | VerificationException | VerificationResultOther string

record verification_run =
  vr_ID :: ident
  vr_OutcomeID :: ident
  vr_ContractRevisionID :: ident
  vr_CriterionID :: ident
  vr_SubjectType :: proof_subject
  vr_SubjectID :: string
  vr_SubjectRevision :: string
  vr_EvidenceItemIDs :: "ident list"
  vr_Method :: string
  vr_IndependenceClass :: independence
  vr_Result :: verification_result
  vr_ProducerRef :: string
  vr_VerifierRef :: string
  vr_ProducerProvider :: string
  vr_VerifierProvider :: string
  vr_Detail :: string
  vr_RequestKey :: string
  vr_RequestFingerprint :: string
  vr_CreatedAt :: instant

definition independence_check :: "verification_run \<Rightarrow> validation" where
  "independence_check v =
     (case vr_IndependenceClass v of
        VerificationDeterministic \<Rightarrow> None
      | VerificationOwnerWalkthrough \<Rightarrow> None
      | VerificationProducerSelfCheck \<Rightarrow>
          refuse (blank (vr_ProducerRef v) \<or> vr_VerifierRef v \<noteq> vr_ProducerRef v)
            (Errorf ''producer self-check must identify the producer as verifier'' [])
      | VerificationSeparateSession \<Rightarrow>
          refuse (blank (vr_ProducerRef v) \<or> vr_VerifierRef v = vr_ProducerRef v)
            (Errorf ''separate-session review requires a different verifier session'' [])
      | VerificationCrossProvider \<Rightarrow>
          refuse (blank (vr_ProducerProvider v) \<or> blank (vr_VerifierProvider v) \<or>
                  vr_ProducerProvider v = vr_VerifierProvider v)
            (Errorf ''cross-provider review requires a different provider'' [])
      | IndependenceOther _ \<Rightarrow> Some (Errorf ''verification independence class is invalid'' []))"

definition VerificationRun_Validate :: "verification_run \<Rightarrow> validation" where
  "VerificationRun_Validate v = first_error
     [refuse (blank (vr_ID v)) (Errorf ''verification run id is required'' []),
      refuse (blank (vr_OutcomeID v) \<or> blank (vr_ContractRevisionID v) \<or> blank (vr_CriterionID v))
        (Errorf ''verification outcome, contract revision, and criterion are required'' []),
      refuse (\<not> ProofSubjectType_valid (vr_SubjectType v) \<or> blank (vr_SubjectID v) \<or>
              blank (vr_SubjectRevision v))
        (Errorf ''verification exact subject revision is required'' []),
      refuse (vr_EvidenceItemIDs v = []) (Errorf ''verification requires bound evidence'' []),
      refuse (blank (vr_Method v)) (Errorf ''verification method is required'' []),
      (case vr_Result v of
         VerificationResultOther _ \<Rightarrow> Some (Errorf ''verification result is invalid'' [])
       | _ \<Rightarrow> None),
      refuse (blank (vr_VerifierRef v)) (Errorf ''verification verifier reference is required'' []),
      refuse (blank (vr_RequestKey v) \<or> \<not> isSHA256Hex (vr_RequestFingerprint v))
        (Errorf ''verification idempotency identity is required'' []),
      independence_check v,
      refuse (vr_Result v = VerificationException \<and> blank (vr_Detail v))
        (Errorf ''verification exception requires detail'' [])]"

definition IsIndependent :: "verification_run \<Rightarrow> bool" where
  "IsIndependent v = (vr_IndependenceClass v \<noteq> VerificationProducerSelfCheck)"

text \<open>A valid run that claims to be independent of its producer by session or by provider
  names a different one.\<close>

lemma independence_truthful:
  assumes "VerificationRun_Validate v = None"
  shows "vr_IndependenceClass v = VerificationProducerSelfCheck \<Longrightarrow> vr_VerifierRef v = vr_ProducerRef v"
    and "vr_IndependenceClass v = VerificationSeparateSession \<Longrightarrow> vr_VerifierRef v \<noteq> vr_ProducerRef v"
    and "vr_IndependenceClass v = VerificationCrossProvider \<Longrightarrow>
           vr_VerifierProvider v \<noteq> vr_ProducerProvider v"
  using assms by (auto simp: VerificationRun_Validate_def independence_check_def guards)

section \<open>Decisions and corrections\<close>

datatype decision_kind = AcceptanceAccept | AcceptanceRequestRework | AcceptanceReopen
  | DecisionKindOther string

datatype actor_type = AcceptanceActorUser | ActorOther string

datatype resource_disposition = ResourceDispositionRetain | ResourceDispositionCleanupLater
  | ResourceDispositionNotApplicable | ResourceDispositionOther string

record acceptance_decision =
  dc_ID :: ident
  dc_OutcomeID :: ident
  dc_ContractRevisionID :: ident
  dc_Kind :: decision_kind
  dc_ActorType :: actor_type
  dc_Summary :: string
  dc_ResourceDisposition :: resource_disposition
  dc_RequestKey :: string
  dc_RequestFingerprint :: string
  dc_CreatedAt :: instant

definition AcceptanceDecision_Validate :: "acceptance_decision \<Rightarrow> validation" where
  "AcceptanceDecision_Validate d = first_error
     [refuse (blank (dc_ID d)) (Errorf ''acceptance decision id is required'' []),
      refuse (blank (dc_OutcomeID d) \<or> blank (dc_ContractRevisionID d))
        (Errorf ''acceptance outcome and contract revision are required'' []),
      (case dc_Kind d of
         DecisionKindOther _ \<Rightarrow> Some (Errorf ''acceptance decision kind is invalid'' [])
       | _ \<Rightarrow> None),
      refuse (dc_ActorType d \<noteq> AcceptanceActorUser)
        (Errorf ''only the user may create an acceptance decision'' []),
      refuse (blank (dc_Summary d)) (Errorf ''acceptance decision summary is required'' []),
      (case dc_ResourceDisposition d of
         ResourceDispositionOther _ \<Rightarrow> Some (Errorf ''acceptance resource disposition is invalid'' [])
       | _ \<Rightarrow> None),
      refuse (blank (dc_RequestKey d) \<or> \<not> isSHA256Hex (dc_RequestFingerprint d))
        (Errorf ''acceptance idempotency identity is required'' [])]"

datatype reentry_target = ReentryTargetAttempt | ReentryTargetWorkUnit | ReentryTargetPlan
  | ReentryTargetContract | ReentryTargetOther string

record outcome_correction =
  co_ID :: ident
  co_DecisionID :: ident
  co_OutcomeID :: ident
  co_ContractRevisionID :: ident
  co_Feedback :: string
  co_TargetType :: reentry_target
  co_TargetID :: string
  co_CreatedAt :: instant

definition OutcomeCorrection_Validate :: "outcome_correction \<Rightarrow> validation" where
  "OutcomeCorrection_Validate c = first_error
     [refuse (blank (co_ID c) \<or> blank (co_DecisionID c))
        (Errorf ''correction and decision ids are required'' []),
      refuse (blank (co_OutcomeID c) \<or> blank (co_ContractRevisionID c))
        (Errorf ''correction outcome and contract revision are required'' []),
      refuse (blank (co_Feedback c)) (Errorf ''correction feedback is required'' []),
      (case co_TargetType c of
         ReentryTargetOther _ \<Rightarrow> Some (Errorf ''correction re-entry target type is invalid'' [])
       | _ \<Rightarrow> None),
      refuse (blank (co_TargetID c)) (Errorf ''correction re-entry target id is required'' [])]"

lemma decision_facts:
  assumes "AcceptanceDecision_Validate d = None"
  shows "\<not> blank (dc_ID d)" "\<not> blank (dc_RequestKey d)" "dc_ActorType d = AcceptanceActorUser"
    "dc_Kind d \<in> {AcceptanceAccept, AcceptanceRequestRework, AcceptanceReopen}"
  using assms by (auto simp: AcceptanceDecision_Validate_def guards split: decision_kind.splits)

section \<open>Independence and batched acceptance\<close>

text \<open>The empty class, Go's zero value of the type.\<close>

abbreviation no_independence :: independence where "no_independence \<equiv> IndependenceOther []"

definition IndependenceSatisfies :: "independence \<Rightarrow> independence \<Rightarrow> bool" where
  "IndependenceSatisfies actual minimum =
     (if minimum = VerificationProducerSelfCheck \<or> minimum = no_independence
      then actual \<noteq> no_independence
      else if minimum = VerificationSeparateSession
      then actual \<noteq> no_independence \<and> actual \<noteq> VerificationProducerSelfCheck
      else actual = minimum)"

definition MinimumBatchIndependence :: independence where
  "MinimumBatchIndependence = VerificationSeparateSession"

fun independence_name :: "independence \<Rightarrow> string" where
  "independence_name VerificationDeterministic = ''deterministic''"
| "independence_name VerificationProducerSelfCheck = ''producer_self_check''"
| "independence_name VerificationSeparateSession = ''separate_session''"
| "independence_name VerificationCrossProvider = ''cross_provider''"
| "independence_name VerificationOwnerWalkthrough = ''owner_walkthrough''"
| "independence_name (IndependenceOther s) = s"

definition WeakestIndependence :: "independence list \<Rightarrow> independence" where
  "WeakestIndependence classes =
     (if classes = [] then no_independence
      else if VerificationProducerSelfCheck \<in> set classes then VerificationProducerSelfCheck
      else hd (sort_key independence_name classes))"

record contributor_facts =
  kf_OutcomeID :: ident
  kf_Title :: string
  kf_Ready :: bool
  kf_Accepted :: bool
  kf_Contradicted :: bool
  kf_Stale :: bool
  kf_BackingIndependence :: independence

record batch_verdict =
  bv_OutcomeID :: ident
  bv_Title :: string
  bv_Eligible :: bool
  bv_Reason :: string
  bv_Remedy :: string

definition independenceLabel :: "independence \<Rightarrow> string" where
  "independenceLabel c =
     (case c of
        VerificationProducerSelfCheck \<Rightarrow> ''the producer's own self-check''
      | VerificationSeparateSession \<Rightarrow> ''separate-session review''
      | VerificationCrossProvider \<Rightarrow> ''cross-provider review''
      | VerificationDeterministic \<Rightarrow> ''a deterministic check''
      | VerificationOwnerWalkthrough \<Rightarrow> ''an owner walkthrough''
      | IndependenceOther s \<Rightarrow> if s = [] then ''nothing'' else s)"

definition EligibleForAcceptanceBatch :: "contributor_facts \<Rightarrow> independence \<Rightarrow> batch_verdict" where
  "EligibleForAcceptanceBatch k minimum =
     (let verdict = (\<lambda>ok reason remedy. \<lparr>bv_OutcomeID = kf_OutcomeID k, bv_Title = kf_Title k,
            bv_Eligible = ok, bv_Reason = reason, bv_Remedy = remedy\<rparr>)
      in if kf_Accepted k then verdict False ''already accepted'' []
         else if kf_Contradicted k
         then verdict False ''its latest Evidence contradicts a criterion''
                ''Resolve the contradiction, then record fresh Evidence''
         else if kf_Stale k
         then verdict False ''bound to a superseded parent contract revision''
                ''Re-bind this contribution to the current contract''
         else if \<not> kf_Ready k
         then verdict False ''its criteria are not fully proved yet''
                ''Complete the remaining Evidence and Verification''
         else if \<not> IndependenceSatisfies (kf_BackingIndependence k) minimum
         then verdict False (''verified only by '' @ independenceLabel (kf_BackingIndependence k) @
                '', weaker than the '' @ independenceLabel minimum @ '' this batch requires'')
                ''Run an independent verifier for this contribution''
         else verdict True ''criteria are proved and independently verified'' [])"

lemma weakest_member: "classes \<noteq> [] \<Longrightarrow> WeakestIndependence classes \<in> set classes"
  by (auto simp: WeakestIndependence_def)
    (metis list.set_sel(1) set_sort sort_Nil_iff)

text \<open>The weakest class of a set meets the batch bar only when every class in it does.\<close>

lemma weakest_bounds:
  assumes "IndependenceSatisfies (WeakestIndependence classes) MinimumBatchIndependence"
    and "no_independence \<notin> set classes" and "c \<in> set classes"
  shows "IndependenceSatisfies c MinimumBatchIndependence"
  using assms
  by (auto simp: IndependenceSatisfies_def MinimumBatchIndependence_def WeakestIndependence_def
      split: if_splits)

lemma batch_eligible:
  "bv_Eligible (EligibleForAcceptanceBatch k m) \<longleftrightarrow>
     \<not> kf_Accepted k \<and> \<not> kf_Contradicted k \<and> \<not> kf_Stale k \<and> kf_Ready k \<and>
     IndependenceSatisfies (kf_BackingIndependence k) m"
  by (simp add: EligibleForAcceptanceBatch_def Let_def)

end
