(* ===== verification/Proof_View.thy ===== *)
theory Proof_View
  imports Proof
begin

text \<open>
  What the owner is shown of an outcome's proof: the readiness of a criterion and the proof
  projection (criterionReady and deriveProof of internal/service/outcome/proof.go), criteria
  delegated to contributing outcomes (internal/domain/outcome_parent_proof.go), and whether a
  contributor's own history accepts it (internal/domain/outcome_contribution_gating.go). Nothing here is stored: every value is
  computed from the append-only proof records.
\<close>

section \<open>The newest record\<close>

text \<open>The loops that keep a candidate and replace it by a strictly newer record; a candidate
  whose id is empty counts as none.\<close>

fun newest :: "('a \<Rightarrow> ident) \<Rightarrow> ('a \<Rightarrow> instant) \<Rightarrow> 'a option \<Rightarrow> 'a list \<Rightarrow> 'a option" where
  "newest key at cur [] = cur"
| "newest key at cur (x # xs) =
     newest key at
       (case cur of None \<Rightarrow> Some x
        | Some c \<Rightarrow> if key c = [] \<or> at x > at c then Some x else Some c) xs"

lemma newest_keyed:
  assumes "\<forall>x\<in>set xs. key x \<noteq> []" "key c \<noteq> []"
  shows "\<exists>m. newest key at (Some c) xs = Some m \<and> m \<in> insert c (set xs) \<and>
             (\<forall>x\<in>insert c (set xs). at x \<le> at m)"
  using assms
proof (induction xs arbitrary: c)
  case (Cons x xs)
  show ?case
  proof (cases "at x > at c")
    case True
    then show ?thesis using Cons.IH [of x] Cons.prems by force
  next
    case False
    then show ?thesis using Cons.IH [of c] Cons.prems by force
  qed
qed simp

lemma newest_Some:
  assumes "\<forall>x\<in>set xs. key x \<noteq> []" "newest key at None xs = Some m"
  shows "m \<in> set xs \<and> (\<forall>x\<in>set xs. at x \<le> at m)"
  using assms newest_keyed [of "tl xs" key "hd xs" at] by (cases xs) auto

lemma newest_None: 
  assumes "\<forall>x\<in>set xs. key x \<noteq> []"
  shows "newest key at None xs = None \<longleftrightarrow> xs = []"
  using assms newest_keyed [of "tl xs" key "hd xs" at] by (cases xs) auto

text \<open>When all instants differ, the newest record does not depend on the order of the list.\<close>

lemma newest_unique:
  assumes "\<forall>x\<in>set xs. key x \<noteq> []" "m \<in> set xs" "\<forall>x\<in>set xs. x \<noteq> m \<longrightarrow> at x < at m"
  shows "newest key at None xs = Some m"
proof -
  have "newest key at None xs \<noteq> None" using newest_None [OF assms(1)] assms(2) by auto
  then obtain m' where m': "newest key at None xs = Some m'" by auto
  from newest_Some [OF assms(1) m'] assms(2,3) show ?thesis using m' by force
qed

section \<open>Readiness of a criterion\<close>

record criterion_proof =
  cp_Criterion :: contract_criterion
  cp_Evidence :: "evidence_item list"
  cp_Verifications :: "verification_run list"
  cp_Ready :: bool
  cp_Gap :: string
  cp_Delegated :: bool
  cp_ClaimedBy :: "ident list"

definition evidence_eligible :: "instant \<Rightarrow> evidence_item \<Rightarrow> bool" where
  "evidence_eligible horizon e = (horizon = zero_time \<or> ev_CreatedAt e > horizon)"

definition verification_eligible :: "instant \<Rightarrow> evidence_item \<Rightarrow> verification_run \<Rightarrow> bool" where
  "verification_eligible horizon e v =
     (\<not> (horizon \<noteq> zero_time \<and> \<not> vr_CreatedAt v > horizon) \<and>
      \<not> vr_CreatedAt v < ev_CreatedAt e \<and> ev_ID e \<in> set (vr_EvidenceItemIDs v))"

definition criterionReady :: "criterion_proof \<Rightarrow> instant \<Rightarrow> bool \<times> string" where
  "criterionReady view horizon =
     (case newest ev_ID ev_CreatedAt None (filter (evidence_eligible horizon) (cp_Evidence view)) of
        None \<Rightarrow> (False, ''Add supporting Evidence for this criterion.'')
      | Some e \<Rightarrow>
          if ev_ID e = [] \<or> ev_Kind e \<noteq> EvidenceSupporting
          then (if ev_Kind e = EvidenceContradicting
                then (False, ''Resolve the latest contradicting Evidence.'')
                else (False, ''Add supporting Evidence for this criterion.''))
          else (case newest vr_ID vr_CreatedAt None
                       (filter (verification_eligible horizon e) (cp_Verifications view)) of
                  None \<Rightarrow> (False, ''Verify the latest supporting Evidence.'')
                | Some v \<Rightarrow>
                    if vr_ID v = [] then (False, ''Verify the latest supporting Evidence.'')
                    else if vr_Result v \<noteq> VerificationPassed \<and> vr_Result v \<noteq> VerificationException
                    then (False, ''Resolve the latest failed or inconclusive Verification.'')
                    else (True, [])))"

text \<open>What readiness rests on: the evidence and the verification that carry it.\<close>

lemma criterion_ready_witnesses:
  assumes ready: "fst (criterionReady view horizon)"
    and ids: "\<forall>e\<in>set (cp_Evidence view). ev_ID e \<noteq> []" "\<forall>v\<in>set (cp_Verifications view). vr_ID v \<noteq> []"
  obtains e v where "e \<in> set (cp_Evidence view)" "evidence_eligible horizon e"
    "ev_Kind e = EvidenceSupporting"
    "\<forall>e'\<in>set (cp_Evidence view). evidence_eligible horizon e' \<longrightarrow> ev_CreatedAt e' \<le> ev_CreatedAt e"
    "v \<in> set (cp_Verifications view)" "verification_eligible horizon e v"
    "vr_Result v = VerificationPassed \<or> vr_Result v = VerificationException"
    "\<forall>v'\<in>set (cp_Verifications view). verification_eligible horizon e v' \<longrightarrow>
       vr_CreatedAt v' \<le> vr_CreatedAt v"
proof -
  let ?es = "filter (evidence_eligible horizon) (cp_Evidence view)"
  from ready obtain e where e: "newest ev_ID ev_CreatedAt None ?es = Some e"
      "ev_Kind e = EvidenceSupporting"
    by (auto simp: criterionReady_def split: option.splits if_splits)
  let ?vs = "filter (verification_eligible horizon e) (cp_Verifications view)"
  from ready e obtain v where v: "newest vr_ID vr_CreatedAt None ?vs = Some v"
      "vr_Result v = VerificationPassed \<or> vr_Result v = VerificationException"
    by (auto simp: criterionReady_def split: option.splits if_splits)
  have "e \<in> set ?es \<and> (\<forall>x\<in>set ?es. ev_CreatedAt x \<le> ev_CreatedAt e)"
    using ids by (intro newest_Some [OF _ e(1)]) auto
  moreover have "v \<in> set ?vs \<and> (\<forall>x\<in>set ?vs. vr_CreatedAt x \<le> vr_CreatedAt v)"
    using ids by (intro newest_Some [OF _ v(1)]) auto
  ultimately show ?thesis using e v by (intro that [of e v]) auto
qed

lemma criterion_not_ready_without_evidence:
  "filter (evidence_eligible horizon) (cp_Evidence view) = [] \<Longrightarrow> \<not> fst (criterionReady view horizon)"
  by (simp add: criterionReady_def)

lemma criterionReady_cong:
  "cp_Evidence a = cp_Evidence b \<Longrightarrow> cp_Verifications a = cp_Verifications b \<Longrightarrow>
   criterionReady a h = criterionReady b h"
  unfolding criterionReady_def by (simp only:)

section \<open>Delegated criteria\<close>

record contribution_link =
  lk_ID :: ident
  lk_ParentOutcomeID :: ident
  lk_ChildOutcomeID :: ident
  lk_ParentContractRevisionID :: ident
  lk_ParentCriterionID :: ident
  lk_CreatedAt :: instant

record delegated_criterion =
  dg_CriterionID :: ident
  dg_ClaimedBy :: "ident list"
  dg_Proved :: bool
  dg_Gap :: string

fun joined :: "string list \<Rightarrow> string" where
  "joined [] = []"
| "joined [n] = n"
| "joined (n # ns) = n @ '', '' @ joined ns"

definition joinNames :: "string list \<Rightarrow> string" where
  "joinNames names = (if names = [] then ''nothing'' else joined (sort names))"

text \<open>The maps of accepted children and of titles read false and the empty string for a child
  they do not hold.\<close>

definition DelegatedCriteria ::
  "contract_revision \<Rightarrow> contribution_link list \<Rightarrow> (ident \<Rightarrow> bool) \<Rightarrow> (ident \<Rightarrow> string) \<Rightarrow>
   ident \<Rightarrow> delegated_criterion option" where
  "DelegatedCriteria current links accepted titles cid =
     (let claims = filter (\<lambda>l. lk_ParentContractRevisionID l = cr_ID current \<and>
                              lk_ParentCriterionID l = cid) links;
          claimed = sort (map lk_ChildOutcomeID claims);
          outstanding = map (\<lambda>c. if titles c = [] then c else titles c)
                          (filter (\<lambda>c. \<not> accepted c) claimed)
      in if claims = [] then None
         else Some \<lparr>dg_CriterionID = cid, dg_ClaimedBy = claimed, dg_Proved = (outstanding = []),
                    dg_Gap = (if outstanding = [] then []
                              else ''Accept '' @ joinNames outstanding @ '' to prove this criterion.'')\<rparr>)"

lemma delegated_proved:
  "DelegatedCriteria current links accepted titles cid = Some d \<Longrightarrow>
     dg_Proved d \<longleftrightarrow> (\<forall>l\<in>set links. lk_ParentContractRevisionID l = cr_ID current \<longrightarrow>
                        lk_ParentCriterionID l = cid \<longrightarrow> accepted (lk_ChildOutcomeID l))"
  by (auto simp: DelegatedCriteria_def Let_def filter_empty_conv split: if_splits)

lemma delegated_claimed:
  "DelegatedCriteria current links accepted titles cid = Some d \<Longrightarrow>
     set (dg_ClaimedBy d) = {lk_ChildOutcomeID l | l. l \<in> set links \<and>
       lk_ParentContractRevisionID l = cr_ID current \<and> lk_ParentCriterionID l = cid} \<and>
     dg_ClaimedBy d \<noteq> []"
  by (auto simp: DelegatedCriteria_def Let_def filter_empty_conv split: if_splits)

section \<open>The proof projection\<close>

record outcome_view =
  ov_Outcome :: outcome
  ov_Current :: contract_revision
  ov_History :: "contract_revision list"

datatype proof_status = ProofStatusActive | ProofStatusReadyForAcceptance | ProofStatusAccepted
  | ProofStatusReworkRequired

record proof_view =
  pv_OutcomeID :: ident
  pv_Contract :: contract_revision
  pv_Status :: proof_status
  pv_NextAction :: string
  pv_Criteria :: "criterion_proof list"
  pv_Decisions :: "acceptance_decision list"
  pv_Corrections :: "outcome_correction list"
  pv_ActiveCorrection :: "outcome_correction option"
  pv_ProofHorizon :: instant

text \<open>The instant of the newest rework or reopen decision, and that decision.\<close>

fun proof_horizon :: "instant \<times> ident \<Rightarrow> acceptance_decision list \<Rightarrow> instant \<times> ident" where
  "proof_horizon cur [] = cur"
| "proof_horizon cur (d # ds) =
     proof_horizon
       (if (dc_Kind d = AcceptanceRequestRework \<or> dc_Kind d = AcceptanceReopen) \<and>
           dc_CreatedAt d > fst cur then (dc_CreatedAt d, dc_ID d) else cur) ds"

definition criterion_view ::
  "outcome_view \<Rightarrow> evidence_item list \<Rightarrow> verification_run list \<Rightarrow> instant \<Rightarrow>
   (ident \<Rightarrow> delegated_criterion option) \<Rightarrow> contract_criterion \<Rightarrow> criterion_proof" where
  "criterion_view view evidence verifications horizon delegated c =
     (let own = \<lparr>cp_Criterion = c,
            cp_Evidence = filter (\<lambda>e. ev_ContractRevisionID e = cr_ID (ov_Current view) \<and>
                                    ev_CriterionID e = cc_ID c) evidence,
            cp_Verifications = filter (\<lambda>v. vr_ContractRevisionID v = cr_ID (ov_Current view) \<and>
                                    vr_CriterionID v = cc_ID c) verifications,
            cp_Ready = False, cp_Gap = ''Add supporting Evidence for this criterion.'',
            cp_Delegated = False, cp_ClaimedBy = []\<rparr>
      in case delegated (cc_ID c) of
           Some d \<Rightarrow> own\<lparr>cp_Delegated := True, cp_ClaimedBy := dg_ClaimedBy d,
                        cp_Ready := dg_Proved d, cp_Gap := dg_Gap d\<rparr>
         | None \<Rightarrow> (let (ready, gap) = criterionReady own horizon
                   in own\<lparr>cp_Ready := ready, cp_Gap := gap\<rparr>))"

definition last_decision_accepts :: "acceptance_decision list \<Rightarrow> bool" where
  "last_decision_accepts ds =
     (case rev ds of [] \<Rightarrow> False | d # _ \<Rightarrow> dc_Kind d = AcceptanceAccept)"

definition status_action :: "bool \<Rightarrow> bool \<Rightarrow> instant \<Rightarrow> proof_status \<times> string" where
  "status_action accepted all_ready horizon =
     (if accepted
      then (ProofStatusAccepted, ''Accepted. Reopen explicitly if the result needs more work.'')
      else if all_ready
      then (ProofStatusReadyForAcceptance,
            ''Review the current proof and explicitly accept or request rework.'')
      else if horizon \<noteq> zero_time
      then (ProofStatusReworkRequired,
            ''Follow the recorded correction, then add fresh Evidence and Verification.'')
      else (ProofStatusActive, ''Complete current criterion Evidence and Verification.''))"

definition deriveProof ::
  "outcome_view \<Rightarrow> evidence_item list \<Rightarrow> verification_run list \<Rightarrow> acceptance_decision list \<Rightarrow>
   outcome_correction list \<Rightarrow> (ident \<Rightarrow> delegated_criterion option) \<Rightarrow> proof_view" where
  "deriveProof view evidence verifications decisions corrections delegated =
     (let current = cr_ID (ov_Current view);
          ds = filter (\<lambda>d. dc_ContractRevisionID d = current) decisions;
          horizon = proof_horizon (zero_time, []) ds;
          cs = filter (\<lambda>c. co_ContractRevisionID c = current) corrections;
          active = (case rev (filter (\<lambda>c. co_DecisionID c = snd horizon) cs) of
                      [] \<Rightarrow> None | c # _ \<Rightarrow> Some c);
          views = map (criterion_view view evidence verifications (fst horizon) delegated)
                    (cr_Criteria (ov_Current view));
          all_ready = (cr_Criteria (ov_Current view) \<noteq> [] \<and> list_all cp_Ready views);
          result = status_action (last_decision_accepts ds) all_ready (fst horizon)
      in \<lparr>pv_OutcomeID = o_ID (ov_Outcome view), pv_Contract = ov_Current view,
          pv_Status = fst result, pv_NextAction = snd result, pv_Criteria = views, pv_Decisions = ds,
          pv_Corrections = cs, pv_ActiveCorrection = active, pv_ProofHorizon = fst horizon\<rparr>)"

lemma proof_horizon_mono: "fst cur \<le> fst (proof_horizon cur ds)"
  by (induction cur ds rule: proof_horizon.induct) (auto split: if_splits)

lemma proof_horizon_upper:
  "d \<in> set ds \<Longrightarrow> dc_Kind d = AcceptanceRequestRework \<or> dc_Kind d = AcceptanceReopen \<Longrightarrow>
   dc_CreatedAt d \<le> fst (proof_horizon cur ds)"
proof (induction cur ds rule: proof_horizon.induct)
  case (2 cur e ds)
  let ?next = "if (dc_Kind e = AcceptanceRequestRework \<or> dc_Kind e = AcceptanceReopen) \<and>
                  dc_CreatedAt e > fst cur then (dc_CreatedAt e, dc_ID e) else cur"
  from 2 show ?case
    using proof_horizon_mono [of ?next ds] by (cases "d = e") (auto split: if_splits)
qed simp

lemma proof_horizon_from:
  "proof_horizon cur ds = cur \<or>
   (\<exists>d\<in>set ds. (dc_Kind d = AcceptanceRequestRework \<or> dc_Kind d = AcceptanceReopen) \<and>
      proof_horizon cur ds = (dc_CreatedAt d, dc_ID d) \<and> fst cur < dc_CreatedAt d)"
  by (induction cur ds rule: proof_horizon.induct) (auto split: if_splits)

lemma proof_horizon_append:
  "proof_horizon cur (ds @ es) = proof_horizon (proof_horizon cur ds) es"
  by (induction cur ds rule: proof_horizon.induct) auto

text \<open>The fields of the projection, one by one.\<close>

lemma deriveProof_fields:
  fixes view evidence verifications decisions corrections delegated
  defines "p \<equiv> deriveProof view evidence verifications decisions corrections delegated"
    and "ds \<equiv> filter (\<lambda>d. dc_ContractRevisionID d = cr_ID (ov_Current view)) decisions"
  shows "pv_OutcomeID p = o_ID (ov_Outcome view)" "pv_Contract p = ov_Current view"
    "pv_Decisions p = ds" "pv_ProofHorizon p = fst (proof_horizon (zero_time, []) ds)"
    "pv_Criteria p = map (criterion_view view evidence verifications (pv_ProofHorizon p) delegated)
       (cr_Criteria (ov_Current view))"
    "pv_Status p =
       (if last_decision_accepts ds then ProofStatusAccepted
        else if cr_Criteria (ov_Current view) \<noteq> [] \<and> list_all cp_Ready (pv_Criteria p)
        then ProofStatusReadyForAcceptance
        else if pv_ProofHorizon p \<noteq> zero_time then ProofStatusReworkRequired
        else ProofStatusActive)"
  unfolding p_def ds_def deriveProof_def by (simp_all add: Let_def status_action_def)

lemma criterion_view_fields:
  "cp_Criterion (criterion_view view es vs h dg c) = c"
  "cp_Evidence (criterion_view view es vs h dg c) =
     filter (\<lambda>e. ev_ContractRevisionID e = cr_ID (ov_Current view) \<and> ev_CriterionID e = cc_ID c) es"
  "cp_Verifications (criterion_view view es vs h dg c) =
     filter (\<lambda>v. vr_ContractRevisionID v = cr_ID (ov_Current view) \<and> vr_CriterionID v = cc_ID c) vs"
  "cp_Delegated (criterion_view view es vs h dg c) = (dg (cc_ID c) \<noteq> None)"
  by (simp_all add: criterion_view_def Let_def split: option.splits prod.splits)

lemma criterion_view_delegated:
  "dg (cc_ID c) = Some d \<Longrightarrow> cp_Ready (criterion_view view es vs h dg c) = dg_Proved d"
  by (simp add: criterion_view_def Let_def)

lemma criterion_view_ready:
  assumes "dg (cc_ID c) = None"
  shows "cp_Ready (criterion_view view es vs h dg c) =
         fst (criterionReady (criterion_view view es vs h dg c) h)"
proof -
  let ?own = "\<lparr>cp_Criterion = c,
      cp_Evidence = cp_Evidence (criterion_view view es vs h dg c),
      cp_Verifications = cp_Verifications (criterion_view view es vs h dg c),
      cp_Ready = False, cp_Gap = ''Add supporting Evidence for this criterion.'',
      cp_Delegated = False, cp_ClaimedBy = []\<rparr>"
  have "cp_Ready (criterion_view view es vs h dg c) = fst (criterionReady ?own h)"
    unfolding criterion_view_fields
    by (simp add: criterion_view_def assms Let_def split_def)
  also have "criterionReady ?own h = criterionReady (criterion_view view es vs h dg c) h"
    by (rule criterionReady_cong) simp_all
  finally show ?thesis .
qed

section \<open>Acceptance of a contributor\<close>

definition LatestDecisionAccepts :: "acceptance_decision list \<Rightarrow> bool" where
  "LatestDecisionAccepts history =
     (case newest (\<lambda>_. ''found'') dc_CreatedAt None history of
        None \<Rightarrow> False | Some d \<Rightarrow> dc_Kind d = AcceptanceAccept)"

end
