(* ===== verification/Scheduler.thy ===== *)
theory Scheduler
  imports Proof_View Attempt Topology
begin

text \<open>
  The serial scheduler (internal/service/outcome/scheduler.go): which work unit of an approved
  plan may be admitted next, and the schedule the owner is shown. Both are computed from the
  plan, the stored attempts and the proof projection; neither is stored. The last section proves
  that the scheduler's choice is safe, that it never stalls, and that the shown schedule offers
  the unit that admission selects whenever no retained result blocks a hand-over.
\<close>

section \<open>Proof of a work unit\<close>

definition attemptActiveForScheduling :: "attempt_status \<Rightarrow> bool" where
  "attemptActiveForScheduling s = (s \<in> set [AttemptQueued, AttemptRunning, AttemptPaused])"

definition attemptsForPlan :: "plan_revision \<Rightarrow> attempt list \<Rightarrow> attempt list" where
  "attemptsForPlan plan attempts = filter (\<lambda>a.
     \<not> (a_OutcomeID a \<noteq> pr_OutcomeID plan \<or> a_PlanRevisionID a \<noteq> pr_ID plan \<or>
        a_ContractRevisionNumber a \<noteq> pr_ContractRevisionNumber plan)) attempts"

definition attemptsForWorkUnit :: "ident \<Rightarrow> attempt list \<Rightarrow> attempt list" where
  "attemptsForWorkUnit u attempts = filter (\<lambda>a. a_WorkUnitID a = u) attempts"

definition proofFactBelongsToWorkUnit ::
  "plan_revision \<Rightarrow> work_unit \<Rightarrow> attempt list \<Rightarrow> proof_subject \<Rightarrow> string \<Rightarrow> string \<Rightarrow> bool" where
  "proofFactBelongsToWorkUnit plan u attempts subject sid srev =
     (case subject of
        ProofSubjectWorkUnit \<Rightarrow> sid = wu_ID u \<and> srev = pr_ID plan
      | ProofSubjectAttempt \<Rightarrow>
          list_ex (\<lambda>a. a_ID a = sid \<and> a_WorkUnitID a = wu_ID u \<and> a_PlanRevisionID a = pr_ID plan \<and>
                    a_OutcomeID a = pr_OutcomeID plan \<and>
                    a_ContractRevisionNumber a = pr_ContractRevisionNumber plan) attempts
      | _ \<Rightarrow> False)"

definition criterionProofForID :: "proof_view \<Rightarrow> ident \<Rightarrow> criterion_proof option" where
  "criterionProofForID proof cid = find (\<lambda>c. cc_ID (cp_Criterion c) = cid) (pv_Criteria proof)"

text \<open>The criterion's proof narrowed to the facts of one work unit.\<close>

definition scoped_proof ::
  "plan_revision \<Rightarrow> work_unit \<Rightarrow> attempt list \<Rightarrow> criterion_proof \<Rightarrow> criterion_proof" where
  "scoped_proof plan u attempts c =
     \<lparr>cp_Criterion = cp_Criterion c,
      cp_Evidence = filter (\<lambda>e. proofFactBelongsToWorkUnit plan u attempts (ev_SubjectType e)
                                (ev_SubjectID e) (ev_SubjectRevision e)) (cp_Evidence c),
      cp_Verifications = filter (\<lambda>v. proofFactBelongsToWorkUnit plan u attempts (vr_SubjectType v)
                                (vr_SubjectID v) (vr_SubjectRevision v)) (cp_Verifications c),
      cp_Ready = False, cp_Gap = [], cp_Delegated = False, cp_ClaimedBy = []\<rparr>"

definition workUnitProven :: "plan_revision \<Rightarrow> work_unit \<Rightarrow> attempt list \<Rightarrow> proof_view \<Rightarrow> bool" where
  "workUnitProven plan u attempts proof =
     (wu_CriterionIDs u \<noteq> [] \<and>
      list_all (\<lambda>cid. case criterionProofForID proof cid of
          None \<Rightarrow> False
        | Some c \<Rightarrow> \<not> cp_Delegated c \<and>
            fst (criterionReady (scoped_proof plan u attempts c) (pv_ProofHorizon proof)))
        (wu_CriterionIDs u))"

text \<open>The map from unit ids to whether the unit is proven, as the ids that map to true.\<close>

definition proven_units ::
  "plan_revision \<Rightarrow> work_unit list \<Rightarrow> attempt list \<Rightarrow> proof_view \<Rightarrow> ident list" where
  "proven_units plan ordered attempts proof =
     map wu_ID (filter (\<lambda>u. workUnitProven plan u attempts proof) ordered)"

section \<open>The decision\<close>

definition dependency_ready :: "ident list \<Rightarrow> work_unit \<Rightarrow> bool" where
  "dependency_ready proven u =
     (wu_ID u \<notin> set proven \<and> list_all (\<lambda>d. d \<in> set proven) (wu_DependsOn u))"

definition nextRunnableWorkUnit ::
  "plan_revision \<Rightarrow> attempt list \<Rightarrow> proof_view \<Rightarrow> error + work_unit option" where
  "nextRunnableWorkUnit plan attempts proof =
     (if pv_OutcomeID proof \<noteq> pr_OutcomeID plan
      then Inl (Errorf ''scheduler proof outcome %s does not match plan outcome %s''
                  [Str (pv_OutcomeID proof), Str (pr_OutcomeID plan)])
      else if cr_Number (pv_Contract proof) \<noteq> pr_ContractRevisionNumber plan
      then Inl (Errorf ''scheduler proof contract revision %d does not match plan revision binding %d''
                  [Num (cr_Number (pv_Contract proof)), Num (pr_ContractRevisionNumber plan)])
      else and_then (TopologicalWorkUnits (pr_WorkUnits plan)) (\<lambda>ordered.
        let current = attemptsForPlan plan attempts in
        if list_ex (\<lambda>a. attemptActiveForScheduling (a_Status a)) current then Inr None
        else Inr (find (dependency_ready (proven_units plan ordered current proof)) ordered)))"

text \<open>A blank request takes the scheduler's choice; a named one must match it.\<close>

definition selectWorkUnitForAttempt ::
  "plan_revision \<Rightarrow> attempt list \<Rightarrow> proof_view \<Rightarrow> ident \<Rightarrow> api_error + work_unit" where
  "selectWorkUnitForAttempt plan attempts proof requested =
     (case nextRunnableWorkUnit plan attempts proof of
        Inl e \<Rightarrow> Inl (Failure e)
      | Inr None \<Rightarrow> Inl (Conflict ''NO_RUNNABLE_WORK_UNIT'')
      | Inr (Some u) \<Rightarrow>
          if blank requested then Inr u
          else if wu_ID u \<noteq> requested then Inl (Conflict ''WORK_UNIT_NOT_RUNNABLE'')
          else Inr u)"

lemma selected_is_next:
  "selectWorkUnitForAttempt plan attempts proof requested = Inr u \<Longrightarrow>
     nextRunnableWorkUnit plan attempts proof = Inr (Some u) \<and> (blank requested \<or> requested = wu_ID u)"
  by (auto simp: selectWorkUnitForAttempt_def split: sum.splits option.splits if_splits)

section \<open>The schedule\<close>

datatype schedule_state = WorkUnitScheduleBlocked | WorkUnitScheduleRunnable
  | WorkUnitScheduleExecuting | WorkUnitScheduleProven | WorkUnitScheduleRetryable
  | WorkUnitSchedulePaused

datatype blocked_reason = NotBlocked | BlockedAwaitingDependencyProof | BlockedCustodyHeld
  | BlockedUpstreamArtifactUnavailable

datatype no_runnable_reason = SomethingRunnable | NoRunnableAllProven | NoRunnableExecuting
  | NoRunnablePaused | NoRunnableAwaitingProof

record schedule_entry =
  se_WorkUnit :: work_unit
  se_State :: schedule_state
  se_Attempts :: "attempt list"
  se_BlockingDependencies :: "ident list"
  se_BlockedReason :: blocked_reason
  se_BlockedDetail :: string
  se_CriterionReady :: "(ident \<times> bool) list"

record schedule_view =
  sv_Plan :: plan_revision
  sv_WorkUnits :: "schedule_entry list"
  sv_NextRunnableID :: ident
  sv_ActiveAttempt :: "attempt option"
  sv_CustodyHeldBy :: ident
  sv_NoRunnableReason :: no_runnable_reason

definition criterion_ready_map ::
  "plan_revision \<Rightarrow> work_unit \<Rightarrow> attempt list \<Rightarrow> proof_view \<Rightarrow> (ident \<times> bool) list" where
  "criterion_ready_map plan u attempts proof = map (\<lambda>cid.
     (cid, case criterionProofForID proof cid of
             None \<Rightarrow> False
           | Some c \<Rightarrow> fst (criterionReady (scoped_proof plan u attempts c) (pv_ProofHorizon proof))))
     (wu_CriterionIDs u)"

definition unit_schedule ::
  "ident list \<Rightarrow> attempt option \<Rightarrow> string \<Rightarrow> attempt list \<Rightarrow> work_unit \<Rightarrow>
   schedule_state \<times> ident list \<times> blocked_reason \<times> string" where
  "unit_schedule proven active artifact_block own u =
     (if wu_ID u \<in> set proven then (WorkUnitScheduleProven, [], NotBlocked, [])
      else case active of
        Some a \<Rightarrow>
          if a_WorkUnitID a = wu_ID u
          then ((if a_Status a = AttemptPaused then WorkUnitSchedulePaused
                 else WorkUnitScheduleExecuting), [], NotBlocked, [])
          else (let blocking = filter (\<lambda>d. d \<notin> set proven) (wu_DependsOn u) in
                if blocking \<noteq> []
                then (WorkUnitScheduleBlocked, blocking, BlockedAwaitingDependencyProof, [])
                else if artifact_block \<noteq> []
                then (WorkUnitScheduleBlocked, [], BlockedUpstreamArtifactUnavailable, artifact_block)
                else (WorkUnitScheduleBlocked, [], BlockedCustodyHeld, []))
      | None \<Rightarrow>
          (let blocking = filter (\<lambda>d. d \<notin> set proven) (wu_DependsOn u) in
           if blocking \<noteq> []
           then (WorkUnitScheduleBlocked, blocking, BlockedAwaitingDependencyProof, [])
           else if artifact_block \<noteq> []
           then (WorkUnitScheduleBlocked, [], BlockedUpstreamArtifactUnavailable, artifact_block)
           else if own \<noteq> [] then (WorkUnitScheduleRetryable, [], NotBlocked, [])
           else (WorkUnitScheduleRunnable, [], NotBlocked, [])))"

definition offered :: "schedule_entry \<Rightarrow> bool" where
  "offered e = (se_State e = WorkUnitScheduleRetryable \<or> se_State e = WorkUnitScheduleRunnable)"

definition noRunnableReason :: "ident \<Rightarrow> schedule_entry list \<Rightarrow> attempt option \<Rightarrow> no_runnable_reason" where
  "noRunnableReason next entries active =
     (if \<not> blank next then SomethingRunnable
      else case active of
        Some a \<Rightarrow> if a_Status a = AttemptPaused then NoRunnablePaused else NoRunnableExecuting
      | None \<Rightarrow> if list_ex (\<lambda>e. se_State e \<noteq> WorkUnitScheduleProven) entries
                then NoRunnableAwaitingProof else NoRunnableAllProven)"

definition schedule_entry_of ::
  "plan_revision \<Rightarrow> attempt list \<Rightarrow> proof_view \<Rightarrow> ident list \<Rightarrow> attempt option \<Rightarrow>
   (ident \<Rightarrow> string) \<Rightarrow> work_unit \<Rightarrow> schedule_entry" where
  "schedule_entry_of plan current proof proven active blocks u =
     (let own = attemptsForWorkUnit (wu_ID u) current;
          (state, blocking, reason, detail) = unit_schedule proven active (blocks (wu_ID u)) own u
      in \<lparr>se_WorkUnit = u, se_State = state, se_Attempts = own, se_BlockingDependencies = blocking,
          se_BlockedReason = reason, se_BlockedDetail = detail,
          se_CriterionReady = criterion_ready_map plan u current proof\<rparr>)"

definition deriveSchedule ::
  "plan_revision \<Rightarrow> attempt list \<Rightarrow> proof_view \<Rightarrow> (ident \<Rightarrow> string) \<Rightarrow> error + schedule_view" where
  "deriveSchedule plan attempts proof blocks =
     and_then (TopologicalWorkUnits (pr_WorkUnits plan)) (\<lambda>ordered.
       let current = attemptsForPlan plan attempts;
           active = find (\<lambda>a. attemptActiveForScheduling (a_Status a)) current;
           proven = proven_units plan ordered current proof;
           entries = map (schedule_entry_of plan current proof proven active blocks) ordered;
           next = (case find offered entries of None \<Rightarrow> [] | Some e \<Rightarrow> wu_ID (se_WorkUnit e))
       in Inr \<lparr>sv_Plan = plan, sv_WorkUnits = entries, sv_NextRunnableID = next,
               sv_ActiveAttempt = active,
               sv_CustodyHeldBy = (case active of None \<Rightarrow> [] | Some a \<Rightarrow> a_WorkUnitID a),
               sv_NoRunnableReason = noRunnableReason next entries active\<rparr>)"

section \<open>Safety and liveness of the decision\<close>

lemma find_active_None:
  "find (\<lambda>a. attemptActiveForScheduling (a_Status a)) as = None \<longleftrightarrow>
   \<not> list_ex (\<lambda>a. attemptActiveForScheduling (a_Status a)) as"
  by (auto simp: find_None_set list_ex_iff)

lemma next_runnable_Some:
  assumes "nextRunnableWorkUnit plan attempts proof = Inr (Some u)"
  obtains ordered where "TopologicalWorkUnits (pr_WorkUnits plan) = Inr ordered"
    "u \<in> set ordered" "\<forall>a\<in>set (attemptsForPlan plan attempts). \<not> attemptActiveForScheduling (a_Status a)"
    "dependency_ready (proven_units plan ordered (attemptsForPlan plan attempts) proof) u"
  using assms
  by (auto simp: nextRunnableWorkUnit_def and_then_Inr Let_def list_ex_iff dest: find_SomeD
      split: if_splits)

lemma proven_units_iff:
  assumes "distinct (map wu_ID ordered)" "u \<in> set ordered"
  shows "wu_ID u \<in> set (proven_units plan ordered attempts proof) \<longleftrightarrow>
         workUnitProven plan u attempts proof"
  using assms by (auto simp: proven_units_def distinct_map dest: inj_onD)

text \<open>In a dependency order, the first unit outside a set that is not everything has its
  dependencies in the set.\<close>

lemma first_unproven_ready:
  assumes top: "topological (unit_graph units) (map wu_ID ordered)"
    and deps: "\<forall>u\<in>set ordered. deps_of (unit_graph units) (wu_ID u) = wu_DependsOn u"
    and u: "u \<in> set ordered" "wu_ID u \<notin> set proven"
  shows "\<exists>v\<in>set ordered. dependency_ready proven v"
proof -
  define P where "P i \<longleftrightarrow> i < length ordered \<and> wu_ID (ordered ! i) \<notin> set proven" for i
  obtain j where "P j" using u by (auto simp: P_def in_set_conv_nth)
  then obtain i where i: "P i" and least: "\<forall>k<i. \<not> P k"
    using ex_has_least_nat [of P j "\<lambda>n. n"] by (metis linorder_not_le)
  let ?v = "ordered ! i"
  have "set (deps_of (unit_graph units) (map wu_ID ordered ! i)) \<subseteq> set (take i (map wu_ID ordered))"
    using top i by (simp add: topological_def P_def)
  then have "set (wu_DependsOn ?v) \<subseteq> wu_ID ` set (take i ordered)"
    using deps i by (simp add: P_def take_map)
  moreover have "wu_ID ` set (take i ordered) \<subseteq> set proven"
  proof
    fix x assume "x \<in> wu_ID ` set (take i ordered)"
    then obtain k where "k < i" "k < length ordered" "x = wu_ID (ordered ! k)"
      by (auto simp: in_set_conv_nth)
    then show "x \<in> set proven" using least by (auto simp: P_def)
  qed
  ultimately show ?thesis
    using i by (intro bexI [of _ ?v]) (auto simp: dependency_ready_def P_def list_all_iff)
qed

lemma ordered_units:
  assumes "TopologicalWorkUnits units = Inr ordered"
  shows "set ordered = set units" "distinct (map wu_ID ordered)"
    "topological (unit_graph units) (map wu_ID ordered)"
    "\<forall>u\<in>set ordered. deps_of (unit_graph units) (wu_ID u) = wu_DependsOn u"
    "\<forall>u\<in>set ordered. \<not> blank (wu_ID u)"
proof -
  note sound = topological_order_sound [OF assms]
  show sets: "set ordered = set units" using sound(4) by (rule mset_eq_setD)
  show "topological (unit_graph units) (map wu_ID ordered)" by (rule sound(3))
  then show "distinct (map wu_ID ordered)" by (simp add: topological_def)
  show "\<forall>u\<in>set ordered. deps_of (unit_graph units) (wu_ID u) = wu_DependsOn u"
  proof
    fix u assume "u \<in> set ordered"
    then have "(wu_ID u, wu_DependsOn u) \<in> set (unit_graph units)"
      using sets by (simp add: unit_graph_def)
    then show "deps_of (unit_graph units) (wu_ID u) = wu_DependsOn u"
      by (rule deps_of_mem [OF sound(1)])
  qed
  have "topology_checks units = None"
    using assms by (auto simp: TopologicalWorkUnits_def split: option.splits)
  then show "\<forall>u\<in>set ordered. \<not> blank (wu_ID u)" using sets by (simp add: topology_checks_None)
qed

lemma find_ready:
  assumes "TopologicalWorkUnits units = Inr ordered" "u \<in> set ordered" "wu_ID u \<notin> set proven"
  shows "find (dependency_ready proven) ordered \<noteq> None"
  using first_unproven_ready [OF ordered_units(3,4) [OF assms(1)] assms(2,3)]
  by (simp add: find_None_set)

section \<open>The schedule against the decision\<close>

lemma unit_schedule_offered:
  "fst (unit_schedule proven active block own u) \<in> {WorkUnitScheduleRetryable, WorkUnitScheduleRunnable}
   \<longleftrightarrow> active = None \<and> dependency_ready proven u \<and> block = []"
  by (auto simp: unit_schedule_def dependency_ready_def Let_def filter_empty_conv list_all_iff
      split: option.splits)

lemma unit_schedule_proven:
  "fst (unit_schedule proven active block own u) = WorkUnitScheduleProven \<longleftrightarrow> wu_ID u \<in> set proven"
  by (auto simp: unit_schedule_def Let_def split: option.splits)

lemma schedule_entry_fields:
  "se_WorkUnit (schedule_entry_of plan cur proof proven active blocks u) = u"
  "se_State (schedule_entry_of plan cur proof proven active blocks u) =
     fst (unit_schedule proven active (blocks (wu_ID u)) (attemptsForWorkUnit (wu_ID u) cur) u)"
  by (simp_all add: schedule_entry_of_def Let_def split: prod.splits)

lemma offered_entry:
  "offered (schedule_entry_of plan cur proof proven active blocks u) \<longleftrightarrow>
     active = None \<and> dependency_ready proven u \<and> blocks (wu_ID u) = []"
  using unit_schedule_offered [of proven active "blocks (wu_ID u)" "attemptsForWorkUnit (wu_ID u) cur" u]
  by (simp add: offered_def schedule_entry_fields)

lemma find_map: "find P (map f xs) = map_option f (find (\<lambda>x. P (f x)) xs)"
  by (induction xs) auto

lemma find_False: "find (\<lambda>x. False) xs = None"
  by (induction xs) auto

lemma schedule_next:
  assumes "TopologicalWorkUnits (pr_WorkUnits plan) = Inr ordered"
    "deriveSchedule plan attempts proof blocks = Inr view"
  defines "current \<equiv> attemptsForPlan plan attempts"
  shows "sv_NextRunnableID view =
     (if list_ex (\<lambda>a. attemptActiveForScheduling (a_Status a)) current then []
      else case find (\<lambda>u. dependency_ready (proven_units plan ordered current proof) u \<and>
                        blocks (wu_ID u) = []) ordered of
             None \<Rightarrow> [] | Some u \<Rightarrow> wu_ID u)"
proof (cases "find (\<lambda>a. attemptActiveForScheduling (a_Status a)) current")
  case None
  then have "\<not> list_ex (\<lambda>a. attemptActiveForScheduling (a_Status a)) current"
    by (simp add: find_active_None)
  with None assms(2) show ?thesis
    by (simp add: deriveSchedule_def assms(1) Let_def find_map offered_entry schedule_entry_fields
        current_def split: option.splits) (auto simp: schedule_entry_fields)
next
  case (Some a)
  then have "list_ex (\<lambda>a. attemptActiveForScheduling (a_Status a)) current"
    using find_active_None [of current] by auto
  with Some assms(2) show ?thesis
    by (auto simp: deriveSchedule_def assms(1) Let_def find_map offered_entry current_def find_False)
qed

text \<open>The two disagree when a retained result blocks the unit that admission would select: the
  schedule then offers a later unit, and a start of the offered unit is refused.\<close>

lemma blocked_choice_refuses_offer:
  assumes "nextRunnableWorkUnit plan attempts proof = Inr (Some u)" "blocks (wu_ID u) \<noteq> []"
    and "deriveSchedule plan attempts proof blocks = Inr view" "\<not> blank (sv_NextRunnableID view)"
  shows "selectWorkUnitForAttempt plan attempts proof (sv_NextRunnableID view) =
         Inl (Conflict ''WORK_UNIT_NOT_RUNNABLE'')"
proof -
  obtain ordered where o: "TopologicalWorkUnits (pr_WorkUnits plan) = Inr ordered"
    using assms(3) by (auto simp: deriveSchedule_def and_then_Inr)
  let ?ready = "dependency_ready (proven_units plan ordered (attemptsForPlan plan attempts) proof)"
  obtain v where v: "find (\<lambda>u. ?ready u \<and> blocks (wu_ID u) = []) ordered = Some v"
      "sv_NextRunnableID view = wu_ID v"
    using schedule_next [OF o assms(3)] assms(4) by (auto split: if_splits option.splits)
  then have "v \<in> set ordered" "blocks (wu_ID v) = []" by (auto dest: find_SomeD)
  then have "wu_ID v \<noteq> wu_ID u" using assms(2) by auto
  then show ?thesis
    using assms(1,4) v(2) by (auto simp: selectWorkUnitForAttempt_def)
qed

end
