(* ===== verification/Handoff.thy ===== *)
theory Handoff
  imports Scheduler Control_Store
begin

text \<open>
  Artifact continuity (internal/service/outcome/handoff.go): the retained results of its
  predecessors that a work unit is given before it may start, the refusals when one of them
  cannot be handed down, and the blocks the schedule shows for them
  (upstreamArtifactBlocks of scheduler.go). The reads of the receipt store are the argument
  \<^verbatim>\<open>lookup\<close>; the last definitions read the control store.
\<close>

section \<open>The producing attempt\<close>

definition CodeUpstreamArtifactMissing :: string where
  "CodeUpstreamArtifactMissing = ''UPSTREAM_ARTIFACT_MISSING''"
definition CodeUpstreamArtifactIncomplete :: string where
  "CodeUpstreamArtifactIncomplete = ''UPSTREAM_ARTIFACT_INCOMPLETE''"
definition CodeUpstreamArtifactUnreviewed :: string where
  "CodeUpstreamArtifactUnreviewed = ''UPSTREAM_ARTIFACT_UNREVIEWED''"
definition CodeUpstreamLineageMismatch :: string where
  "CodeUpstreamLineageMismatch = ''UPSTREAM_LINEAGE_MISMATCH''"

lemmas upstream_codes = CodeUpstreamArtifactMissing_def CodeUpstreamArtifactIncomplete_def
  CodeUpstreamArtifactUnreviewed_def CodeUpstreamLineageMismatch_def

fun latest_succeeded :: "attempt option \<Rightarrow> attempt list \<Rightarrow> attempt option" where
  "latest_succeeded cur [] = cur"
| "latest_succeeded cur (a # as) = latest_succeeded
     (if a_Status a \<noteq> AttemptSucceeded then cur
      else case cur of None \<Rightarrow> Some a
           | Some l \<Rightarrow> if a_Number a > a_Number l then Some a else Some l) as"

definition producingAttempt :: "ident \<Rightarrow> attempt list \<Rightarrow> attempt option" where
  "producingAttempt u scoped = latest_succeeded None (attemptsForWorkUnit u scoped)"

section \<open>The decision\<close>

definition upstreamReceiptUsable ::
  "(string \<Rightarrow> string) \<Rightarrow> ident \<Rightarrow> attempt \<Rightarrow> attempt_receipt \<Rightarrow> api_error option" where
  "upstreamReceiptUsable sha dependency producer r = first_error
     [refuse (AttemptReceipt_Validate sha r \<noteq> None) (Conflict CodeUpstreamLineageMismatch),
      refuse (rp_AttemptID r \<noteq> a_ID producer \<or> rp_WorkUnitID r \<noteq> dependency \<or>
              rp_PlanRevisionID r \<noteq> a_PlanRevisionID producer \<or>
              rp_ContractRevisionNumber r \<noteq> a_ContractRevisionNumber producer)
        (Conflict CodeUpstreamLineageMismatch),
      refuse (\<not> RetentionState_Complete (rp_RetentionState r)) (Conflict CodeUpstreamArtifactIncomplete),
      refuse (\<not> Receipt_Frozen r) (Conflict CodeUpstreamArtifactUnreviewed)]"

fun upstreamReceiptsFor ::
  "(string \<Rightarrow> string) \<Rightarrow> (ident \<Rightarrow> attempt_receipt option) \<Rightarrow> attempt list \<Rightarrow> ident list \<Rightarrow>
   api_error + attempt_receipt list" where
  "upstreamReceiptsFor sha lookup scoped [] = Inr []"
| "upstreamReceiptsFor sha lookup scoped (d # ds) =
     (case producingAttempt d scoped of
        None \<Rightarrow> Inl (Conflict CodeUpstreamArtifactMissing)
      | Some a \<Rightarrow>
          (case lookup (a_ID a) of
             None \<Rightarrow> Inl (Conflict CodeUpstreamArtifactMissing)
           | Some r \<Rightarrow>
               (case upstreamReceiptUsable sha d a r of
                  Some e \<Rightarrow> Inl e
                | None \<Rightarrow> and_then (upstreamReceiptsFor sha lookup scoped ds) (\<lambda>rs. Inr (r # rs)))))"

record attempt_input =
  in_AttemptID :: ident
  in_WorkUnitID :: ident
  in_ArtifactVersion :: string

definition resolveUpstreamReceipts ::
  "(string \<Rightarrow> string) \<Rightarrow> control_store \<Rightarrow> plan_revision \<Rightarrow> work_unit \<Rightarrow>
   api_error + attempt_receipt list" where
  "resolveUpstreamReceipts sha s plan u =
     (if wu_DependsOn u = [] then Inr []
      else upstreamReceiptsFor sha (GetAttemptReceipt s)
             (attemptsForPlan plan (ListAttempts s (pr_OutcomeID plan))) (wu_DependsOn u))"

definition admittedInputsFor ::
  "(string \<Rightarrow> string) \<Rightarrow> control_store \<Rightarrow> plan_revision \<Rightarrow> work_unit \<Rightarrow> api_error + attempt_input list"
where
  "admittedInputsFor sha s plan u =
     and_then (resolveUpstreamReceipts sha s plan u) (\<lambda>rs. Inr (map (\<lambda>r.
       \<lparr>in_AttemptID = rp_AttemptID r, in_WorkUnitID = rp_WorkUnitID r,
        in_ArtifactVersion = rp_ArtifactVersion r\<rparr>) rs))"

definition inputArtifactVersions :: "attempt_input list \<Rightarrow> string list" where
  "inputArtifactVersions inputs = map in_ArtifactVersion inputs"

text \<open>What the schedule shows: no block for a missing result, which reads as awaiting proof.\<close>

definition upstreamArtifactBlocks ::
  "(string \<Rightarrow> string) \<Rightarrow> control_store \<Rightarrow> plan_revision \<Rightarrow> attempt list \<Rightarrow> ident \<Rightarrow> string" where
  "upstreamArtifactBlocks sha s plan attempts uid =
     (case find (\<lambda>u. wu_ID u = uid) (pr_WorkUnits plan) of
        None \<Rightarrow> []
      | Some u \<Rightarrow>
          if wu_DependsOn u = [] then []
          else (case upstreamReceiptsFor sha (GetAttemptReceipt s) (attemptsForPlan plan attempts)
                       (wu_DependsOn u) of
                  Inl (Conflict code) \<Rightarrow> if code \<noteq> CodeUpstreamArtifactMissing then code else []
                | _ \<Rightarrow> []))"

section \<open>What is handed down\<close>

lemma latest_succeeded_from:
  "latest_succeeded cur as = Some a \<Longrightarrow>
     cur = Some a \<or> a \<in> set as \<and> a_Status a = AttemptSucceeded"
  by (induction cur as rule: latest_succeeded.induct) (auto split: if_splits option.splits)

lemma latest_succeeded_ge:
  "latest_succeeded (Some l) as = Some a \<Longrightarrow> a_Number l \<le> a_Number a"
  by (induction as arbitrary: l) (auto split: if_splits dest: order_trans, fastforce)

lemma latest_succeeded_max:
  "latest_succeeded cur as = Some a \<Longrightarrow> b \<in> set as \<Longrightarrow> a_Status b = AttemptSucceeded \<Longrightarrow>
     a_Number b \<le> a_Number a"
proof (induction cur as rule: latest_succeeded.induct)
  case (2 cur x as)
  show ?case
  proof (cases "b = x")
    case True
    then show ?thesis
      using 2 latest_succeeded_ge by (cases cur) (auto split: if_splits, force)
  next
    case False
    then show ?thesis using 2 by simp
  qed
qed simp

lemma latest_succeeded_None:
  "latest_succeeded cur as = None \<longleftrightarrow> cur = None \<and> (\<forall>a\<in>set as. a_Status a \<noteq> AttemptSucceeded)"
  by (induction cur as rule: latest_succeeded.induct) (auto split: option.splits)

lemma producing_attempt:
  assumes "producingAttempt u scoped = Some a"
  shows "a \<in> set scoped" "a_WorkUnitID a = u" "a_Status a = AttemptSucceeded"
    "\<forall>b\<in>set scoped. a_WorkUnitID b = u \<longrightarrow> a_Status b = AttemptSucceeded \<longrightarrow> a_Number b \<le> a_Number a"
  using latest_succeeded_from [of None _ a] latest_succeeded_max [of None _ a] assms
  by (fastforce simp: producingAttempt_def attemptsForWorkUnit_def)+

definition handed_down ::
  "(string \<Rightarrow> string) \<Rightarrow> (ident \<Rightarrow> attempt_receipt option) \<Rightarrow> attempt list \<Rightarrow> ident \<Rightarrow> attempt_receipt \<Rightarrow> bool"
where
  "handed_down sha lookup scoped d r \<longleftrightarrow>
     (\<exists>a. producingAttempt d scoped = Some a \<and> lookup (a_ID a) = Some r \<and>
          AttemptReceipt_Validate sha r = None \<and> rp_AttemptID r = a_ID a \<and> rp_WorkUnitID r = d \<and>
          rp_PlanRevisionID r = a_PlanRevisionID a \<and>
          rp_ContractRevisionNumber r = a_ContractRevisionNumber a \<and>
          rp_RetentionState r = RetentionRetained \<and> Receipt_Frozen r)"

lemma receipt_usable:
  "upstreamReceiptUsable sha d a r = None \<longleftrightarrow>
     AttemptReceipt_Validate sha r = None \<and> rp_AttemptID r = a_ID a \<and> rp_WorkUnitID r = d \<and>
     rp_PlanRevisionID r = a_PlanRevisionID a \<and>
     rp_ContractRevisionNumber r = a_ContractRevisionNumber a \<and>
     rp_RetentionState r = RetentionRetained \<and> Receipt_Frozen r"
  by (auto simp: upstreamReceiptUsable_def guards RetentionState_Complete_def)

lemma upstream_receipts:
  "upstreamReceiptsFor sha lookup scoped ds = Inr rs \<longleftrightarrow> list_all2 (handed_down sha lookup scoped) ds rs"
proof (induction ds arbitrary: rs)
  case (Cons d ds)
  have "upstreamReceiptsFor sha lookup scoped (d # ds) = Inr rs \<longleftrightarrow>
        (\<exists>r rs'. rs = r # rs' \<and> handed_down sha lookup scoped d r \<and>
           upstreamReceiptsFor sha lookup scoped ds = Inr rs')"
    by (auto simp: handed_down_def receipt_usable [symmetric] and_then_Inr split: option.splits)
  then show ?case by (auto simp: Cons list_all2_Cons1)
qed auto

end
