(* ===== verification/Work_Properties.thy ===== *)
theory Work_Properties imports Handoff Plan_Samples begin

text \<open>
  The properties of the proof projection, the serial scheduler and the hand-over of retained
  results, with the sample records at which they are instantiated.
\<close>

section \<open>Sample records\<close>

definition sample_outcome :: outcome where
  "sample_outcome = \<lparr>o_ID = ''o1'', o_SpaceID = ''s1'', o_ParentID = [], o_Title = ''t'',
     o_CurrentRevisionNumber = 1, o_CreatedAt = 1, o_UpdatedAt = 1\<rparr>"

definition sample_view :: outcome_view where
  "sample_view = \<lparr>ov_Outcome = sample_outcome, ov_Current = sample_contract,
     ov_History = [sample_contract]\<rparr>"

definition sample_evidence :: "ident \<Rightarrow> ident \<Rightarrow> ident \<Rightarrow> instant \<Rightarrow> evidence_item" where
  "sample_evidence i c u at = \<lparr>ev_ID = i, ev_OutcomeID = ''o1'', ev_ContractRevisionID = ''r1'',
     ev_CriterionID = c, ev_SubjectType = ProofSubjectWorkUnit, ev_SubjectID = u,
     ev_SubjectRevision = ''p1'', ev_Kind = EvidenceSupporting, ev_SourceType = EvidenceSourceArtifact,
     ev_SourceRef = ''x'', ev_ProducerType = EvidenceProducerTool, ev_ProducerRef = ''x'',
     ev_Summary = ''x'', ev_ContentDigest = replicate 64 (CHR ''0''), ev_RequestKey = i,
     ev_RequestFingerprint = replicate 64 (CHR ''0''), ev_CreatedAt = at\<rparr>"

definition sample_verification :: "ident \<Rightarrow> ident \<Rightarrow> ident \<Rightarrow> ident \<Rightarrow> instant \<Rightarrow> verification_run" where
  "sample_verification i c u e at = \<lparr>vr_ID = i, vr_OutcomeID = ''o1'', vr_ContractRevisionID = ''r1'',
     vr_CriterionID = c, vr_SubjectType = ProofSubjectWorkUnit, vr_SubjectID = u,
     vr_SubjectRevision = ''p1'', vr_EvidenceItemIDs = [e], vr_Method = ''m'',
     vr_IndependenceClass = VerificationDeterministic, vr_Result = VerificationPassed,
     vr_ProducerRef = ''x'', vr_VerifierRef = ''y'', vr_ProducerProvider = [],
     vr_VerifierProvider = [], vr_Detail = [], vr_RequestKey = i,
     vr_RequestFingerprint = replicate 64 (CHR ''0''), vr_CreatedAt = at\<rparr>"

definition sample_rework :: acceptance_decision where
  "sample_rework = \<lparr>dc_ID = ''d1'', dc_OutcomeID = ''o1'', dc_ContractRevisionID = ''r1'',
     dc_Kind = AcceptanceRequestRework, dc_ActorType = AcceptanceActorUser, dc_Summary = ''x'',
     dc_ResourceDisposition = ResourceDispositionRetain, dc_RequestKey = ''k'',
     dc_RequestFingerprint = replicate 64 (CHR ''0''), dc_CreatedAt = 9\<rparr>"

definition sample_correction :: outcome_correction where
  "sample_correction = \<lparr>co_ID = ''x1'', co_DecisionID = ''d1'', co_OutcomeID = ''o1'',
     co_ContractRevisionID = ''r1'', co_Feedback = ''x'', co_TargetType = ReentryTargetWorkUnit,
     co_TargetID = ''u1'', co_CreatedAt = 9\<rparr>"

definition sample_proof_records :: "evidence_item list \<times> verification_run list" where
  "sample_proof_records =
     ([sample_evidence ''e1'' ''c1'' ''u1'' 2, sample_evidence ''e2'' ''c2'' ''u2'' 4],
      [sample_verification ''v1'' ''c1'' ''u1'' ''e1'' 3, sample_verification ''v2'' ''c2'' ''u2'' ''e2'' 5])"


text \<open>Proof of the first unit only.\<close>

definition sample_half_proof :: proof_view where
  "sample_half_proof = deriveProof sample_view [sample_evidence ''e1'' ''c1'' ''u1'' 2]
     [sample_verification ''v1'' ''c1'' ''u1'' ''e1'' 3] [] [] (\<lambda>_. None)"


section \<open>Proof\<close>




text \<open>C24: A rework or reopen decision for the current contract takes the proof back: if it is later
  than the earlier ones and no evidence is newer, then an outcome with a criterion of its own is
  neither accepted nor ready any more, but in rework, and the correction recorded with the
  decision is the active one.\<close>

theorem rework_withdraws_proof:
  assumes "dc_Kind d = AcceptanceRequestRework \<or> dc_Kind d = AcceptanceReopen"
    and "dc_ContractRevisionID d = cr_ID (ov_Current view)" "0 < dc_CreatedAt d"
    and "\<forall>d'\<in>set ds. dc_CreatedAt d' < dc_CreatedAt d"
    and "\<forall>e\<in>set es. ev_CreatedAt e \<le> dc_CreatedAt d"
    and "c \<in> set (cr_Criteria (ov_Current view))" "dg (cc_ID c) = None"
    and "co_DecisionID k = dc_ID d" "co_ContractRevisionID k = cr_ID (ov_Current view)"
  shows "pv_Status (deriveProof view es vs (ds @ [d]) (cs @ [k]) dg) = ProofStatusReworkRequired \<and>
         pv_ActiveCorrection (deriveProof view es vs (ds @ [d]) (cs @ [k]) dg) = Some k"
proof -
  let ?cur = "\<lambda>d. dc_ContractRevisionID d = cr_ID (ov_Current view)"
  define p where "p = deriveProof view es vs (ds @ [d]) (cs @ [k]) dg"
  have ds: "filter ?cur (ds @ [d]) = filter ?cur ds @ [d]" using assms(2) by simp
  have "proof_horizon (zero_time, []) (filter ?cur ds) = (zero_time, []) \<or>
        fst (proof_horizon (zero_time, []) (filter ?cur ds)) < dc_CreatedAt d"
    using proof_horizon_from [of "(zero_time, [])" "filter ?cur ds"] assms(4) by auto
  then have horizon: "proof_horizon (zero_time, []) (filter ?cur (ds @ [d])) = (dc_CreatedAt d, dc_ID d)"
    unfolding ds proof_horizon_append using assms(1,3) by auto
  then have h: "pv_ProofHorizon p = dc_CreatedAt d" by (simp add: p_def deriveProof_fields(4))
  have "\<not> fst (criterionReady (criterion_view view es vs (dc_CreatedAt d) dg c) (dc_CreatedAt d))"
    using assms(3,5)
    by (intro criterion_not_ready_without_evidence)
      (auto simp: filter_empty_conv criterion_view_fields evidence_eligible_def)
  then have "\<not> list_all cp_Ready (pv_Criteria p)"
    using assms(6) criterion_view_ready [of dg c view es vs "dc_CreatedAt d", OF assms(7)]
    unfolding list_all_iff p_def deriveProof_fields(5) h [unfolded p_def] by auto
  moreover have "\<not> last_decision_accepts (filter ?cur (ds @ [d]))"
    unfolding ds using assms(1) by (auto simp: last_decision_accepts_def)
  ultimately have "pv_Status p = ProofStatusReworkRequired"
    using h assms(3) unfolding p_def deriveProof_fields(6) by auto
  moreover have "pv_ActiveCorrection p = Some k"
    using horizon assms(8,9) by (simp add: p_def deriveProof_def Let_def split: prod.splits)
  ultimately show ?thesis by (simp add: p_def)
qed

lemma rework_withdraws_proof_witness:
  "pv_Status (deriveProof sample_view (fst sample_proof_records) (snd sample_proof_records)
     ([] @ [sample_rework]) ([] @ [sample_correction]) (\<lambda>_. None)) = ProofStatusReworkRequired"
  using rework_withdraws_proof [of sample_rework sample_view "[]" "fst sample_proof_records"
    "sample_criterion ''c1'' 1" "\<lambda>_. None" sample_correction "snd sample_proof_records" "[]"]
  by (simp add: sample_rework_def sample_view_def sample_contract_def sample_proof_records_def
      sample_evidence_def sample_correction_def)

section \<open>Scheduling\<close>

text \<open>C25: The unit the scheduler selects is a unit of the plan without proof of its own, all of
  whose dependencies are proven, and it selects one only when no attempt of the plan is queued,
  running or paused.\<close>

theorem scheduler_choice_safe:
  assumes "nextRunnableWorkUnit plan attempts proof = Inr (Some u)"
  shows "u \<in> set (pr_WorkUnits plan) \<and>
         \<not> workUnitProven plan u (attemptsForPlan plan attempts) proof \<and>
         (\<forall>d\<in>set (wu_DependsOn u). \<exists>v\<in>set (pr_WorkUnits plan). wu_ID v = d \<and>
            workUnitProven plan v (attemptsForPlan plan attempts) proof) \<and>
         (\<forall>a\<in>set attempts. a_OutcomeID a = pr_OutcomeID plan \<longrightarrow> a_PlanRevisionID a = pr_ID plan \<longrightarrow>
            a_ContractRevisionNumber a = pr_ContractRevisionNumber plan \<longrightarrow>
            a_Status a \<notin> {AttemptQueued, AttemptRunning, AttemptPaused})"
proof -
  let ?as = "attemptsForPlan plan attempts"
  obtain ordered where o: "TopologicalWorkUnits (pr_WorkUnits plan) = Inr ordered"
    "u \<in> set ordered" "\<forall>a\<in>set ?as. \<not> attemptActiveForScheduling (a_Status a)"
    "dependency_ready (proven_units plan ordered ?as proof) u"
    using assms by (rule next_runnable_Some)
  note units = ordered_units [OF o(1)]
  have "\<not> workUnitProven plan u ?as proof"
    using o(2,4) proven_units_iff [OF units(2) o(2)] by (simp add: dependency_ready_def)
  moreover have "\<exists>v\<in>set (pr_WorkUnits plan). wu_ID v = d \<and> workUnitProven plan v ?as proof"
    if "d \<in> set (wu_DependsOn u)" for d
    using o(4) that units(1) by (auto simp: dependency_ready_def list_all_iff proven_units_def)
  moreover have "a_Status a \<notin> {AttemptQueued, AttemptRunning, AttemptPaused}"
    if "a \<in> set attempts" "a_OutcomeID a = pr_OutcomeID plan" "a_PlanRevisionID a = pr_ID plan"
      "a_ContractRevisionNumber a = pr_ContractRevisionNumber plan" for a
    using o(3) that by (auto simp: attemptsForPlan_def attemptActiveForScheduling_def)
  ultimately show ?thesis using o(2) units(1) by simp
qed

lemma sample_choice: "nextRunnableWorkUnit sample_plan [] sample_half_proof = Inr (Some (hd sample_units))"
  by code_simp

lemma scheduler_choice_safe_witness:
  "hd sample_units \<in> set (pr_WorkUnits sample_plan) \<and>
   \<not> workUnitProven sample_plan (hd sample_units) (attemptsForPlan sample_plan []) sample_half_proof"
  using scheduler_choice_safe [OF sample_choice] by blast

text \<open>C26: The scheduler never stalls: a plan that can be ordered, with proof bound to its outcome
  and contract, no active attempt, and a unit that is not proven yet, always has a unit to run.\<close>

theorem scheduler_never_stalls:
  assumes "TopologicalWorkUnits (pr_WorkUnits plan) = Inr ordered"
    and "pv_OutcomeID proof = pr_OutcomeID plan"
    and "cr_Number (pv_Contract proof) = pr_ContractRevisionNumber plan"
    and "\<forall>a\<in>set (attemptsForPlan plan attempts). \<not> attemptActiveForScheduling (a_Status a)"
    and "w \<in> set (pr_WorkUnits plan)" "\<not> workUnitProven plan w (attemptsForPlan plan attempts) proof"
  shows "\<exists>u. nextRunnableWorkUnit plan attempts proof = Inr (Some u)"
proof -
  let ?proven = "proven_units plan ordered (attemptsForPlan plan attempts) proof"
  have w: "w \<in> set ordered" using assms(5) ordered_units(1) [OF assms(1)] by simp
  have "wu_ID w \<notin> set ?proven"
    using proven_units_iff [OF ordered_units(2) [OF assms(1)] w] assms(6) by simp
  then have "find (dependency_ready ?proven) ordered \<noteq> None"
    using find_ready [OF assms(1) w] by blast
  then show ?thesis
    using assms(1-4) by (auto simp: nextRunnableWorkUnit_def list_ex_iff Let_def)
qed

lemma scheduler_never_stalls_witness:
  "\<exists>u. nextRunnableWorkUnit sample_plan [] sample_half_proof = Inr (Some u)"
proof (rule scheduler_never_stalls [where w = "hd sample_units"])
  show "TopologicalWorkUnits (pr_WorkUnits sample_plan) = Inr sample_order"
    by (simp add: sample_plan_def sample_topological)
  show "\<not> workUnitProven sample_plan (hd sample_units) (attemptsForPlan sample_plan []) sample_half_proof"
    by code_simp
qed (simp_all add: sample_half_proof_def deriveProof_fields sample_view_def sample_outcome_def
    sample_plan_def sample_contract_def sample_units_def attemptsForPlan_def)

text \<open>When no retained result blocks a hand-over, the schedule the owner is shown offers exactly
  the unit that admission selects, and it never says that the plan waits for proof.\<close>

theorem schedule_agrees_with_admission:
  assumes "pv_OutcomeID proof = pr_OutcomeID plan"
    and "cr_Number (pv_Contract proof) = pr_ContractRevisionNumber plan"
    and "deriveSchedule plan attempts proof (\<lambda>_. []) = Inr view"
  shows "nextRunnableWorkUnit plan attempts proof =
           Inr (find (\<lambda>u. wu_ID u = sv_NextRunnableID view) (pr_WorkUnits plan)) \<and>
         sv_NoRunnableReason view \<noteq> NoRunnableAwaitingProof"
proof -
  let ?as = "attemptsForPlan plan attempts"
  obtain ordered where o: "TopologicalWorkUnits (pr_WorkUnits plan) = Inr ordered"
    using assms(3) by (auto simp: deriveSchedule_def and_then_Inr)
  note units = ordered_units [OF o]
  let ?proven = "proven_units plan ordered ?as proof"
  have dist: "distinct (map wu_ID (pr_WorkUnits plan))"
    using topological_order_sound(1) [OF o] by (simp add: wf_graph_def)
  have picked: "find (\<lambda>v. wu_ID v = wu_ID u) (pr_WorkUnits plan) = Some u" if "u \<in> set ordered" for u
    using unit_by_id_mem [OF dist, of u] that units(1) by (simp add: unit_by_id_def)
  have none: "find (\<lambda>v. wu_ID v = []) (pr_WorkUnits plan) = None"
    using units(1,5) by (auto simp: find_None_set)
  note next_id = schedule_next [OF o assms(3)]
  note decide = nextRunnableWorkUnit_def [of plan attempts "proof"]
  show ?thesis
  proof (cases "list_ex (\<lambda>a. attemptActiveForScheduling (a_Status a)) ?as")
    case True
    then have "find (\<lambda>a. attemptActiveForScheduling (a_Status a)) ?as \<noteq> None"
      using find_active_None [of ?as] by blast
    with True show ?thesis
      using next_id none assms(3)
      by (auto simp: decide assms(1,2) o deriveSchedule_def Let_def noRunnableReason_def split: if_splits)
  next
    case False
    then have idle: "find (\<lambda>a. attemptActiveForScheduling (a_Status a)) ?as = None"
      by (simp add: find_active_None)
    show ?thesis
    proof (cases "find (dependency_ready ?proven) ordered")
      case None
      then have "\<forall>u\<in>set ordered. wu_ID u \<in> set ?proven" using find_ready [OF o] by blast
      with None False idle show ?thesis
        using next_id none assms(3)
        by (auto simp: decide assms(1,2) o deriveSchedule_def Let_def noRunnableReason_def
            list_ex_iff schedule_entry_fields unit_schedule_proven)
    next
      case (Some u)
      then have u: "u \<in> set ordered" by (rule find_SomeD [THEN conjunct1])
      have "sv_NextRunnableID view = wu_ID u" using next_id False Some by simp
      with Some False show ?thesis
        using picked [OF u] units(5) u assms(3)
        by (auto simp: decide assms(1,2) o deriveSchedule_def Let_def noRunnableReason_def)
    qed
  qed
qed

lemma schedule_agrees_with_admission_witness:
  "sv_NoRunnableReason (projr (deriveSchedule sample_plan [] sample_half_proof (\<lambda>_. []))) \<noteq>
   NoRunnableAwaitingProof"
proof (rule schedule_agrees_with_admission [THEN conjunct2])
  show "pv_OutcomeID sample_half_proof = pr_OutcomeID sample_plan"
    "cr_Number (pv_Contract sample_half_proof) = pr_ContractRevisionNumber sample_plan"
    by code_simp+
  show "deriveSchedule sample_plan [] sample_half_proof (\<lambda>_. []) =
      Inr (projr (deriveSchedule sample_plan [] sample_half_proof (\<lambda>_. [])))"
    using sample_topological by (simp add: deriveSchedule_def sample_plan_def Let_def)
qed

section \<open>Hand-over\<close>

text \<open>What a work unit is given is, for each dependency in order, the receipt of the succeeded
  attempt with the greatest number for that dependency under this very plan, complete, frozen,
  valid and of matching lineage; if one dependency has none, nothing is handed over.\<close>

theorem handover_exact:
  "resolveUpstreamReceipts sha s plan u = Inr rs \<longleftrightarrow>
     list_all2 (\<lambda>d r. \<exists>a. 
         producingAttempt d (attemptsForPlan plan (ListAttempts s (pr_OutcomeID plan))) = Some a \<and>
         a \<in> set (st_Attempts s) \<and> a_Status a = AttemptSucceeded \<and> a_WorkUnitID a = d \<and>
         a_PlanRevisionID a = pr_ID plan \<and> a_OutcomeID a = pr_OutcomeID plan \<and>
         GetAttemptReceipt s (a_ID a) = Some r \<and> AttemptReceipt_Validate sha r = None \<and>
         rp_WorkUnitID r = d \<and> rp_PlanRevisionID r = pr_ID plan \<and>
         rp_ContractRevisionNumber r = pr_ContractRevisionNumber plan \<and>
         rp_RetentionState r = RetentionRetained \<and> Receipt_Frozen r) (wu_DependsOn u) rs"
proof -
  let ?as = "attemptsForPlan plan (ListAttempts s (pr_OutcomeID plan))"
  have "resolveUpstreamReceipts sha s plan u = Inr rs \<longleftrightarrow>
        list_all2 (handed_down sha (GetAttemptReceipt s) ?as) (wu_DependsOn u) rs"
    by (auto simp: resolveUpstreamReceipts_def upstream_receipts [symmetric])
  moreover have "handed_down sha (GetAttemptReceipt s) ?as d r \<longleftrightarrow> (\<exists>a. producingAttempt d ?as = Some a \<and>
       a \<in> set (st_Attempts s) \<and> a_Status a = AttemptSucceeded \<and> a_WorkUnitID a = d \<and>
       a_PlanRevisionID a = pr_ID plan \<and> a_OutcomeID a = pr_OutcomeID plan \<and>
       GetAttemptReceipt s (a_ID a) = Some r \<and> AttemptReceipt_Validate sha r = None \<and>
       rp_WorkUnitID r = d \<and> rp_PlanRevisionID r = pr_ID plan \<and>
       rp_ContractRevisionNumber r = pr_ContractRevisionNumber plan \<and>
       rp_RetentionState r = RetentionRetained \<and> Receipt_Frozen r)" for d r
  proof (cases "producingAttempt d ?as")
    case (Some a)
    have "a \<in> set (st_Attempts s)" "a_PlanRevisionID a = pr_ID plan" "a_OutcomeID a = pr_OutcomeID plan"
        "a_ContractRevisionNumber a = pr_ContractRevisionNumber plan"
      using producing_attempt(1) [OF Some] by (auto simp: attemptsForPlan_def ListAttempts_def)
    moreover have "rp_AttemptID r = a_ID a" if "GetAttemptReceipt s (a_ID a) = Some r"
      using that by (auto simp: GetAttemptReceipt_def dest: find_SomeD)
    ultimately show ?thesis
      using producing_attempt(2,3) [OF Some] Some by (auto simp: handed_down_def)
  qed (simp add: handed_down_def)
  ultimately show ?thesis by presburger
qed

end
