(* ===== verification/Composition.thy ===== *)
theory Composition
  imports Proof_View "HOL-Library.Product_Lexorder"
begin

text \<open>
  Composition of outcomes (internal/domain/outcome_composition.go, outcome_decomposition.go and
  outcome_contribution_gating.go): the criterion bindings of a contributing outcome, the authority a
  child may claim, the coverage of the criteria of a parent, the decomposition that proposes
  contributing outcomes with an order between them, and the gate that keeps a contributor from
  starting before its upstream siblings are accepted.
\<close>

section \<open>Contribution links\<close>

definition CompositionDepthLimit :: nat where
  "CompositionDepthLimit = 2"

datatype outcome_shape = OutcomeShapeDirect | OutcomeShapeDecomposed

definition ShapeForChildCount :: "nat \<Rightarrow> outcome_shape" where
  "ShapeForChildCount children = (if children > 0 then OutcomeShapeDecomposed else OutcomeShapeDirect)"

definition ContributionLink_Validate :: "contribution_link \<Rightarrow> validation" where
  "ContributionLink_Validate l = first_error
     [refuse (blank (lk_ID l)) (Errorf ''contribution link id is required'' []),
      refuse (blank (lk_ParentOutcomeID l)) (Errorf ''contribution link parent outcome id is required'' []),
      refuse (blank (lk_ChildOutcomeID l)) (Errorf ''contribution link child outcome id is required'' []),
      refuse (blank (lk_ParentContractRevisionID l))
        (Errorf ''contribution link parent contract revision id is required'' []),
      refuse (blank (lk_ParentCriterionID l))
        (Errorf ''contribution link parent criterion id is required'' []),
      refuse (lk_ParentOutcomeID l = lk_ChildOutcomeID l)
        (Errorf ''contribution link cannot bind an outcome to itself'' [])]"

definition link_check ::
  "ident \<Rightarrow> contribution_link \<Rightarrow> nat \<Rightarrow> ident list \<Rightarrow> contribution_link \<Rightarrow> validation" where
  "link_check child first i seen l = first_error
     [map_option (Wrapf ''contribution link %d: %w'' [Num (int i + 1)]) (ContributionLink_Validate l),
      refuse (lk_ChildOutcomeID l \<noteq> child)
        (Errorf ''contribution link %d belongs to outcome %q, not %q''
          [Num (int i + 1), Str (lk_ChildOutcomeID l), Str child]),
      refuse (lk_ParentOutcomeID l \<noteq> lk_ParentOutcomeID first)
        (Errorf ''contribution links name two different parents (%q and %q)''
          [Str (lk_ParentOutcomeID first), Str (lk_ParentOutcomeID l)]),
      refuse (lk_ParentContractRevisionID l \<noteq> lk_ParentContractRevisionID first)
        (Errorf ''contribution links span two parent contract revisions (%q and %q)''
          [Str (lk_ParentContractRevisionID first), Str (lk_ParentContractRevisionID l)]),
      refuse (lk_ParentCriterionID l \<in> set seen)
        (Errorf ''criterion %q is claimed twice by the same contributing outcome''
          [Str (lk_ParentCriterionID l)])]"

definition ValidateContributionLinkSet :: "ident \<Rightarrow> contribution_link list \<Rightarrow> validation" where
  "ValidateContributionLinkSet child links =
     (case links of
        [] \<Rightarrow> Some (Errorf ''a contributing outcome must claim at least one parent criterion'' [])
      | first # _ \<Rightarrow> each_seen lk_ParentCriterionID (link_check child first) 0 [] links)"

section \<open>Authority\<close>

definition AuthorityWidenings :: "proposed_authority \<Rightarrow> proposed_authority \<Rightarrow> string list" where
  "AuthorityWidenings parent child = concat (map
     (\<lambda>(name, parent_has, child_wants). if child_wants \<and> \<not> parent_has then [name] else [])
     [(''readWorkspace'', ReadWorkspace parent, ReadWorkspace child),
      (''writeWorkspace'', WriteWorkspace parent, WriteWorkspace child),
      (''executeLocal'', ExecuteLocal parent, ExecuteLocal child),
      (''useNetwork'', UseNetwork parent, UseNetwork child),
      (''commitLocal'', CommitLocal parent, CommitLocal child),
      (''createPR'', CreatePR parent, CreatePR child),
      (''deploy'', Deploy parent, Deploy child),
      (''externalEffect'', ExternalEffect parent, ExternalEffect child)])"

definition AuthorityContains :: "proposed_authority \<Rightarrow> proposed_authority \<Rightarrow> validation" where
  "AuthorityContains parent child =
     refuse (AuthorityWidenings parent child \<noteq> [])
       (Errorf ''contributing outcome widens parent authority: %s''
         [Str (joined (AuthorityWidenings parent child))])"

definition within :: "proposed_authority \<Rightarrow> proposed_authority \<Rightarrow> bool" where
  "within child parent \<longleftrightarrow>
     (ReadWorkspace child \<longrightarrow> ReadWorkspace parent) \<and> (WriteWorkspace child \<longrightarrow> WriteWorkspace parent) \<and>
     (ExecuteLocal child \<longrightarrow> ExecuteLocal parent) \<and> (UseNetwork child \<longrightarrow> UseNetwork parent) \<and>
     (CommitLocal child \<longrightarrow> CommitLocal parent) \<and> (CreatePR child \<longrightarrow> CreatePR parent) \<and>
     (Deploy child \<longrightarrow> Deploy parent) \<and> (ExternalEffect child \<longrightarrow> ExternalEffect parent)"

lemma widenings_Nil: "AuthorityWidenings parent child = [] \<longleftrightarrow> within child parent"
  by (auto simp: AuthorityWidenings_def within_def)

section \<open>Coverage\<close>

record criterion_claim =
  cm_CriterionID :: ident
  cm_Position :: int
  cm_Text :: string
  cm_ClaimedBy :: "ident list"

definition Claimed :: "criterion_claim \<Rightarrow> bool" where
  "Claimed c \<longleftrightarrow> length (cm_ClaimedBy c) > 0"

definition CriterionCoverage :: "contract_revision \<Rightarrow> contribution_link list \<Rightarrow> criterion_claim list" where
  "CriterionCoverage current links = sort_key cm_Position (map (\<lambda>c.
     \<lparr>cm_CriterionID = cc_ID c, cm_Position = cc_Position c, cm_Text = cc_Text c,
      cm_ClaimedBy = sort (map lk_ChildOutcomeID (filter (\<lambda>l.
        lk_ParentContractRevisionID l = cr_ID current \<and> lk_ParentCriterionID l = cc_ID c) links))\<rparr>)
     (cr_Criteria current))"

definition UnclaimedCriteria :: "contract_revision \<Rightarrow> contribution_link list \<Rightarrow> criterion_claim list" where
  "UnclaimedCriteria current links = filter (\<lambda>c. \<not> Claimed c) (CriterionCoverage current links)"

definition ContributionStale :: "contract_revision \<Rightarrow> contribution_link list \<Rightarrow> bool" where
  "ContributionStale current links = list_ex (\<lambda>l. lk_ParentContractRevisionID l \<noteq> cr_ID current) links"

section \<open>Decompositions\<close>

datatype decomposition_status = DecompositionProposed | DecompositionAuthorized
  | DecompositionUnsupported string

fun DecompositionStatus_Valid :: "decomposition_status \<Rightarrow> bool" where
  "DecompositionStatus_Valid (DecompositionUnsupported _) = False"
| "DecompositionStatus_Valid _ = True"

record proposed_contribution =
  pc_Ref :: string
  pc_Position :: int
  pc_Title :: string
  pc_Goal :: string
  pc_SuccessCriteria :: "string list"
  pc_Review :: string
  pc_Constraints :: "string list"
  pc_NonGoals :: "string list"
  pc_Authority :: proposed_authority
  pc_ClaimedCriteria :: "ident list"
  pc_ChildOutcomeID :: ident

record contribution_dependency =
  dp_ID :: string
  dp_FromRef :: string
  dp_ToRef :: string

record decomposition_revision =
  de_ID :: ident
  de_OutcomeID :: ident
  de_Number :: int
  de_ContractRevisionID :: ident
  de_Status :: decomposition_status
  de_Rationale :: string
  de_Contributors :: "proposed_contribution list"
  de_RetainedCriteria :: "ident list"
  de_Dependencies :: "contribution_dependency list"
  de_CreatedAt :: instant
  de_AuthorizedAt :: "instant option"

definition ProposedContribution_Validate :: "proposed_contribution \<Rightarrow> validation" where
  "ProposedContribution_Validate c =
     (let msg = (\<lambda>m. Errorf m [Str (pc_Ref c)]) in first_error
      [refuse (blank (pc_Ref c)) (Errorf ''proposed contribution ref is required'' []),
       refuse (pc_Position c < 1) (msg ''proposed contribution %q position must be at least 1''),
       refuse (blank (pc_Title c)) (msg ''proposed contribution %q title is required''),
       refuse (blank (pc_Goal c)) (msg ''proposed contribution %q goal is required''),
       refuse (blank (pc_Review c)) (msg ''proposed contribution %q review method is required''),
       refuse (length (pc_SuccessCriteria c) = 0)
         (msg ''proposed contribution %q requires at least one success criterion''),
       refuse (length (pc_ClaimedCriteria c) = 0) (msg ''proposed contribution %q claims no parent criterion''),
       each_index (\<lambda>i t. refuse (blank t)
         (Errorf ''proposed contribution %q success criterion %d is blank'' [Str (pc_Ref c), Num (int i + 1)]))
         (pc_SuccessCriteria c),
       each_seen id (\<lambda>_ seen k. first_error
         [refuse (blank k) (msg ''proposed contribution %q claims a blank criterion''),
          refuse (k \<in> set seen)
            (Errorf ''proposed contribution %q claims criterion %q twice'' [Str (pc_Ref c), Str k])])
         0 [] (pc_ClaimedCriteria c)])"

definition ContributionDependency_Validate :: "contribution_dependency \<Rightarrow> validation" where
  "ContributionDependency_Validate d = first_error
     [refuse (blank (dp_ID d)) (Errorf ''contribution dependency id is required'' []),
      refuse (blank (dp_FromRef d)) (Errorf ''contribution dependency source ref is required'' []),
      refuse (blank (dp_ToRef d)) (Errorf ''contribution dependency target ref is required'' []),
      refuse (dp_FromRef d = dp_ToRef d)
        (Errorf ''contribution %q cannot depend on itself'' [Str (dp_FromRef d)])]"

subsection \<open>The order between contributions\<close>

text \<open>The walk of \<^verbatim>\<open>ValidateDependencyOrdering\<close>: depth first, with the references on the
  stack marked, the stack itself kept in \<^verbatim>\<open>path\<close>. The recursive closure becomes two
  functions, the body of the closure and its loop over the next references; the fuel bounds the
  depth of the recursion, and \<^verbatim>\<open>None\<close> is running out of it.\<close>

datatype visit = Unvisited | OnStack | Done

type_synonym dfs = "(string \<Rightarrow> visit) \<times> string list"

definition ordering_edges :: "contribution_dependency list \<Rightarrow> string \<Rightarrow> string list" where
  "ordering_edges ds ref = sort (map dp_ToRef (filter (\<lambda>d. dp_FromRef d = ref) ds))"

fun arrows :: "string list \<Rightarrow> string" where
  "arrows [] = []"
| "arrows [n] = n"
| "arrows (n # ns) = n @ '' -> '' @ arrows ns"

definition cycle_error :: "string list \<Rightarrow> string \<Rightarrow> error" where
  "cycle_error path nxt = Errorf ''contribution dependencies form a cycle: %s -> %s''
     [Str (arrows (dropWhile (\<lambda>entry. entry \<noteq> nxt) path)), Str nxt]"

function explore :: "nat \<Rightarrow> (string \<Rightarrow> string list) \<Rightarrow> string \<Rightarrow> dfs \<Rightarrow> (error + dfs) option"
  and explore_each :: "nat \<Rightarrow> (string \<Rightarrow> string list) \<Rightarrow> string list \<Rightarrow> dfs \<Rightarrow> (error + dfs) option" where
  "explore 0 succs ref s = None"
| "explore (Suc n) succs ref (state, path) =
     (case explore_each n succs (succs ref) (state(ref := OnStack), path @ [ref]) of
        None \<Rightarrow> None
      | Some (Inl e) \<Rightarrow> Some (Inl e)
      | Some (Inr (state', path')) \<Rightarrow> Some (Inr (state'(ref := Done), butlast path')))"
| "explore_each n succs [] s = Some (Inr s)"
| "explore_each n succs (nxt # rest) (state, path) =
     (case state nxt of
        OnStack \<Rightarrow> Some (Inl (cycle_error path nxt))
      | Done \<Rightarrow> explore_each n succs rest (state, path)
      | Unvisited \<Rightarrow>
          (case explore n succs nxt (state, path) of
             None \<Rightarrow> None
           | Some (Inl e) \<Rightarrow> Some (Inl e)
           | Some (Inr s) \<Rightarrow> explore_each n succs rest s))"
  by pat_completeness auto

termination
  by (relation "measures [\<lambda>x. case x of Inl (n, _) \<Rightarrow> n | Inr (n, _) \<Rightarrow> n,
                          \<lambda>x. case x of Inl _ \<Rightarrow> 0 | Inr (_, _, xs, _) \<Rightarrow> Suc (length xs)]") auto

text \<open>The outer loop starts the walk at every reference not visited yet.\<close>

fun explore_roots :: "nat \<Rightarrow> (string \<Rightarrow> string list) \<Rightarrow> string list \<Rightarrow> dfs \<Rightarrow> (error + dfs) option" where
  "explore_roots n succs [] s = Some (Inr s)"
| "explore_roots n succs (ref # refs) s =
     (if fst s ref = Unvisited
      then case explore n succs ref s of
             None \<Rightarrow> None
           | Some (Inl e) \<Rightarrow> Some (Inl e)
           | Some (Inr s') \<Rightarrow> explore_roots n succs refs s'
      else explore_roots n succs refs s)"

definition ordering_fuel :: "proposed_contribution list \<Rightarrow> contribution_dependency list \<Rightarrow> nat" where
  "ordering_fuel cs ds = length cs + length ds"

definition ValidateDependencyOrdering ::
  "proposed_contribution list \<Rightarrow> contribution_dependency list \<Rightarrow> validation option" where
  "ValidateDependencyOrdering cs ds =
     (if ds = [] then Some None
      else case explore_roots (ordering_fuel cs ds) (ordering_edges ds) (sort (map pc_Ref cs))
                  (\<lambda>_. Unvisited, []) of
             None \<Rightarrow> None
           | Some (Inl e) \<Rightarrow> Some (Some e)
           | Some (Inr _) \<Rightarrow> Some None)"

subsubsection \<open>The walk finds a cycle or proves that there is none\<close>

definition succ_rel :: "(string \<Rightarrow> string list) \<Rightarrow> (string \<times> string) set" where
  "succ_rel succs = {(u, v). v \<in> set (succs u)}"

definition dfs_ok :: "(string \<Rightarrow> string list) \<Rightarrow> dfs \<Rightarrow> bool" where
  "dfs_ok succs s \<longleftrightarrow>
     distinct (snd s) \<and> (\<forall>x. x \<in> set (snd s) \<longleftrightarrow> fst s x = OnStack) \<and>
     successively (\<lambda>u v. v \<in> set (succs u)) (snd s) \<and>
     (\<forall>u v. fst s u = Done \<longrightarrow> v \<in> set (succs u) \<longrightarrow> fst s v = Done) \<and>
     (\<forall>u. fst s u = Done \<longrightarrow> (u, u) \<notin> (succ_rel succs)\<^sup>+)"

definition on_path :: "(string \<Rightarrow> string list) \<Rightarrow> string list \<Rightarrow> dfs \<Rightarrow> bool" where
  "on_path succs xs s \<longleftrightarrow> snd s \<noteq> [] \<longrightarrow> set xs \<subseteq> set (succs (last (snd s)))"

definition grown :: "dfs \<Rightarrow> dfs \<Rightarrow> bool" where
  "grown s s' \<longleftrightarrow> snd s' = snd s \<and> (\<forall>x. fst s x = Done \<longrightarrow> fst s' x = Done)"

lemma grown_trans: "grown s t \<Longrightarrow> grown t u \<Longrightarrow> grown s u"
  by (simp add: grown_def)

lemma dfs_ok_push:
  assumes "dfs_ok succs (state, path)" "state ref = Unvisited" "on_path succs [ref] (state, path)"
  shows "dfs_ok succs (state(ref := OnStack), path @ [ref])"
    "on_path succs (succs ref) (state(ref := OnStack), path @ [ref])"
proof -
  have "ref \<notin> set path" using assms(1,2) by (auto simp: dfs_ok_def)
  then show "dfs_ok succs (state(ref := OnStack), path @ [ref])"
    using assms by (auto simp: dfs_ok_def on_path_def successively_append_iff)
qed (simp add: on_path_def)

lemma done_closed:
  assumes "dfs_ok succs s" "(u, v) \<in> (succ_rel succs)\<^sup>*" "fst s u = Done"
  shows "fst s v = Done"
  using assms(2,3) by (induction rule: rtrancl_induct) (use assms(1) in \<open>auto simp: dfs_ok_def succ_rel_def\<close>)

lemma dfs_ok_pop:
  assumes ok: "dfs_ok succs (state, path @ [ref])" and finished: "\<forall>x\<in>set (succs ref). state x = Done"
  shows "dfs_ok succs (state(ref := Done), path)"
proof -
  have ref: "ref \<notin> set path" "state ref = OnStack" using ok by (auto simp: dfs_ok_def)
  have acyclic: "(ref, ref) \<notin> (succ_rel succs)\<^sup>+"
  proof
    assume "(ref, ref) \<in> (succ_rel succs)\<^sup>+"
    then obtain v where "(ref, v) \<in> succ_rel succs" "(v, ref) \<in> (succ_rel succs)\<^sup>*"
      by (meson tranclD)
    then have "state ref = Done" using done_closed [OF ok] finished by (auto simp: succ_rel_def)
    with ref show False by simp
  qed
  have stack: "x \<in> set path \<longleftrightarrow> (state(ref := Done)) x = OnStack" for x
  proof -
    have "x \<in> set (path @ [ref]) \<longleftrightarrow> state x = OnStack"
      using ok unfolding dfs_ok_def fst_conv snd_conv by blast
    then show ?thesis using ref(1) by (cases "x = ref") simp_all
  qed
  have closed: "(state(ref := Done)) v = Done"
    if "(state(ref := Done)) u = Done" "v \<in> set (succs u)" for u v
  proof (cases "u = ref")
    case True
    then show ?thesis using that(2) finished by simp
  next
    case False
    then have "state u = Done" using that(1) by simp
    then have "state v = Done" using ok that(2) unfolding dfs_ok_def fst_conv by blast
    then show ?thesis by simp
  qed
  have "distinct path" "successively (\<lambda>u v. v \<in> set (succs u)) path"
    using ok by (simp_all add: dfs_ok_def successively_append_iff)
  moreover have "(u, u) \<notin> (succ_rel succs)\<^sup>+" if "(state(ref := Done)) u = Done" for u
    using that ok acyclic by (cases "u = ref") (simp_all add: dfs_ok_def)
  ultimately show ?thesis using stack closed unfolding dfs_ok_def fst_conv snd_conv by blast
qed

lemma path_reaches_last:
  "successively (\<lambda>u v. v \<in> set (succs u)) path \<Longrightarrow> x \<in> set path \<Longrightarrow>
   (x, last path) \<in> (succ_rel succs)\<^sup>*"
proof (induction path arbitrary: x rule: induct_list012)
  case (3 p q path)
  let ?R = "(succ_rel succs)\<^sup>*"
  have pq: "(p, q) \<in> succ_rel succs" and tail: "successively (\<lambda>u v. v \<in> set (succs u)) (q # path)"
    using "3.prems"(1) by (auto simp: succ_rel_def)
  have "(q, last (q # path)) \<in> ?R" using "3.IH"(2) [OF tail, of q] by simp
  then have "(p, last (q # path)) \<in> ?R" using pq by (rule converse_rtrancl_into_rtrancl [rotated])
  then show ?case using "3.prems"(2) "3.IH"(2) [OF tail, of x] by auto
qed simp_all

lemma explore_correct:
  "dfs_ok succs s \<Longrightarrow> fst s ref = Unvisited \<Longrightarrow> on_path succs [ref] s \<Longrightarrow>
     (explore n succs ref s = Some (Inr s') \<longrightarrow> dfs_ok succs s' \<and> grown s s' \<and> fst s' ref = Done) \<and>
     (explore n succs ref s = Some (Inl e) \<longrightarrow> (\<exists>x. (x, x) \<in> (succ_rel succs)\<^sup>+))"
  "dfs_ok succs s \<Longrightarrow> snd s \<noteq> [] \<Longrightarrow> on_path succs xs s \<Longrightarrow>
     (explore_each n succs xs s = Some (Inr s') \<longrightarrow>
        dfs_ok succs s' \<and> grown s s' \<and> (\<forall>x\<in>set xs. fst s' x = Done)) \<and>
     (explore_each n succs xs s = Some (Inl e) \<longrightarrow> (\<exists>x. (x, x) \<in> (succ_rel succs)\<^sup>+))"
proof (induction n succs ref s and n succs xs s arbitrary: s' e and s' e
    rule: explore_explore_each.induct)
  case (2 n succs ref state path)
  note push = dfs_ok_push [OF "2.prems"(1) _ "2.prems"(3)]
  have pushed: "dfs_ok succs (state(ref := OnStack), path @ [ref])"
    "on_path succs (succs ref) (state(ref := OnStack), path @ [ref])"
    using push "2.prems"(2) by simp_all
  note IH = "2.IH" [OF pushed(1) _ pushed(2), simplified]
  show ?case
  proof (intro conjI impI)
    assume "explore (Suc n) succs ref (state, path) = Some (Inr s')"
    then obtain st' p' where inner: "explore_each n succs (succs ref) (state(ref := OnStack), path @ [ref]) =
          Some (Inr (st', p'))" and s': "s' = (st'(ref := Done), butlast p')"
      by (auto split: option.splits sum.splits)
    then have r: "dfs_ok succs (st', p')" "p' = path @ [ref]" "\<forall>x\<in>set (succs ref). st' x = Done"
        "\<forall>x. x \<noteq> ref \<longrightarrow> state x = Done \<longrightarrow> st' x = Done"
      using IH by (auto simp: grown_def)
    show "dfs_ok succs s'" using dfs_ok_pop r s' by simp
    show "grown (state, path) s'" using r s' by (simp add: grown_def)
    show "fst s' ref = Done" by (simp add: s')
  next
    assume "explore (Suc n) succs ref (state, path) = Some (Inl e)"
    then show "\<exists>x. (x, x) \<in> (succ_rel succs)\<^sup>+"
      using IH by (auto split: option.splits sum.splits)
  qed
next
  case (4 n succs nxt rest state path)
  have rest: "on_path succs rest (state, path)" and nxt: "on_path succs [nxt] (state, path)"
    using "4.prems"(2,3) by (auto simp: on_path_def)
  show ?case
  proof (cases "state nxt")
    case OnStack
    have chain: "successively (\<lambda>u v. v \<in> set (succs u)) path" "nxt \<in> set path"
      using "4.prems"(1) OnStack by (auto simp: dfs_ok_def)
    then have "(nxt, last path) \<in> (succ_rel succs)\<^sup>*" by (rule path_reaches_last)
    moreover have "(last path, nxt) \<in> succ_rel succs"
      using "4.prems"(2,3) by (auto simp: on_path_def succ_rel_def)
    ultimately have "(nxt, nxt) \<in> (succ_rel succs)\<^sup>+" by auto
    then show ?thesis using OnStack by auto
  next
    case Done
    then show ?thesis using "4.IH"(3) [OF Done "4.prems"(1,2) rest, of s' e] by (auto simp: grown_def)
  next
    case Unvisited
    note first = "4.IH"(1) [OF Unvisited "4.prems"(1) _ nxt]
    show ?thesis
    proof (cases "explore n succs nxt (state, path)")
      case (Some r)
      show ?thesis
      proof (cases r)
        case (Inl e')
        then show ?thesis using first [of _ e'] Some Unvisited by auto
      next
        case (Inr s1)
        then have w: "explore n succs nxt (state, path) = Some (Inr s1)" using Some by simp
        have s1: "dfs_ok succs s1" "grown (state, path) s1" "fst s1 nxt = Done"
          using first [of s1] w Unvisited by auto
        then have more: "snd s1 \<noteq> []" "on_path succs rest s1"
          using "4.prems"(2) rest by (auto simp: grown_def on_path_def)
        note IH = "4.IH"(2) [OF Unvisited w _ s1(1) more]
        have same: "explore_each n succs (nxt # rest) (state, path) = explore_each n succs rest s1"
          using Unvisited w by simp
        show ?thesis unfolding same
          using IH [of s' e] s1 grown_trans [OF s1(2)] by (auto simp: grown_def)
      qed
    qed (use Unvisited in simp)
  qed
qed (auto simp: grown_def)

lemma explore_unvisited:
  "explore n succs ref s = Some (Inr s') \<Longrightarrow> fst s' x = Unvisited \<Longrightarrow> fst s x = Unvisited"
  "explore_each n succs xs s = Some (Inr s') \<Longrightarrow> fst s' x = Unvisited \<Longrightarrow> fst s x = Unvisited"
proof (induction n succs ref s and n succs xs s arbitrary: s' and s' rule: explore_explore_each.induct)
  case (2 n succs ref state path)
  then obtain st' p' where "explore_each n succs (succs ref) (state(ref := OnStack), path @ [ref]) = Some (Inr (st', p'))"
      "s' = (st'(ref := Done), butlast p')"
    by (auto split: option.splits sum.splits)
  then show ?case using "2.IH" [of "(st', p')"] "2.prems"(2) by (auto split: if_splits)
next
  case (4 n succs nxt rest state path)
  show ?case
  proof (cases "state nxt")
    case Unvisited
    then obtain s1 where "explore n succs nxt (state, path) = Some (Inr s1)"
        "explore_each n succs rest s1 = Some (Inr s')"
      using "4.prems"(1) by (auto split: option.splits sum.splits)
    then show ?thesis using "4.IH"(1,2) Unvisited "4.prems"(2) by blast
  next
    case Done
    then show ?thesis using "4.IH"(3) "4.prems" by simp
  qed (use "4.prems" in simp)
qed simp_all

definition unvisited :: "string set \<Rightarrow> dfs \<Rightarrow> nat" where
  "unvisited nodes s = card {x \<in> nodes. fst s x = Unvisited}"

lemma unvisited_push:
  assumes "finite nodes" "ref \<in> nodes" "state ref = Unvisited" "unvisited nodes (state, path) \<le> Suc n"
  shows "unvisited nodes (state(ref := OnStack), path') \<le> n"
proof -
  have "{x \<in> nodes. (state(ref := OnStack)) x = Unvisited} = {x \<in> nodes. state x = Unvisited} - {ref}"
    by auto
  then show ?thesis using assms by (simp add: unvisited_def)
qed

lemma unvisited_explore:
  assumes "finite nodes" "explore n succs ref s = Some (Inr s')"
  shows "unvisited nodes s' \<le> unvisited nodes s"
  unfolding unvisited_def
proof (rule card_mono)
  show "{x \<in> nodes. fst s' x = Unvisited} \<subseteq> {x \<in> nodes. fst s x = Unvisited}"
    using explore_unvisited(1) [OF assms(2)] by blast
qed (use assms(1) in simp)

lemma explore_returns:
  "finite nodes \<Longrightarrow> \<forall>u\<in>nodes. set (succs u) \<subseteq> nodes \<Longrightarrow> ref \<in> nodes \<Longrightarrow> fst s ref = Unvisited \<Longrightarrow>
     unvisited nodes s \<le> n \<Longrightarrow> explore n succs ref s \<noteq> None"
  "finite nodes \<Longrightarrow> \<forall>u\<in>nodes. set (succs u) \<subseteq> nodes \<Longrightarrow> set xs \<subseteq> nodes \<Longrightarrow>
     unvisited nodes s \<le> n \<Longrightarrow> explore_each n succs xs s \<noteq> None"
proof (induction n succs ref s and n succs xs s rule: explore_explore_each.induct)
  case (1 succs ref s)
  then have "{x \<in> nodes. fst s x = Unvisited} = {}" by (simp add: unvisited_def)
  then show ?case using "1.prems"(3,4) by auto
next
  case (2 n succs ref state path)
  have "explore_each n succs (succs ref) (state(ref := OnStack), path @ [ref]) \<noteq> None"
    using "2.prems" unvisited_push [of nodes ref state path n] by (intro "2.IH") auto
  then show ?case by (auto split: option.splits sum.splits)
next
  case (4 n succs nxt rest state path)
  show ?case
  proof (cases "state nxt")
    case Unvisited
    have first: "explore n succs nxt (state, path) \<noteq> None"
      using "4.prems" Unvisited by (intro "4.IH"(1)) auto
    have "explore_each n succs rest s1 \<noteq> None" if "explore n succs nxt (state, path) = Some (Inr s1)" for s1
      using that "4.prems" Unvisited unvisited_explore [OF "4.prems"(1) that]
      by (intro "4.IH"(2)) auto
    then show ?thesis using first Unvisited by (auto split: option.splits sum.splits)
  qed (use "4" in auto)
qed simp_all

lemma roots_return:
  assumes "finite nodes" "\<forall>u\<in>nodes. set (succs u) \<subseteq> nodes"
  shows "set refs \<subseteq> nodes \<Longrightarrow> unvisited nodes s \<le> n \<Longrightarrow> explore_roots n succs refs s \<noteq> None"
proof (induction refs arbitrary: s)
  case (Cons ref refs)
  show ?case
  proof (cases "fst s ref = Unvisited")
    case True
    have first: "explore n succs ref s \<noteq> None"
      using Cons.prems True by (intro explore_returns(1) [OF assms]) simp_all
    have "explore_roots n succs refs s1 \<noteq> None" if "explore n succs ref s = Some (Inr s1)" for s1
      using that Cons.prems unvisited_explore [OF assms(1) that] by (intro Cons.IH) auto
    then show ?thesis using first True by (auto split: option.splits sum.splits)
  qed (use Cons in simp)
qed simp

lemma roots_correct:
  "dfs_ok succs s \<Longrightarrow> snd s = [] \<Longrightarrow>
     (explore_roots n succs refs s = Some (Inr s') \<longrightarrow>
        dfs_ok succs s' \<and> grown s s' \<and> (\<forall>x\<in>set refs. fst s' x = Done)) \<and>
     (explore_roots n succs refs s = Some (Inl e) \<longrightarrow> (\<exists>x. (x, x) \<in> (succ_rel succs)\<^sup>+))"
proof (induction refs arbitrary: s)
  case (Cons ref refs)
  show ?case
  proof (cases "fst s ref = Unvisited")
    case True
    have top: "on_path succs [ref] s" using Cons.prems(2) by (simp add: on_path_def)
    note first = explore_correct(1) [OF Cons.prems(1) True top, of n]
    show ?thesis
    proof (cases "explore n succs ref s")
      case (Some r)
      show ?thesis
      proof (cases r)
        case (Inl e')
        then show ?thesis using first [of _ e'] Some True by auto
      next
        case (Inr s1)
        then have s1: "dfs_ok succs s1" "grown s s1" "fst s1 ref = Done"
          using first [of s1] Some by auto
        have same: "explore_roots n succs (ref # refs) s = explore_roots n succs refs s1"
          using True Some Inr by simp
        show ?thesis unfolding same
          using Cons.IH [OF s1(1)] Cons.prems(2) s1 grown_trans [OF s1(2)] by (auto simp: grown_def)
      qed
    qed (use True in simp)
  next
    case False
    moreover from this have "fst s ref = Done"
      using Cons.prems by (cases "fst s ref") (auto simp: dfs_ok_def)
    ultimately show ?thesis using Cons.IH [OF Cons.prems] by (auto simp: grown_def)
  qed
qed (auto simp: grown_def)

definition dependency_rel :: "contribution_dependency list \<Rightarrow> (string \<times> string) set" where
  "dependency_rel ds = (\<lambda>d. (dp_FromRef d, dp_ToRef d)) ` set ds"

lemma succ_rel_ordering: "succ_rel (ordering_edges ds) = dependency_rel ds"
  by (auto simp: succ_rel_def ordering_edges_def dependency_rel_def)

lemma ordering_returns: "\<exists>r. ValidateDependencyOrdering cs ds = Some r"
proof -
  let ?nodes = "pc_Ref ` set cs \<union> dp_ToRef ` set ds"
  have "card ?nodes \<le> card (pc_Ref ` set cs) + card (dp_ToRef ` set ds)" by (rule card_Un_le)
  also have "\<dots> \<le> ordering_fuel cs ds"
    unfolding ordering_fuel_def by (intro add_mono order_trans [OF card_image_le card_length]) simp_all
  finally have "unvisited ?nodes (\<lambda>_. Unvisited, []) \<le> ordering_fuel cs ds"
    by (simp only: unvisited_def fst_conv simp_thms Collect_mem_eq)
  then have "explore_roots (ordering_fuel cs ds) (ordering_edges ds) (sort (map pc_Ref cs)) (\<lambda>_. Unvisited, []) \<noteq> None"
    by (intro roots_return [where nodes = ?nodes]) (auto simp: ordering_edges_def)
  then show ?thesis by (auto simp: ValidateDependencyOrdering_def split: option.splits sum.splits)
qed

lemma ordering_accepts:
  assumes "dp_FromRef ` set ds \<subseteq> pc_Ref ` set cs"
  shows "ValidateDependencyOrdering cs ds = Some None \<longleftrightarrow> acyclic (dependency_rel ds)"
proof (cases "ds = []")
  case False
  let ?succs = "ordering_edges ds" and ?s = "(\<lambda>_ :: string. Unvisited, [] :: string list)"
  let ?explore = "explore_roots (ordering_fuel cs ds) ?succs (sort (map pc_Ref cs)) ?s"
  have ok: "dfs_ok ?succs ?s" by (simp add: dfs_ok_def)
  note correct = roots_correct [OF ok, of "ordering_fuel cs ds" "sort (map pc_Ref cs)", simplified,
      unfolded succ_rel_ordering]
  have "?explore \<noteq> None"
    using ordering_returns [of cs ds] False
    by (auto simp: ValidateDependencyOrdering_def split: option.splits)
  then obtain r where r: "?explore = Some r" by blast
  show ?thesis
  proof (cases r)
    case (Inl e)
    then have "ValidateDependencyOrdering cs ds = Some (Some e)"
      using r False by (simp add: ValidateDependencyOrdering_def)
    moreover have "\<not> acyclic (dependency_rel ds)"
      using correct [of undefined e] r Inl by (auto simp: acyclic_def)
    ultimately show ?thesis by simp
  next
    case (Inr s)
    then have "ValidateDependencyOrdering cs ds = Some None"
      using r False by (simp add: ValidateDependencyOrdering_def)
    moreover have "(x, x) \<notin> (dependency_rel ds)\<^sup>+" for x
    proof
      assume cycle: "(x, x) \<in> (dependency_rel ds)\<^sup>+"
      then obtain y where "(x, y) \<in> dependency_rel ds" by (meson tranclD)
      then have "x \<in> pc_Ref ` set cs" using assms by (auto simp: dependency_rel_def)
      moreover have "dfs_ok ?succs s" "\<forall>x\<in>pc_Ref ` set cs. fst s x = Done"
        using correct [of s undefined] r Inr by auto
      ultimately show False using cycle by (auto simp: dfs_ok_def succ_rel_ordering)
    qed
    ultimately show ?thesis by (simp add: acyclic_def)
  qed
qed (simp add: ValidateDependencyOrdering_def dependency_rel_def acyclic_def)

subsection \<open>Validation of a decomposition\<close>

definition contribution_check :: "nat \<Rightarrow> string list \<Rightarrow> proposed_contribution \<Rightarrow> validation" where
  "contribution_check i seen c = first_error
     [ProposedContribution_Validate c,
      refuse (pc_Ref c \<in> set seen) (Errorf ''decomposition names contribution ref %q twice'' [Str (pc_Ref c)])]"

definition retained_check :: "proposed_contribution list \<Rightarrow> ident \<Rightarrow> validation" where
  "retained_check cs k = first_error
     [refuse (blank k) (Errorf ''decomposition retains a blank criterion'' []),
      map_option (\<lambda>c. Errorf ''criterion %q is both retained by the owner and claimed by contribution %q''
          [Str k, Str (pc_Ref c)])
        (find (\<lambda>c. k \<in> set (pc_ClaimedCriteria c)) cs)]"

definition dependency_check :: "string set \<Rightarrow> contribution_dependency \<Rightarrow> validation" where
  "dependency_check refs d = first_error
     [ContributionDependency_Validate d,
      refuse (dp_FromRef d \<notin> refs) (Errorf ''dependency names unknown contribution %q'' [Str (dp_FromRef d)]),
      refuse (dp_ToRef d \<notin> refs) (Errorf ''dependency names unknown contribution %q'' [Str (dp_ToRef d)])]"

definition decomposition_checks :: "decomposition_revision \<Rightarrow> validation" where
  "decomposition_checks d = first_error
     [refuse (blank (de_ID d)) (Errorf ''decomposition revision id is required'' []),
      refuse (blank (de_OutcomeID d)) (Errorf ''decomposition revision outcome id is required'' []),
      refuse (de_Number d < 1) (Errorf ''decomposition revision number must be at least 1'' []),
      refuse (blank (de_ContractRevisionID d))
        (Errorf ''decomposition revision must bind a parent contract revision'' []),
      refuse (\<not> DecompositionStatus_Valid (de_Status d)) (Errorf ''unsupported decomposition status %q'' []),
      refuse (blank (de_Rationale d))
        (Errorf ''decomposition revision requires a plain-language rationale'' []),
      refuse (length (de_Contributors d) = 0)
        (Errorf ''decomposition revision requires at least one contributing outcome'' []),
      each_seen pc_Ref contribution_check 0 [] (de_Contributors d),
      each_elem (retained_check (de_Contributors d)) (de_RetainedCriteria d),
      each_elem (dependency_check (pc_Ref ` set (de_Contributors d))) (de_Dependencies d)]"

text \<open>\<^verbatim>\<open>None\<close> only when the walk runs out of fuel, which \<^verbatim>\<open>ordering_returns\<close>
  rules out.\<close>

definition DecompositionRevision_Validate :: "decomposition_revision \<Rightarrow> validation option" where
  "DecompositionRevision_Validate d =
     (case decomposition_checks d of
        Some e \<Rightarrow> Some (Some e)
      | None \<Rightarrow> ValidateDependencyOrdering (de_Contributors d) (de_Dependencies d))"

definition UncoveredCriteria ::
  "contract_revision \<Rightarrow> proposed_contribution list \<Rightarrow> ident list \<Rightarrow> contract_criterion list" where
  "UncoveredCriteria current cs retained =
     (let accounted = concat (map pc_ClaimedCriteria cs) @ retained in
      filter (\<lambda>c. cc_ID c \<notin> set accounted) (cr_Criteria current))"

definition UnknownClaimedCriteria ::
  "contract_revision \<Rightarrow> proposed_contribution list \<Rightarrow> ident list \<Rightarrow> ident list" where
  "UnknownClaimedCriteria current cs retained =
     rev (remdups (rev (filter (\<lambda>k. k \<notin> cc_ID ` set (cr_Criteria current))
       (concat (map pc_ClaimedCriteria cs) @ retained))))"

definition OverClaimedAuthority ::
  "proposed_authority \<Rightarrow> proposed_contribution list \<Rightarrow> string \<rightharpoonup> string list" where
  "OverClaimedAuthority parent cs = foldl (\<lambda>m c.
     let widened = AuthorityWidenings parent (pc_Authority c) in
     if length widened > 0 then m(pc_Ref c \<mapsto> widened) else m) Map.empty cs"

lemma over_claimed_None:
  "OverClaimedAuthority parent cs = Map.empty \<longleftrightarrow> (\<forall>c\<in>set cs. within (pc_Authority c) parent)"
  unfolding OverClaimedAuthority_def
proof (induction cs rule: rev_induct)
  case (snoc c cs)
  then show ?case by (auto simp: Let_def widenings_Nil fun_upd_def fun_eq_iff)
qed simp

lemma uncovered_criteria_Nil:
  "UncoveredCriteria current cs retained = [] \<longleftrightarrow>
     (\<forall>k\<in>set (cr_Criteria current).
        cc_ID k \<in> set retained \<or> (\<exists>c\<in>set cs. cc_ID k \<in> set (pc_ClaimedCriteria c)))"
  by (auto simp: UncoveredCriteria_def filter_empty_conv)

lemma unknown_Nil:
  "UnknownClaimedCriteria current cs retained = [] \<longleftrightarrow>
     set retained \<union> (\<Union>c\<in>set cs. set (pc_ClaimedCriteria c)) \<subseteq> cc_ID ` set (cr_Criteria current)"
  by (auto simp: UnknownClaimedCriteria_def filter_empty_conv)

lemma contribution_check_None:
  "contribution_check i seen c = None \<longleftrightarrow> ProposedContribution_Validate c = None \<and> pc_Ref c \<notin> set seen"
  by (simp add: contribution_check_def guards)

lemma decomposition_valid:
  assumes "DecompositionRevision_Validate d = Some None"
  shows "distinct (map pc_Ref (de_Contributors d))" "acyclic (dependency_rel (de_Dependencies d))"
    "\<forall>dep\<in>set (de_Dependencies d). dp_FromRef dep \<in> pc_Ref ` set (de_Contributors d) \<and>
       dp_ToRef dep \<in> pc_Ref ` set (de_Contributors d)"
proof -
  have checks: "decomposition_checks d = None"
    and order: "ValidateDependencyOrdering (de_Contributors d) (de_Dependencies d) = Some None"
    using assms by (auto simp: DecompositionRevision_Validate_def split: option.splits)
  show "distinct (map pc_Ref (de_Contributors d))"
    using checks unfolding decomposition_checks_def first_error_Cons
    by (auto simp: each_seen_fresh_elem [of contribution_check "\<lambda>c. ProposedContribution_Validate c = None" pc_Ref,
          OF contribution_check_None])
  show refs: "\<forall>dep\<in>set (de_Dependencies d). dp_FromRef dep \<in> pc_Ref ` set (de_Contributors d) \<and>
       dp_ToRef dep \<in> pc_Ref ` set (de_Contributors d)"
    using checks unfolding decomposition_checks_def first_error_Cons
    by (auto simp: each_elem_None dependency_check_def guards)
  show "acyclic (dependency_rel (de_Dependencies d))"
    using order refs by (subst ordering_accepts [symmetric]) auto
qed

section \<open>The start gate\<close>

datatype waiver_actor = WaivedByUser | WaivedByOther string

record dependency_waiver =
  wv_ID :: ident
  wv_DecompositionID :: ident
  wv_FromRef :: string
  wv_ToRef :: string
  wv_Reason :: string
  wv_WaivedBy :: waiver_actor
  wv_CreatedAt :: instant

definition ContributionDependencyWaiver_Validate :: "dependency_waiver \<Rightarrow> validation" where
  "ContributionDependencyWaiver_Validate w = first_error
     [refuse (blank (wv_ID w)) (Errorf ''contribution waiver id is required'' []),
      refuse (blank (wv_DecompositionID w)) (Errorf ''contribution waiver decomposition id is required'' []),
      refuse (blank (wv_FromRef w)) (Errorf ''contribution waiver source ref is required'' []),
      refuse (blank (wv_ToRef w)) (Errorf ''contribution waiver target ref is required'' []),
      refuse (blank (wv_Reason w)) (Errorf ''a dependency waiver requires a reason'' []),
      refuse (wv_WaivedBy w \<noteq> WaivedByUser)
        (Errorf ''only the user may waive a contribution dependency'' [])]"

record upstream_block =
  ub_Ref :: string
  ub_OutcomeID :: ident
  ub_Title :: string
  ub_Reason :: string

record start_gate =
  sg_Applies :: bool
  sg_Blocked :: "upstream_block list"
  sg_Waived :: "upstream_block list"

definition open_gate :: start_gate where
  "open_gate = \<lparr>sg_Applies = False, sg_Blocked = [], sg_Waived = []\<rparr>"

definition Clear :: "start_gate \<Rightarrow> bool" where
  "Clear g \<longleftrightarrow> length (sg_Blocked g) = 0"

definition BlockedRefs :: "start_gate \<Rightarrow> string list" where
  "BlockedRefs g = sort (map ub_Ref (sg_Blocked g))"

definition contributionRefFor :: "ident \<Rightarrow> decomposition_revision \<Rightarrow> string option" where
  "contributionRefFor child d = map_option pc_Ref
     (find (\<lambda>c. pc_ChildOutcomeID c = child \<and> \<not> blank child) (de_Contributors d))"

text \<open>The map by reference keeps the last contributor of a reference; a reference it does not hold
  reads as the zero contributor.\<close>

definition upstream_outcome :: "proposed_contribution list \<Rightarrow> string \<Rightarrow> ident \<times> string" where
  "upstream_outcome cs ref =
     (case find (\<lambda>c. pc_Ref c = ref) (rev cs) of
        None \<Rightarrow> ([], []) | Some c \<Rightarrow> (pc_ChildOutcomeID c, pc_Title c))"

definition block_for ::
  "proposed_contribution list \<Rightarrow> (ident \<Rightarrow> bool) \<Rightarrow> string \<Rightarrow> upstream_block option" where
  "block_for cs accepted ref =
     (let (child, title) = upstream_outcome cs ref;
          block = (\<lambda>why. \<lparr>ub_Ref = ref, ub_OutcomeID = child, ub_Title = title, ub_Reason = why\<rparr>)
      in if blank child then Some (block ''that contribution has no Outcome yet'')
         else if accepted child then None
         else Some (block ''waiting for your acceptance''))"

definition DeriveContributionStartGate ::
  "ident \<Rightarrow> decomposition_revision \<Rightarrow> dependency_waiver list \<Rightarrow> (ident \<Rightarrow> bool) \<Rightarrow> start_gate" where
  "DeriveContributionStartGate child d waivers accepted =
     (if de_Status d \<noteq> DecompositionAuthorized then open_gate
      else case contributionRefFor child d of
        None \<Rightarrow> open_gate
      | Some ref \<Rightarrow>
          let waived = map wv_FromRef (filter (\<lambda>w. wv_ToRef w = ref) waivers);
              upstreams = sort (map dp_FromRef (filter (\<lambda>x. dp_ToRef x = ref) (de_Dependencies d)));
              blocks = List.map_filter (block_for (de_Contributors d) accepted) upstreams
          in \<lparr>sg_Applies = True, sg_Blocked = filter (\<lambda>b. ub_Ref b \<notin> set waived) blocks,
              sg_Waived = filter (\<lambda>b. ub_Ref b \<in> set waived) blocks\<rparr>)"

text \<open>A contributor is finished when its outcome exists and the owner accepted it.\<close>

definition finished :: "(ident \<Rightarrow> bool) \<Rightarrow> proposed_contribution \<Rightarrow> bool" where
  "finished accepted c \<longleftrightarrow> \<not> blank (pc_ChildOutcomeID c) \<and> accepted (pc_ChildOutcomeID c)"

definition waived :: "dependency_waiver list \<Rightarrow> contribution_dependency \<Rightarrow> bool" where
  "waived waivers x \<longleftrightarrow> (\<exists>w\<in>set waivers. wv_FromRef w = dp_FromRef x \<and> wv_ToRef w = dp_ToRef x)"

lemma find_by_ref:
  assumes "distinct (map pc_Ref cs)" "c \<in> set cs"
  shows "find (\<lambda>x. pc_Ref x = pc_Ref c) (rev cs) = Some c"
proof (cases "find (\<lambda>x. pc_Ref x = pc_Ref c) (rev cs)")
  case None
  then show ?thesis using assms(2) by (auto simp: find_None_set)
next
  case (Some x)
  then have "x \<in> set cs" "pc_Ref x = pc_Ref c" by (auto dest: find_SomeD)
  then have "x = c" using assms by (auto simp: distinct_map dest: inj_onD)
  then show ?thesis using Some by simp
qed

lemma block_for_None:
  assumes "distinct (map pc_Ref cs)" "c \<in> set cs"
  shows "block_for cs accepted (pc_Ref c) = None \<longleftrightarrow> finished accepted c"
  by (simp add: block_for_def upstream_outcome_def find_by_ref [OF assms] finished_def Let_def)

lemma set_map_filter: "set (List.map_filter f xs) = {y. \<exists>x\<in>set xs. f x = Some y}"
  by (induction xs) (auto simp: map_filter_simps split: option.splits)

lemma block_for_ref: "block_for cs accepted ref = Some b \<Longrightarrow> ub_Ref b = ref"
  by (auto simp: block_for_def Let_def split: prod.splits if_splits)

lemma gate_clear:
  assumes valid: "DecompositionRevision_Validate d = Some None" and "de_Status d = DecompositionAuthorized"
    and "contributionRefFor child d = Some ref"
  shows "Clear (DeriveContributionStartGate child d waivers accepted) \<longleftrightarrow>
     (\<forall>x\<in>set (de_Dependencies d). dp_ToRef x = ref \<longrightarrow> waived waivers x \<or>
        (\<exists>c\<in>set (de_Contributors d). pc_Ref c = dp_FromRef x \<and> finished accepted c))"
    (is "_ \<longleftrightarrow> (\<forall>x\<in>_. _ \<longrightarrow> ?met x)")
proof -
  let ?block = "block_for (de_Contributors d) accepted"
  have upstream: "(?block (dp_FromRef x) = None \<longleftrightarrow>
      (\<exists>c\<in>set (de_Contributors d). pc_Ref c = dp_FromRef x \<and> finished accepted c))"
    if "x \<in> set (de_Dependencies d)" for x
  proof -
    have "dp_FromRef x \<in> pc_Ref ` set (de_Contributors d)"
      using decomposition_valid(3) [OF valid] that by blast
    then obtain c where c: "c \<in> set (de_Contributors d)" "pc_Ref c = dp_FromRef x" by auto
    have inj: "inj_on pc_Ref (set (de_Contributors d))"
      using decomposition_valid(1) [OF valid] by (simp add: distinct_map)
    have same: "c' = c" if "c' \<in> set (de_Contributors d)" "pc_Ref c' = dp_FromRef x" for c'
      by (rule inj_onD [OF inj]) (simp_all add: that c)
    have "?block (dp_FromRef x) = None \<longleftrightarrow> finished accepted c"
      using block_for_None [OF decomposition_valid(1) [OF valid] c(1), of accepted]
      by (simp only: c(2))
    then show ?thesis using same c by blast
  qed
  let ?ups = "sort (map dp_FromRef (filter (\<lambda>x. dp_ToRef x = ref) (de_Dependencies d)))"
  let ?from = "map wv_FromRef (filter (\<lambda>w. wv_ToRef w = ref) waivers)"
  have "Clear (DeriveContributionStartGate child d waivers accepted) \<longleftrightarrow>
      filter (\<lambda>b. ub_Ref b \<notin> set ?from) (List.map_filter ?block ?ups) = []"
    using assms(2,3) by (simp add: Clear_def DeriveContributionStartGate_def Let_def)
  also have "\<dots> \<longleftrightarrow> (\<forall>r\<in>set ?ups. \<forall>b. ?block r = Some b \<longrightarrow> ub_Ref b \<in> set ?from)"
    unfolding filter_empty_conv set_map_filter by blast
  also have "\<dots> \<longleftrightarrow> (\<forall>r\<in>set ?ups. ?block r \<noteq> None \<longrightarrow> r \<in> set ?from)"
  proof (rule ball_cong [OF refl])
    fix r
    show "(\<forall>b. ?block r = Some b \<longrightarrow> ub_Ref b \<in> set ?from) \<longleftrightarrow> (?block r \<noteq> None \<longrightarrow> r \<in> set ?from)"
      using block_for_ref [of "de_Contributors d" accepted r] by (cases "?block r") simp_all
  qed
  also have "\<dots> \<longleftrightarrow> (\<forall>x\<in>set (de_Dependencies d). dp_ToRef x = ref \<longrightarrow>
      ?block (dp_FromRef x) \<noteq> None \<longrightarrow> waived waivers x)"
  proof -
    have from_iff: "dp_FromRef x \<in> set ?from \<longleftrightarrow> waived waivers x" if "dp_ToRef x = ref" for x
      using that by (auto simp: waived_def image_iff)
    have ups: "r \<in> set ?ups \<longleftrightarrow> (\<exists>x\<in>set (de_Dependencies d). dp_ToRef x = ref \<and> r = dp_FromRef x)" for r
      by auto
    show ?thesis
    proof (intro iffI ballI impI)
      fix x assume all: "\<forall>r\<in>set ?ups. ?block r \<noteq> None \<longrightarrow> r \<in> set ?from"
        and x: "x \<in> set (de_Dependencies d)" "dp_ToRef x = ref" "?block (dp_FromRef x) \<noteq> None"
      have "dp_FromRef x \<in> set ?ups" unfolding ups using x(1,2) by (intro bexI) simp_all
      then have "dp_FromRef x \<in> set ?from" by (rule mp [OF bspec [OF all] x(3)])
      then show "waived waivers x" unfolding from_iff [OF x(2)] .
    next
      fix r assume all: "\<forall>x\<in>set (de_Dependencies d). dp_ToRef x = ref \<longrightarrow>
          ?block (dp_FromRef x) \<noteq> None \<longrightarrow> waived waivers x"
        and r: "r \<in> set ?ups" "?block r \<noteq> None"
      obtain x where x: "x \<in> set (de_Dependencies d)" "dp_ToRef x = ref" "r = dp_FromRef x"
        using r(1) unfolding ups by (elim bexE conjE)
      then show "r \<in> set ?from" using all r(2) from_iff [OF x(2)] by simp
    qed
  qed
  also have "\<dots> \<longleftrightarrow> (\<forall>x\<in>set (de_Dependencies d). dp_ToRef x = ref \<longrightarrow> ?met x)"
  proof (rule ball_cong [OF refl])
    fix x assume "x \<in> set (de_Dependencies d)"
    show "(dp_ToRef x = ref \<longrightarrow> ?block (dp_FromRef x) \<noteq> None \<longrightarrow> waived waivers x) \<longleftrightarrow>
        (dp_ToRef x = ref \<longrightarrow> ?met x)"
      unfolding upstream [OF \<open>x \<in> set (de_Dependencies d)\<close>] by blast
  qed
  finally show ?thesis .
qed

text \<open>While some contributor is unfinished, the gate of one of them is clear.\<close>

lemma ref_of_contributor:
  assumes "c \<in> set (de_Contributors d)" "distinct (map pc_ChildOutcomeID (de_Contributors d))"
    and "\<not> blank (pc_ChildOutcomeID c)"
  shows "contributionRefFor (pc_ChildOutcomeID c) d = Some (pc_Ref c)"
proof -
  let ?P = "\<lambda>x. pc_ChildOutcomeID x = pc_ChildOutcomeID c \<and> \<not> blank (pc_ChildOutcomeID c)"
  obtain x where x: "find ?P (de_Contributors d) = Some x"
    using assms(1,3) by (cases "find ?P (de_Contributors d)") (auto simp: find_None_set)
  have inj: "inj_on pc_ChildOutcomeID (set (de_Contributors d))" using assms(2) by (simp add: distinct_map)
  have "x = c" by (rule inj_onD [OF inj]) (use x assms(1) in \<open>auto dest: find_SomeD\<close>)
  then show ?thesis using x by (simp add: contributionRefFor_def)
qed

lemma some_gate_clear:
  assumes valid: "DecompositionRevision_Validate d = Some None" and auth: "de_Status d = DecompositionAuthorized"
    and ids: "distinct (map pc_ChildOutcomeID (de_Contributors d))"
      "\<forall>c\<in>set (de_Contributors d). \<not> blank (pc_ChildOutcomeID c)"
    and todo: "c \<in> set (de_Contributors d)" "\<not> finished accepted c"
  shows "\<exists>c\<in>set (de_Contributors d). \<not> finished accepted c \<and>
     Clear (DeriveContributionStartGate (pc_ChildOutcomeID c) d waivers accepted)"
proof -
  let ?open = "pc_Ref ` {c \<in> set (de_Contributors d). \<not> finished accepted c}"
  have "wf (dependency_rel (de_Dependencies d))"
    by (rule finite_acyclic_wf [OF _ decomposition_valid(2) [OF valid]]) (simp add: dependency_rel_def)
  then obtain r where r: "r \<in> ?open" "\<And>q. (q, r) \<in> dependency_rel (de_Dependencies d) \<Longrightarrow> q \<notin> ?open"
    using todo by (metis (no_types, lifting) imageI mem_Collect_eq wfE_min)
  then obtain c' where c': "c' \<in> set (de_Contributors d)" "\<not> finished accepted c'" "r = pc_Ref c'" by auto
  have "\<exists>u\<in>set (de_Contributors d). pc_Ref u = dp_FromRef x \<and> finished accepted u"
    if "x \<in> set (de_Dependencies d)" "dp_ToRef x = pc_Ref c'" for x
  proof -
    have "dp_FromRef x \<notin> ?open" using that c'(3) by (intro r(2)) (auto simp: dependency_rel_def)
    moreover have "dp_FromRef x \<in> pc_Ref ` set (de_Contributors d)"
      using decomposition_valid(3) [OF valid] that(1) by blast
    ultimately show ?thesis by auto
  qed
  then have "Clear (DeriveContributionStartGate (pc_ChildOutcomeID c') d waivers accepted)"
    using gate_clear [OF valid auth ref_of_contributor [OF c'(1) ids(1)]] ids(2) c'(1) by blast
  then show ?thesis using c' by blast
qed

end
