(* ===== verification/Outcome_Store.thy ===== *)
theory Outcome_Store
  imports Plan_Approval Control_Store Composition
begin

text \<open>
  The durable outcome records and their transactions: outcomes and contract revisions
  (internal/storage/sqlite/store/outcome_store.go), plan revisions (outcome_plan_store.go), the
  append-only proof records (outcome_proof_store.go) and decompositions
  (outcome_decomposition_store.go), under the constraints and triggers of migrations 0099, 0100 and
  0103, of schema/composed_outcomes.sql and of the proof lineage guards that
  internal/storage/sqlite/db.go installs. The control rows of the attempts are one component
  of the database, and what their transactions read of the rest is computed from it. The order in
  which SQLite lists the work units of a plan is unspecified; the model keeps the order of
  insertion.
\<close>

section \<open>State\<close>

text \<open>An outcome row has a nullable idempotency key.\<close>

record outcome_row = outcome +
  or_Key :: "string option"

record outcome_db =
  db_Spaces :: "ident \<Rightarrow> ident option"
  db_Outcomes :: "outcome_row list"
  db_Trash :: "ident list"
  db_Contracts :: "contract_revision list"
  db_Plans :: "plan_revision list"
  db_Evidence :: "evidence_item list"
  db_Verifications :: "verification_run list"
  db_Decisions :: "acceptance_decision list"
  db_Corrections :: "outcome_correction list"
  db_Links :: "contribution_link list"
  db_Decompositions :: "decomposition_revision list"
  db_Waivers :: "dependency_waiver list"
  db_Control :: control_store

datatype db_error = DbFailure error | OutcomeConflictError ident int int
  | PlanningFinalizeConflict ident | DecompositionNotProposed ident

type_synonym 'r db_transaction = "db_error + 'r \<times> outcome_db"

abbreviation db_failed :: "string \<Rightarrow> db_error + 'r" where
  "db_failed msg \<equiv> Inl (DbFailure (Errorf msg []))"

definition empty_db :: "(ident \<Rightarrow> ident option) \<Rightarrow> outcome_db" where
  "empty_db spaces = \<lparr>db_Spaces = spaces, db_Outcomes = [], db_Trash = [], db_Contracts = [],
     db_Plans = [], db_Evidence = [], db_Verifications = [], db_Decisions = [], db_Corrections = [],
     db_Links = [], db_Decompositions = [], db_Waivers = [], db_Control = empty_store\<rparr>"

section \<open>Reads\<close>

definition outcome_row_by_id :: "outcome_db \<Rightarrow> ident \<Rightarrow> outcome_row option" where
  "outcome_row_by_id db oid = find (\<lambda>r. o_ID r = oid) (db_Outcomes db)"

definition GetOutcome :: "outcome_db \<Rightarrow> ident \<Rightarrow> outcome option" where
  "GetOutcome db oid =
     (if oid \<in> set (db_Trash db) then None
      else map_option outcome.truncate (outcome_row_by_id db oid))"

definition FindOutcomeByIdempotencyKey :: "outcome_db \<Rightarrow> string \<Rightarrow> outcome option" where
  "FindOutcomeByIdempotencyKey db key =
     (if key = [] then None
      else map_option outcome.truncate (find (\<lambda>r. or_Key r = Some key) (db_Outcomes db)))"

definition GetOutcomeProjectID :: "outcome_db \<Rightarrow> ident \<Rightarrow> ident option" where
  "GetOutcomeProjectID db oid =
     (case outcome_row_by_id db oid of None \<Rightarrow> None | Some r \<Rightarrow> db_Spaces db (o_SpaceID r))"

definition contracts_of :: "outcome_db \<Rightarrow> ident \<Rightarrow> contract_revision list" where
  "contracts_of db oid = filter (\<lambda>r. cr_OutcomeID r = oid) (db_Contracts db)"

definition ListContractRevisions :: "outcome_db \<Rightarrow> ident \<Rightarrow> contract_revision list" where
  "ListContractRevisions db oid = sort_key cr_Number (contracts_of db oid)"

definition MaxContractRevisionNumber :: "outcome_db \<Rightarrow> ident \<Rightarrow> int" where
  "MaxContractRevisionNumber db oid = foldr max (map cr_Number (contracts_of db oid)) 0"

definition nextRevisionNumber :: "outcome_db \<Rightarrow> ident \<Rightarrow> int" where
  "nextRevisionNumber db oid = MaxContractRevisionNumber db oid + 1"

definition plans_of :: "outcome_db \<Rightarrow> ident \<Rightarrow> plan_revision list" where
  "plans_of db oid = filter (\<lambda>p. pr_OutcomeID p = oid) (db_Plans db)"

definition GetPlanRevision :: "outcome_db \<Rightarrow> ident \<Rightarrow> ident \<Rightarrow> plan_revision option" where
  "GetPlanRevision db oid pid = find (\<lambda>p. pr_ID p = pid \<and> pr_OutcomeID p = oid) (db_Plans db)"

definition GetLatestPlanRevision :: "outcome_db \<Rightarrow> ident \<Rightarrow> plan_revision option" where
  "GetLatestPlanRevision db oid =
     (case rev (sort_key pr_Number (plans_of db oid)) of [] \<Rightarrow> None | p # _ \<Rightarrow> Some p)"

definition ListContributingOutcomes :: "outcome_db \<Rightarrow> ident \<Rightarrow> outcome list" where
  "ListContributingOutcomes db parent = map outcome.truncate
     (sort_key (\<lambda>r. (o_CreatedAt r, o_ID r)) (filter (\<lambda>r. o_ParentID r = parent \<and> parent \<noteq> [])
        (db_Outcomes db)))"

definition ListContributionLinksForParent :: "outcome_db \<Rightarrow> ident \<Rightarrow> contribution_link list" where
  "ListContributionLinksForParent db parent =
     sort_key (\<lambda>l. (lk_CreatedAt l, lk_ID l)) (filter (\<lambda>l. lk_ParentOutcomeID l = parent) (db_Links db))"

definition ListEvidenceItems :: "outcome_db \<Rightarrow> ident \<Rightarrow> evidence_item list" where
  "ListEvidenceItems db oid =
     sort_key (\<lambda>e. (ev_CreatedAt e, ev_ID e)) (filter (\<lambda>e. ev_OutcomeID e = oid) (db_Evidence db))"

definition ListVerificationRuns :: "outcome_db \<Rightarrow> ident \<Rightarrow> verification_run list" where
  "ListVerificationRuns db oid =
     sort_key (\<lambda>v. (vr_CreatedAt v, vr_ID v)) (filter (\<lambda>v. vr_OutcomeID v = oid) (db_Verifications db))"

definition ListAcceptanceDecisions :: "outcome_db \<Rightarrow> ident \<Rightarrow> acceptance_decision list" where
  "ListAcceptanceDecisions db oid =
     sort_key (\<lambda>d. (dc_CreatedAt d, dc_ID d)) (filter (\<lambda>d. dc_OutcomeID d = oid) (db_Decisions db))"

definition ListOutcomeCorrections :: "outcome_db \<Rightarrow> ident \<Rightarrow> outcome_correction list" where
  "ListOutcomeCorrections db oid =
     sort_key (\<lambda>c. (co_CreatedAt c, co_ID c)) (filter (\<lambda>c. co_OutcomeID c = oid) (db_Corrections db))"

definition GetEvidenceItem :: "outcome_db \<Rightarrow> ident \<Rightarrow> ident \<Rightarrow> evidence_item option" where
  "GetEvidenceItem db oid i = find (\<lambda>e. ev_ID e = i \<and> ev_OutcomeID e = oid) (db_Evidence db)"

definition FindEvidenceItemByRequestKey :: "outcome_db \<Rightarrow> string \<Rightarrow> evidence_item option" where
  "FindEvidenceItemByRequestKey db key = find (\<lambda>e. ev_RequestKey e = key) (db_Evidence db)"

definition FindVerificationRunByRequestKey :: "outcome_db \<Rightarrow> string \<Rightarrow> verification_run option" where
  "FindVerificationRunByRequestKey db key = find (\<lambda>v. vr_RequestKey v = key) (db_Verifications db)"

definition FindAcceptanceDecisionByRequestKey :: "outcome_db \<Rightarrow> string \<Rightarrow> acceptance_decision option"
where
  "FindAcceptanceDecisionByRequestKey db key = find (\<lambda>d. dc_RequestKey d = key) (db_Decisions db)"

text \<open>The commit-ordered token of the append-only proof records.\<close>

definition OutcomeProofGeneration :: "outcome_db \<Rightarrow> ident \<Rightarrow> int" where
  "OutcomeProofGeneration db oid =
     int (length (filter (\<lambda>e. ev_OutcomeID e = oid) (db_Evidence db)) +
          length (filter (\<lambda>v. vr_OutcomeID v = oid) (db_Verifications db)) +
          length (filter (\<lambda>d. dc_OutcomeID d = oid) (db_Decisions db)) +
          length (filter (\<lambda>c. co_OutcomeID c = oid) (db_Corrections db)))"

text \<open>The control rows together with what their transactions read of the other tables.\<close>

definition control_view :: "outcome_db \<Rightarrow> control_store" where
  "control_view db = (db_Control db)\<lparr>st_ContractNumber := MaxContractRevisionNumber db,
     st_ProofGeneration := OutcomeProofGeneration db\<rparr>"

section \<open>Contract revisions\<close>

text \<open>\<^verbatim>\<open>%04d\<close> of a positive number.\<close>

definition four_digits :: "nat \<Rightarrow> string" where
  "four_digits n = (let d = decimal_nat n in replicate (4 - length d) (CHR ''0'') @ d)"

definition default_criteria :: "contract_revision \<Rightarrow> contract_criterion list" where
  "default_criteria r = map (\<lambda>(i, text).
     \<lparr>cc_ID = ''crit-'' @ cr_ID r @ ''-'' @ four_digits (i + 1), cc_ContractRevisionID = cr_ID r,
      cc_Position = int i + 1, cc_Text = text\<rparr>) (List.enumerate 0 (cr_SuccessCriteria r))"

text \<open>The database stamps the row with its own clock.\<close>

definition insertContractRevision ::
  "outcome_db \<Rightarrow> instant \<Rightarrow> contract_revision \<Rightarrow> unit db_transaction" where
  "insertContractRevision db now r0 =
     (let r = (if cr_Criteria r0 = [] then r0\<lparr>cr_Criteria := default_criteria r0\<rparr> else r0) in
      case ContractRevision_Validate r of
        Some e \<Rightarrow> Inl (DbFailure e)
      | None \<Rightarrow>
          if cr_ID r \<in> cr_ID ` set (db_Contracts db) \<or>
             cr_OutcomeID r \<notin> o_ID ` set (db_Outcomes db) \<or>
             cr_Number r \<in> cr_Number ` set (contracts_of db (cr_OutcomeID r))
          then db_failed ''create contract revision: constraint failed''
          else Inr ((), db\<lparr>db_Contracts := db_Contracts db @ [r\<lparr>cr_CreatedAt := now\<rparr>]\<rparr>))"

definition advance_current :: "outcome_db \<Rightarrow> ident \<Rightarrow> int \<Rightarrow> int \<Rightarrow> instant \<Rightarrow> nat \<times> outcome_db" where
  "advance_current db oid expected number at =
     (let hit = (\<lambda>r. o_ID r = oid \<and> o_CurrentRevisionNumber r = expected) in
      (length (filter hit (db_Outcomes db)),
       db\<lparr>db_Outcomes := map (\<lambda>r. if hit r then r\<lparr>o_CurrentRevisionNumber := number, o_UpdatedAt := at\<rparr>
            else r) (db_Outcomes db)\<rparr>))"

text \<open>The insertion of an outcome row: primary and idempotency key, the space, the parent, and the
  trigger that refuses a parent that contributes itself.\<close>

definition outcome_constraints :: "outcome_db \<Rightarrow> outcome \<Rightarrow> string option \<Rightarrow> bool" where
  "outcome_constraints db r key \<longleftrightarrow>
     o_ID r \<notin> o_ID ` set (db_Outcomes db) \<and>
     (key \<noteq> None \<longrightarrow> key \<notin> or_Key ` set (db_Outcomes db)) \<and>
     db_Spaces db (o_SpaceID r) \<noteq> None \<and>
     (\<not> blank (o_ParentID r) \<longrightarrow>
        (case outcome_row_by_id db (o_ParentID r) of None \<Rightarrow> False | Some p \<Rightarrow> o_ParentID p = []))"

definition new_outcome_row :: "instant \<Rightarrow> outcome \<Rightarrow> string option \<Rightarrow> outcome_row" where
  "new_outcome_row now r key =
     \<lparr>o_ID = o_ID r, o_SpaceID = o_SpaceID r,
      o_ParentID = (if blank (o_ParentID r) then [] else o_ParentID r), o_Title = o_Title r,
      o_CurrentRevisionNumber = 0, o_CreatedAt = now, o_UpdatedAt = now, or_Key = key\<rparr>"

text \<open>The statements that three transactions share: the outcome row, its first contract revision
  and the pointer to it.\<close>

definition start_outcome ::
  "outcome_db \<Rightarrow> instant \<Rightarrow> outcome \<Rightarrow> string option \<Rightarrow> contract_revision \<Rightarrow> unit db_transaction" where
  "start_outcome db now r key first =
     (if \<not> outcome_constraints db r key then db_failed ''create outcome: constraint failed''
      else let db1 = db\<lparr>db_Outcomes := db_Outcomes db @ [new_outcome_row now r key]\<rparr>;
               number = nextRevisionNumber db1 (o_ID r)
           in and_then (insertContractRevision db1 now (first\<lparr>cr_Number := number\<rparr>)) (\<lambda>(_, db2).
              case advance_current db2 (o_ID r) 0 number (cr_CreatedAt first) of
                (rows, db3) \<Rightarrow>
                  if rows \<noteq> 1
                  then db_failed ''point outcome at revision 1: pointer moved concurrently''
                  else Inr ((), db3)))"

definition CreateOutcomeWithContract ::
  "outcome_db \<Rightarrow> instant \<Rightarrow> outcome \<Rightarrow> contract_revision \<Rightarrow> string \<Rightarrow> unit db_transaction" where
  "CreateOutcomeWithContract db now r first request_key =
     (case Outcome_Validate r of
        Some e \<Rightarrow> Inl (DbFailure e)
      | None \<Rightarrow> start_outcome db now r (if request_key = [] then None else Some request_key) first)"

text \<open>A contribution link: its keys, the criterion of the named revision, and the triggers that
  keep the child, its parent and the revision of the parent together.\<close>

definition link_constraints :: "outcome_db \<Rightarrow> contribution_link \<Rightarrow> bool" where
  "link_constraints db l \<longleftrightarrow>
     lk_ID l \<notin> lk_ID ` set (db_Links db) \<and>
     (lk_ChildOutcomeID l, lk_ParentCriterionID l) \<notin>
       (\<lambda>x. (lk_ChildOutcomeID x, lk_ParentCriterionID x)) ` set (db_Links db) \<and>
     lk_ParentOutcomeID l \<noteq> lk_ChildOutcomeID l \<and>
     (case outcome_row_by_id db (lk_ChildOutcomeID l) of
        None \<Rightarrow> False | Some c \<Rightarrow> o_ParentID c = lk_ParentOutcomeID l) \<and>
     list_ex (\<lambda>r. cr_ID r = lk_ParentContractRevisionID l \<and> cr_OutcomeID r = lk_ParentOutcomeID l \<and>
                 lk_ParentCriterionID l \<in> cc_ID ` set (cr_Criteria r)) (db_Contracts db) \<and>
     list_all (\<lambda>x. lk_ChildOutcomeID x = lk_ChildOutcomeID l \<longrightarrow>
                  lk_ParentContractRevisionID x = lk_ParentContractRevisionID l) (db_Links db)"

fun insert_links :: "outcome_db \<Rightarrow> instant \<Rightarrow> contribution_link list \<Rightarrow> unit db_transaction" where
  "insert_links db now [] = Inr ((), db)"
| "insert_links db now (l # ls) =
     (if \<not> link_constraints db l then db_failed ''bind contribution: constraint failed''
      else insert_links (db\<lparr>db_Links := db_Links db @ [l\<lparr>lk_CreatedAt := now\<rparr>]\<rparr>) now ls)"

definition CreateContributionWithContract ::
  "outcome_db \<Rightarrow> instant \<Rightarrow> outcome \<Rightarrow> contract_revision \<Rightarrow> contribution_link list \<Rightarrow> string \<Rightarrow>
   unit db_transaction" where
  "CreateContributionWithContract db now child first links request_key =
     (case first_error
        [Outcome_Validate child,
         refuse (blank (o_ParentID child))
           (Errorf ''contributing outcome %s must name a parent'' [Str (o_ID child)]),
         ValidateContributionLinkSet (o_ID child) links] of
        Some e \<Rightarrow> Inl (DbFailure e)
      | None \<Rightarrow>
          and_then (start_outcome db now child (if request_key = [] then None else Some request_key) first)
            (\<lambda>(_, db1). insert_links db1 now links))"

definition AppendContractRevision ::
  "outcome_db \<Rightarrow> instant \<Rightarrow> ident \<Rightarrow> int \<Rightarrow> contract_revision \<Rightarrow> int db_transaction" where
  "AppendContractRevision db now oid expected r =
     (let number = nextRevisionNumber db oid in
      and_then (insertContractRevision db now (r\<lparr>cr_Number := number\<rparr>)) (\<lambda>(_, db1).
        case advance_current db1 oid expected number now of
          (rows, db2) \<Rightarrow>
            if rows = 0
            then Inl (OutcomeConflictError oid expected
                   (case GetOutcome db1 oid of None \<Rightarrow> -1 | Some o' \<Rightarrow> o_CurrentRevisionNumber o'))
            else Inr (number, db2)))"

section \<open>Plan revisions\<close>

definition validateCanonicalPlanPersistence :: "plan_revision \<Rightarrow> validation" where
  "validateCanonicalPlanPersistence p = first_error
     [(if PlanRevision_Validate p \<noteq> None then PlanRevision_Validate (p\<lparr>pr_Number := 1\<rparr>) else None),
      ValidateExactPlanCapabilityGrants (pr_Grants p) (pr_WorkUnits p),
      each_seen wr_WorkUnitID (\<lambda>i seen d. refuse (wr_WorkUnitID d \<in> set seen)
        (Errorf ''duplicate routing decision for work unit %s'' [Str (wr_WorkUnitID d)])) 0 []
        (pr_RoutingDecisions p),
      each_elem (\<lambda>u. first_error
        [(case ExecutionBindingForNewWork u of
            Inl e \<Rightarrow> Some (Wrapf ''work unit %s is not executable: %w'' [Str (wu_ID u)] e)
          | Inr _ \<Rightarrow> None),
         (case routing_record p (wu_ID u) of
            None \<Rightarrow> Some (Errorf ''work unit %s has no routing decision'' [Str (wu_ID u)])
          | Some d \<Rightarrow> ValidateAgainst d u)]) (pr_WorkUnits p),
      refuse (length (pr_RoutingDecisions p) \<noteq> length (pr_WorkUnits p))
        (Errorf ''plan has routing decisions for unknown work units'' [])]"

definition plan_constraints :: "outcome_db \<Rightarrow> plan_revision \<Rightarrow> bool" where
  "plan_constraints db p \<longleftrightarrow>
     pr_ID p \<notin> pr_ID ` set (db_Plans db) \<and> pr_OutcomeID p \<in> o_ID ` set (db_Outcomes db) \<and>
     wu_ID ` set (pr_WorkUnits p) \<inter> wu_ID ` set (concat (map pr_WorkUnits (db_Plans db))) = {} \<and>
     cg_ID ` set (pr_Grants p) \<inter> cg_ID ` set (concat (map pr_Grants (db_Plans db))) = {} \<and>
     distinct (map cg_ID (pr_Grants p)) \<and>
     distinct (map ac_ID (concat (map wu_Checks (pr_WorkUnits p)))) \<and>
     ac_ID ` set (concat (map wu_Checks (pr_WorkUnits p))) \<inter>
       ac_ID ` set (concat (map wu_Checks (concat (map pr_WorkUnits (db_Plans db))))) = {}"

text \<open>\<^verbatim>\<open>linked\<close> says that linking the planning session to the plan changed exactly one
  row: the planning sessions are not part of this model.\<close>

definition AppendPlanRevision ::
  "outcome_db \<Rightarrow> bool \<Rightarrow> ident \<Rightarrow> plan_revision \<Rightarrow> plan_revision db_transaction" where
  "AppendPlanRevision db linked oid p0 =
     (if pr_Status p0 \<noteq> PlanProposed
      then db_failed ''append plan: only proposed plans are created''
      else case validateCanonicalPlanPersistence (p0\<lparr>pr_OutcomeID := oid\<rparr>) of
        Some e \<Rightarrow> Inl (DbFailure e)
      | None \<Rightarrow>
          let number = foldr max (map pr_Number (plans_of db oid)) 0 + 1;
              p = p0\<lparr>pr_OutcomeID := oid, pr_Number := number\<rparr>
          in case PlanRevision_Validate p of
               Some e \<Rightarrow> Inl (DbFailure e)
             | None \<Rightarrow>
                 (case find (\<lambda>r. cr_Number r = pr_ContractRevisionNumber p) (contracts_of db oid) of
                    None \<Rightarrow> db_failed ''resolve contract revision for plan: no rows''
                  | Some r \<Rightarrow>
                      if \<not> plan_constraints db p \<or>
                         \<not> (\<Union>u\<in>set (pr_WorkUnits p). set (wu_CriterionIDs u)) \<subseteq> cc_ID ` set (cr_Criteria r)
                      then db_failed ''create plan revision: constraint failed''
                      else if \<not> blank (pr_PlanningSessionID p) \<and> \<not> linked
                      then Inl (PlanningFinalizeConflict (pr_PlanningSessionID p))
                      else Inr (p, db\<lparr>db_Plans := db_Plans db @ [p]\<rparr>)))"

text \<open>\<^verbatim>\<open>None\<close> is the false second result: no such plan.\<close>

definition ApprovePlanRevision ::
  "outcome_db \<Rightarrow> ident \<Rightarrow> ident \<Rightarrow> plan_revision option db_transaction" where
  "ApprovePlanRevision db oid pid =
     (let hit = (\<lambda>p. pr_ID p = pid \<and> pr_OutcomeID p = oid \<and> pr_Status p = PlanProposed);
          db' = db\<lparr>db_Plans := map (\<lambda>p. if hit p then p\<lparr>pr_Status := PlanApproved\<rparr> else p) (db_Plans db)\<rparr>
      in if list_ex hit (db_Plans db) then Inr (GetPlanRevision db' oid pid, db')
         else case GetPlanRevision db oid pid of
           None \<Rightarrow> Inr (None, db)
         | Some p \<Rightarrow>
             if pr_Status p \<noteq> PlanApproved then db_failed ''plan is not approvable''
             else Inr (Some p, db))"

section \<open>Proof records\<close>

definition contract_of :: "outcome_db \<Rightarrow> ident \<Rightarrow> ident \<Rightarrow> contract_revision option" where
  "contract_of db oid rid = find (\<lambda>r. cr_ID r = rid \<and> cr_OutcomeID r = oid) (db_Contracts db)"

text \<open>The foreign key to the criterion and the lineage trigger.\<close>

definition criterion_bound :: "outcome_db \<Rightarrow> ident \<Rightarrow> ident \<Rightarrow> ident \<Rightarrow> bool" where
  "criterion_bound db oid rid cid =
     (case contract_of db oid rid of None \<Rightarrow> False | Some r \<Rightarrow> cid \<in> cc_ID ` set (cr_Criteria r))"

definition CreateEvidenceItem :: "outcome_db \<Rightarrow> evidence_item \<Rightarrow> unit db_transaction" where
  "CreateEvidenceItem db e =
     (case EvidenceItem_Validate e of
        Some err \<Rightarrow> Inl (DbFailure err)
      | None \<Rightarrow>
          if ev_ID e \<in> ev_ID ` set (db_Evidence db) \<or>
             ev_RequestKey e \<in> ev_RequestKey ` set (db_Evidence db) \<or>
             \<not> criterion_bound db (ev_OutcomeID e) (ev_ContractRevisionID e) (ev_CriterionID e)
          then db_failed ''create evidence item: constraint failed''
          else Inr ((), db\<lparr>db_Evidence := db_Evidence db @ [e]\<rparr>))"

definition CreateVerificationRun :: "outcome_db \<Rightarrow> verification_run \<Rightarrow> unit db_transaction" where
  "CreateVerificationRun db v =
     (case VerificationRun_Validate v of
        Some err \<Rightarrow> Inl (DbFailure err)
      | None \<Rightarrow>
          if vr_ID v \<in> vr_ID ` set (db_Verifications db) \<or>
             vr_RequestKey v \<in> vr_RequestKey ` set (db_Verifications db) \<or>
             \<not> criterion_bound db (vr_OutcomeID v) (vr_ContractRevisionID v) (vr_CriterionID v)
          then db_failed ''create verification run: constraint failed''
          else Inr ((), db\<lparr>db_Verifications := db_Verifications db @ [v]\<rparr>))"

definition insert_decision :: "outcome_db \<Rightarrow> acceptance_decision \<Rightarrow> unit db_transaction" where
  "insert_decision db d =
     (if dc_ID d \<in> dc_ID ` set (db_Decisions db) \<or>
         dc_RequestKey d \<in> dc_RequestKey ` set (db_Decisions db) \<or>
         contract_of db (dc_OutcomeID d) (dc_ContractRevisionID d) = None
      then db_failed ''create acceptance decision: constraint failed''
      else Inr ((), db\<lparr>db_Decisions := db_Decisions db @ [d]\<rparr>))"

definition insert_correction :: "outcome_db \<Rightarrow> outcome_correction \<Rightarrow> unit db_transaction" where
  "insert_correction db c =
     (if co_ID c \<in> co_ID ` set (db_Corrections db) \<or>
         co_DecisionID c \<in> co_DecisionID ` set (db_Corrections db) \<or>
         \<not> list_ex (\<lambda>d. dc_ID d = co_DecisionID c \<and> dc_OutcomeID d = co_OutcomeID c \<and>
                       dc_ContractRevisionID d = co_ContractRevisionID c) (db_Decisions db)
      then db_failed ''create outcome correction: constraint failed''
      else Inr ((), db\<lparr>db_Corrections := db_Corrections db @ [c]\<rparr>))"

definition correction_lineage :: "acceptance_decision \<Rightarrow> outcome_correction option \<Rightarrow> validation" where
  "correction_lineage d correction =
     (case correction of
        None \<Rightarrow> None
      | Some c \<Rightarrow> first_error
          [OutcomeCorrection_Validate c,
           refuse (co_DecisionID c \<noteq> dc_ID d \<or> co_OutcomeID c \<noteq> dc_OutcomeID d \<or>
                   co_ContractRevisionID c \<noteq> dc_ContractRevisionID d)
             (Errorf ''correction lineage does not match acceptance decision'' [])])"

definition CreateAcceptanceDecision ::
  "outcome_db \<Rightarrow> acceptance_decision \<Rightarrow> outcome_correction option \<Rightarrow> unit db_transaction" where
  "CreateAcceptanceDecision db d correction =
     (case first_error [AcceptanceDecision_Validate d, correction_lineage d correction] of
        Some err \<Rightarrow> Inl (DbFailure err)
      | None \<Rightarrow>
          and_then (insert_decision db d) (\<lambda>(_, db1).
            case correction of None \<Rightarrow> Inr ((), db1) | Some c \<Rightarrow> insert_correction db1 c))"

fun insert_decisions :: "outcome_db \<Rightarrow> acceptance_decision list \<Rightarrow> unit db_transaction" where
  "insert_decisions db [] = Inr ((), db)"
| "insert_decisions db (d # ds) = and_then (insert_decision db d) (\<lambda>(_, db1). insert_decisions db1 ds)"

definition CreateAcceptanceDecisionBatch ::
  "outcome_db \<Rightarrow> acceptance_decision list \<Rightarrow> unit db_transaction" where
  "CreateAcceptanceDecisionBatch db ds =
     (if ds = [] then db_failed ''an acceptance batch requires at least one decision''
      else case each_seen dc_OutcomeID (\<lambda>i seen d. first_error
             [AcceptanceDecision_Validate d,
              refuse (dc_OutcomeID d \<in> set seen)
                (Errorf ''acceptance batch decides outcome %s twice'' [Str (dc_OutcomeID d)])]) 0 [] ds of
        Some err \<Rightarrow> Inl (DbFailure err)
      | None \<Rightarrow> insert_decisions db ds)"

section \<open>Decompositions\<close>

definition contributionRowID :: "ident \<Rightarrow> string \<Rightarrow> string" where
  "contributionRowID did ref = did @ '':'' @ ref"

definition contribution_rows :: "outcome_db \<Rightarrow> string list" where
  "contribution_rows db = concat (map (\<lambda>d. map (\<lambda>c. contributionRowID (de_ID d) (pc_Ref c)) (de_Contributors d))
     (db_Decompositions db))"

definition hydrateDecomposition :: "decomposition_revision \<Rightarrow> decomposition_revision" where
  "hydrateDecomposition d = d\<lparr>
     de_Contributors := sort_key (\<lambda>c. (pc_Position c, pc_Ref c)) (de_Contributors d),
     de_RetainedCriteria := sort (de_RetainedCriteria d),
     de_Dependencies := sort_key (\<lambda>x. (dp_FromRef x, dp_ToRef x)) (de_Dependencies d)\<rparr>"

definition GetDecompositionRevision :: "outcome_db \<Rightarrow> ident \<Rightarrow> ident \<Rightarrow> decomposition_revision option" where
  "GetDecompositionRevision db oid did = map_option hydrateDecomposition
     (find (\<lambda>d. de_ID d = did \<and> de_OutcomeID d = oid) (db_Decompositions db))"

definition LatestDecompositionRevision :: "outcome_db \<Rightarrow> ident \<Rightarrow> decomposition_revision option" where
  "LatestDecompositionRevision db oid =
     (case rev (sort_key de_Number (filter (\<lambda>d. de_OutcomeID d = oid) (db_Decompositions db))) of
        [] \<Rightarrow> None | d # _ \<Rightarrow> Some (hydrateDecomposition d))"

definition ListContributionDependencyWaivers :: "outcome_db \<Rightarrow> ident \<Rightarrow> dependency_waiver list" where
  "ListContributionDependencyWaivers db did =
     sort_key (\<lambda>w. (wv_CreatedAt w, wv_ID w)) (filter (\<lambda>w. wv_DecompositionID w = did) (db_Waivers db))"

definition decomposition_constraints :: "outcome_db \<Rightarrow> decomposition_revision \<Rightarrow> bool" where
  "decomposition_constraints db d \<longleftrightarrow>
     de_ID d \<notin> de_ID ` set (db_Decompositions db) \<and> de_OutcomeID d \<in> o_ID ` set (db_Outcomes db) \<and>
     de_ContractRevisionID d \<in> cr_ID ` set (db_Contracts db) \<and>
     (\<forall>c\<in>set (de_Contributors d). contributionRowID (de_ID d) (pc_Ref c) \<notin> set (contribution_rows db)) \<and>
     distinct (de_RetainedCriteria d) \<and> distinct (map dp_ID (de_Dependencies d)) \<and>
     dp_ID ` set (de_Dependencies d) \<inter> dp_ID ` set (concat (map de_Dependencies (db_Decompositions db))) = {} \<and>
     distinct (map (\<lambda>x. (dp_FromRef x, dp_ToRef x)) (de_Dependencies d))"

definition AppendDecompositionRevision ::
  "outcome_db \<Rightarrow> decomposition_revision \<Rightarrow> decomposition_revision db_transaction" where
  "AppendDecompositionRevision db d0 =
     (if de_Status d0 \<noteq> DecompositionProposed
      then db_failed ''a decomposition is persisted as proposed''
      else case DecompositionRevision_Validate d0 of
        None \<Rightarrow> db_failed ''out of fuel''
      | Some (Some e) \<Rightarrow> Inl (DbFailure e)
      | Some None \<Rightarrow>
          let number = foldr max (map de_Number
                (filter (\<lambda>d. de_OutcomeID d = de_OutcomeID d0) (db_Decompositions db))) 0 + 1;
              d = d0\<lparr>de_Number := number\<rparr>;
              row = d\<lparr>de_Contributors := map (\<lambda>c. c\<lparr>pc_ChildOutcomeID := []\<rparr>) (de_Contributors d),
                      de_AuthorizedAt := None\<rparr>
          in if \<not> decomposition_constraints db d
             then db_failed ''create decomposition: constraint failed''
             else Inr (d, db\<lparr>db_Decompositions := db_Decompositions db @ [row]\<rparr>))"

record authorized_contribution =
  au_Ref :: string
  au_Outcome :: outcome
  au_First :: contract_revision
  au_Links :: "contribution_link list"

text \<open>A proposed contribution takes the outcome that authorization created for it, once.\<close>

definition bind_contribution :: "outcome_db \<Rightarrow> string \<Rightarrow> ident \<Rightarrow> nat \<times> outcome_db" where
  "bind_contribution db row child =
     (let hit = (\<lambda>d c. contributionRowID (de_ID d) (pc_Ref c) = row \<and> pc_ChildOutcomeID c = []) in
      (length (concat (map (\<lambda>d. filter (hit d) (de_Contributors d)) (db_Decompositions db))),
       db\<lparr>db_Decompositions := map (\<lambda>d. d\<lparr>de_Contributors :=
            map (\<lambda>c. if hit d c then c\<lparr>pc_ChildOutcomeID := child\<rparr> else c) (de_Contributors d)\<rparr>)
          (db_Decompositions db)\<rparr>))"

fun authorize_each :: "outcome_db \<Rightarrow> instant \<Rightarrow> ident \<Rightarrow> authorized_contribution list \<Rightarrow> unit db_transaction"
where
  "authorize_each db now did [] = Inr ((), db)"
| "authorize_each db now did (a # rest) =
     and_then (start_outcome db now (au_Outcome a) None (au_First a)) (\<lambda>(_, db1).
     and_then (insert_links db1 now (au_Links a)) (\<lambda>(_, db2).
       case bind_contribution db2 (contributionRowID did (au_Ref a)) (o_ID (au_Outcome a)) of
         (bound, db3) \<Rightarrow>
           if bound \<noteq> 1 then db_failed ''resolve proposed contribution: already resolved or absent''
           else authorize_each db3 now did rest))"

definition AuthorizeDecompositionRevision ::
  "outcome_db \<Rightarrow> instant \<Rightarrow> ident \<Rightarrow> ident \<Rightarrow> authorized_contribution list \<Rightarrow> instant \<Rightarrow> unit db_transaction"
where
  "AuthorizeDecompositionRevision db now oid did contributions at =
     (if contributions = []
      then db_failed ''authorizing a decomposition requires at least one contribution''
      else case each_elem (\<lambda>a. first_error
             [Outcome_Validate (au_Outcome a),
              ValidateContributionLinkSet (o_ID (au_Outcome a)) (au_Links a)]) contributions of
        Some e \<Rightarrow> Inl (DbFailure e)
      | None \<Rightarrow>
          let hit = (\<lambda>d. de_ID d = did \<and> de_OutcomeID d = oid \<and> de_Status d = DecompositionProposed) in
          if length (filter hit (db_Decompositions db)) \<noteq> 1
          then Inl (DecompositionNotProposed did)
          else authorize_each (db\<lparr>db_Decompositions := map (\<lambda>d. if hit d
                   then d\<lparr>de_Status := DecompositionAuthorized, de_AuthorizedAt := Some at\<rparr> else d)
                 (db_Decompositions db)\<rparr>) now did contributions)"

text \<open>The trigger refuses a waiver of an order that nobody declared.\<close>

definition AppendContributionDependencyWaiver ::
  "outcome_db \<Rightarrow> dependency_waiver \<Rightarrow> unit db_transaction" where
  "AppendContributionDependencyWaiver db w =
     (case ContributionDependencyWaiver_Validate w of
        Some e \<Rightarrow> Inl (DbFailure e)
      | None \<Rightarrow>
          if wv_ID w \<in> wv_ID ` set (db_Waivers db) \<or> wv_FromRef w = wv_ToRef w \<or>
             (wv_DecompositionID w, wv_FromRef w, wv_ToRef w) \<in>
               (\<lambda>x. (wv_DecompositionID x, wv_FromRef x, wv_ToRef x)) ` set (db_Waivers db) \<or>
             \<not> list_ex (\<lambda>d. de_ID d = wv_DecompositionID w \<and>
                 list_ex (\<lambda>x. dp_FromRef x = wv_FromRef w \<and> dp_ToRef x = wv_ToRef w) (de_Dependencies d))
               (db_Decompositions db)
          then db_failed ''waive dependency: constraint failed''
          else Inr ((), db\<lparr>db_Waivers := db_Waivers db @ [w]\<rparr>))"

section \<open>The current contract\<close>

text \<open>\<^verbatim>\<open>Service.Get\<close>: the outcome with the contract revision it points at.\<close>

definition Service_Get :: "outcome_db \<Rightarrow> ident \<Rightarrow> api_error + outcome_view" where
  "Service_Get db oid =
     (case GetOutcome db oid of
        None \<Rightarrow> Inl (NotFound ''OUTCOME_NOT_FOUND'')
      | Some r \<Rightarrow>
          let history = ListContractRevisions db oid in
          case find (\<lambda>c. cr_Number c = o_CurrentRevisionNumber r) history of
            None \<Rightarrow> Inl (Failure (Errorf ''outcome %s points at missing revision %d''
                      [Str oid, Num (o_CurrentRevisionNumber r)]))
          | Some c \<Rightarrow> Inr \<lparr>ov_Outcome = r, ov_Current = c, ov_History = history\<rparr>)"

end
