(* ===== verification/Outcome_Steps.thy ===== *)
theory Outcome_Steps
  imports Outcome_Store Store_Steps
begin

text \<open>
  The outcome database as a transition system: one step is one committed transaction. The
  invariants that every reachable database satisfies: contract numbers are gapless and the
  current pointer names the newest, composition is at most two levels deep, plans only become
  approved, the proof records only grow, and the control rows with what their transactions read
  form a reachable control store.
\<close>

section \<open>Committed transactions\<close>

text \<open>Callers build the contract revision they pass for the outcome they pass. Trash and spaces
  change outside the transactions of this model; a space keeps its project.\<close>

inductive db_step :: "(string \<Rightarrow> string) \<Rightarrow> outcome_db \<Rightarrow> outcome_db \<Rightarrow> bool" for sha where
  start: "CreateOutcomeWithContract db now r first key = Inr (u, db') \<Longrightarrow> cr_OutcomeID first = o_ID r \<Longrightarrow>
    db_step sha db db'"
| contribute: "CreateContributionWithContract db now r first links key = Inr (u, db') \<Longrightarrow>
    cr_OutcomeID first = o_ID r \<Longrightarrow> db_step sha db db'"
| revise: "AppendContractRevision db now oid expected r = Inr (n, db') \<Longrightarrow> cr_OutcomeID r = oid \<Longrightarrow>
    db_step sha db db'"
| plan: "AppendPlanRevision db linked oid p = Inr (q, db') \<Longrightarrow> db_step sha db db'"
| approve: "ApprovePlanRevision db oid pid = Inr (r, db') \<Longrightarrow> db_step sha db db'"
| evidence: "CreateEvidenceItem db e = Inr (u, db') \<Longrightarrow> db_step sha db db'"
| verify: "CreateVerificationRun db v = Inr (u, db') \<Longrightarrow> db_step sha db db'"
| decide: "CreateAcceptanceDecision db d c = Inr (u, db') \<Longrightarrow> db_step sha db db'"
| decide_batch: "CreateAcceptanceDecisionBatch db ds = Inr (u, db') \<Longrightarrow> db_step sha db db'"
| decompose: "AppendDecompositionRevision db x = Inr (y, db') \<Longrightarrow> db_step sha db db'"
| authorize: "AuthorizeDecompositionRevision db now oid did cs at = Inr (u, db') \<Longrightarrow>
    \<forall>a\<in>set cs. cr_OutcomeID (au_First a) = o_ID (au_Outcome a) \<Longrightarrow> db_step sha db db'"
| waive: "AppendContributionDependencyWaiver db w = Inr (u, db') \<Longrightarrow> db_step sha db db'"
| control: "store_step sha (control_view db) s' \<Longrightarrow> db_step sha db (db\<lparr>db_Control := s'\<rparr>)"
| trash: "db_step sha db (db\<lparr>db_Trash := ts\<rparr>)"
| spaces: "\<forall>k. db_Spaces db k \<noteq> None \<longrightarrow> sp k = db_Spaces db k \<Longrightarrow> db_step sha db (db\<lparr>db_Spaces := sp\<rparr>)"

inductive db_reachable :: "(string \<Rightarrow> string) \<Rightarrow> outcome_db \<Rightarrow> bool" for sha where
  initial: "db_reachable sha (empty_db (\<lambda>_. None))"
| committed: "db_reachable sha db \<Longrightarrow> db_step sha db db' \<Longrightarrow> db_reachable sha db'"

section \<open>Effects of the statements\<close>

lemma insertContractRevision_effect:
  assumes "insertContractRevision db now r = Inr (u, db')"
  obtains c where "db' = db\<lparr>db_Contracts := db_Contracts db @ [c]\<rparr>" "cr_OutcomeID c = cr_OutcomeID r"
    "cr_Number c = cr_Number r" "cr_ID c = cr_ID r" "cr_OutcomeID r \<in> o_ID ` set (db_Outcomes db)"
    "cr_ID r \<notin> cr_ID ` set (db_Contracts db)"
proof -
  let ?c = "(if cr_Criteria r = [] then r\<lparr>cr_Criteria := default_criteria r\<rparr> else r)\<lparr>cr_CreatedAt := now\<rparr>"
  show thesis
    by (rule that [of ?c])
      (use assms in \<open>auto simp: insertContractRevision_def Let_def split: option.splits if_splits\<close>)
qed

text \<open>What the transactions change of outcomes and contracts.\<close>

definition same_outcomes :: "outcome_db \<Rightarrow> outcome_db \<Rightarrow> bool" where
  "same_outcomes db db' \<longleftrightarrow> db_Outcomes db' = db_Outcomes db \<and> db_Contracts db' = db_Contracts db"

definition same_proof :: "outcome_db \<Rightarrow> outcome_db \<Rightarrow> bool" where
  "same_proof db db' \<longleftrightarrow> db_Evidence db' = db_Evidence db \<and> db_Verifications db' = db_Verifications db \<and>
     db_Decisions db' = db_Decisions db \<and> db_Corrections db' = db_Corrections db"

definition same_control :: "outcome_db \<Rightarrow> outcome_db \<Rightarrow> bool" where
  "same_control db db' \<longleftrightarrow> db_Control db' = db_Control db"

lemmas same_defs = same_outcomes_def same_proof_def same_control_def

lemma advance_current_effect [simp]:
  "db_Contracts (snd (advance_current db oid e n at)) = db_Contracts db"
  "same_proof db (snd (advance_current db oid e n at))"
  "same_control db (snd (advance_current db oid e n at))"
  "db_Plans (snd (advance_current db oid e n at)) = db_Plans db"
  by (simp_all add: advance_current_def Let_def same_defs)

lemma insert_links_effect:
  "insert_links db now ls = Inr (u, db') \<Longrightarrow>
     same_outcomes db db' \<and> same_proof db db' \<and> same_control db db' \<and> db_Plans db' = db_Plans db"
  by (induction db now ls rule: insert_links.induct) (auto simp: same_defs split: if_splits)

lemma bind_contribution_effect [simp]:
  "same_outcomes db (snd (bind_contribution db row child))"
  "same_proof db (snd (bind_contribution db row child))"
  "same_control db (snd (bind_contribution db row child))"
  "db_Plans (snd (bind_contribution db row child)) = db_Plans db"
  by (simp_all add: bind_contribution_def Let_def same_defs)

lemma start_outcome_parts:
  assumes "start_outcome db now r key first = Inr (u, db')"
  obtains c where
    "outcome_constraints db r key" "cr_OutcomeID c = cr_OutcomeID first"
    "cr_Number c = nextRevisionNumber db (o_ID r)"
    "db_Contracts db' = db_Contracts db @ [c]"
    "db_Outcomes db' = db_Outcomes db @ [new_outcome_row now r key\<lparr>
       o_CurrentRevisionNumber := nextRevisionNumber db (o_ID r), o_UpdatedAt := cr_CreatedAt first\<rparr>]"
    "same_proof db db'" "same_control db db'" "db_Plans db' = db_Plans db"
proof -
  let ?row = "new_outcome_row now r key"
  let ?db1 = "db\<lparr>db_Outcomes := db_Outcomes db @ [?row]\<rparr>"
  let ?n = "nextRevisionNumber db (o_ID r)"
  have n: "nextRevisionNumber ?db1 (o_ID r) = ?n" by (simp add: nextRevisionNumber_def MaxContractRevisionNumber_def contracts_of_def)
  obtain db2 where
      ok: "outcome_constraints db r key" and
      ins: "insertContractRevision ?db1 now (first\<lparr>cr_Number := ?n\<rparr>) = Inr ((), db2)" and
      db': "db' = snd (advance_current db2 (o_ID r) 0 ?n (cr_CreatedAt first))"
    using assms n by (auto simp: start_outcome_def Let_def and_then_Inr case_prod_unfold split: if_split_asm)
  obtain c where c: "db2 = ?db1\<lparr>db_Contracts := db_Contracts ?db1 @ [c]\<rparr>"
      "cr_OutcomeID c = cr_OutcomeID first" "cr_Number c = ?n"
    by (rule insertContractRevision_effect [OF ins]) auto
  have fresh: "\<forall>x\<in>set (db_Outcomes db). o_ID x \<noteq> o_ID r"
    using ok unfolding outcome_constraints_def image_iff by metis
  show thesis
  proof (rule that [OF ok c(2,3)])
    show "db_Contracts db' = db_Contracts db @ [c]" unfolding db' advance_current_effect c(1) by simp
    show "db_Outcomes db' = db_Outcomes db @ [?row\<lparr>o_CurrentRevisionNumber := ?n,
        o_UpdatedAt := cr_CreatedAt first\<rparr>]"
      using fresh unfolding db' c(1)
      by (auto simp: advance_current_def Let_def new_outcome_row_def intro!: map_idI)
    show "same_proof db db'" "same_control db db'" "db_Plans db' = db_Plans db"
      unfolding db' by (simp_all add: advance_current_def Let_def c(1) same_defs)
  qed
qed


section \<open>Outcomes and contracts\<close>

definition outcome_ok :: "outcome_db \<Rightarrow> outcome_row \<Rightarrow> bool" where
  "outcome_ok db r \<longleftrightarrow>
     map cr_Number (contracts_of db (o_ID r)) = [1..o_CurrentRevisionNumber r] \<and>
     contracts_of db (o_ID r) \<noteq> [] \<and>
     (o_ParentID r \<noteq> [] \<longrightarrow> (\<exists>p\<in>set (db_Outcomes db). o_ID p = o_ParentID r \<and> o_ParentID p = []))"

definition outcomes_ok :: "outcome_db \<Rightarrow> bool" where
  "outcomes_ok db \<longleftrightarrow> distinct (map o_ID (db_Outcomes db)) \<and>
     (\<forall>c\<in>set (db_Contracts db). cr_OutcomeID c \<in> o_ID ` set (db_Outcomes db)) \<and>
     (\<forall>r\<in>set (db_Outcomes db). outcome_ok db r)"

lemma outcomes_ok_same: "same_outcomes db db' \<Longrightarrow> outcomes_ok db' = outcomes_ok db"
  by (simp add: same_outcomes_def outcomes_ok_def outcome_ok_def contracts_of_def)

lemma outcomes_ok_empty: "outcomes_ok (empty_db sp)"
  by (simp add: outcomes_ok_def empty_db_def)

lemma contracts_of_append:
  "db_Contracts db' = db_Contracts db @ [c] \<Longrightarrow>
   contracts_of db' oid = contracts_of db oid @ (if cr_OutcomeID c = oid then [c] else [])"
  by (simp add: contracts_of_def)

lemma contracts_of_fresh:
  "outcomes_ok db \<Longrightarrow> oid \<notin> o_ID ` set (db_Outcomes db) \<Longrightarrow> contracts_of db oid = []"
  by (auto simp: outcomes_ok_def contracts_of_def filter_empty_conv)

lemma next_number:
  assumes "map cr_Number (contracts_of db oid) = [1..n]" "0 \<le> n"
  shows "nextRevisionNumber db oid = n + 1"
proof -
  let ?xs = "map cr_Number (contracts_of db oid)"
  have "int (length ?xs) = n" using assms by simp
  then have "?xs = [1..int (length ?xs)]" using assms(1) by simp
  from foldr_max_gapless [OF this] show ?thesis using \<open>int (length ?xs) = n\<close>
    by (simp add: nextRevisionNumber_def MaxContractRevisionNumber_def)
qed

lemma current_positive: "outcome_ok db r \<Longrightarrow> 1 \<le> o_CurrentRevisionNumber r"
  unfolding outcome_ok_def by (metis linorder_not_le map_is_Nil_conv upto_empty)

lemma outcomes_ok_start:
  assumes ok: "outcomes_ok db" and st: "start_outcome db now r key first = Inr (u, db')"
    and mine: "cr_OutcomeID first = o_ID r"
  shows "outcomes_ok db'"
proof -
  from st obtain c where c: "outcome_constraints db r key" "cr_OutcomeID c = cr_OutcomeID first"
    "cr_Number c = nextRevisionNumber db (o_ID r)" "db_Contracts db' = db_Contracts db @ [c]"
    "db_Outcomes db' = db_Outcomes db @ [new_outcome_row now r key\<lparr>
       o_CurrentRevisionNumber := nextRevisionNumber db (o_ID r), o_UpdatedAt := cr_CreatedAt first\<rparr>]"
    by (rule start_outcome_parts) blast
  have fresh: "o_ID r \<notin> o_ID ` set (db_Outcomes db)" using c(1) by (simp add: outcome_constraints_def)
  have n: "nextRevisionNumber db (o_ID r) = 1"
    using contracts_of_fresh [OF ok fresh] by (simp add: nextRevisionNumber_def MaxContractRevisionNumber_def)
  let ?row = "new_outcome_row now r key\<lparr>o_CurrentRevisionNumber := 1, o_UpdatedAt := cr_CreatedAt first\<rparr>"
  have rows: "db_Outcomes db' = db_Outcomes db @ [?row]" using c(5) n by simp
  have old: "outcome_ok db' x" if "x \<in> set (db_Outcomes db)" for x
  proof -
    have "contracts_of db' (o_ID x) = contracts_of db (o_ID x)"
      using that fresh c(2) mine by (auto simp: contracts_of_append [OF c(4)])
    then show ?thesis using ok that unfolding outcomes_ok_def outcome_ok_def rows by auto
  qed
  have parent: "\<exists>p\<in>set (db_Outcomes db). o_ID p = o_ParentID r \<and> o_ParentID p = []"
    if "\<not> blank (o_ParentID r)"
    using that c(1) by (auto simp: outcome_constraints_def outcome_row_by_id_def dest: find_SomeD
        split: option.splits)
  have "contracts_of db' (o_ID r) = [c]"
    using contracts_of_fresh [OF ok fresh] c(2) mine by (simp add: contracts_of_append [OF c(4)])
  then have new: "outcome_ok db' ?row"
    using parent c(3) n unfolding outcome_ok_def rows by (auto simp: new_outcome_row_def)
  show ?thesis unfolding outcomes_ok_def
  proof (intro conjI ballI)
    show "distinct (map o_ID (db_Outcomes db'))"
      using ok fresh by (simp add: rows outcomes_ok_def new_outcome_row_def)
    show "outcome_ok db' x" if "x \<in> set (db_Outcomes db')" for x
      using that old new by (auto simp: rows)
    show "cr_OutcomeID x \<in> o_ID ` set (db_Outcomes db')" if "x \<in> set (db_Contracts db')" for x
      using that ok c(2,4) mine by (auto simp: rows outcomes_ok_def new_outcome_row_def)
  qed
qed

lemma outcomes_ok_revise:
  assumes ok: "outcomes_ok db" and st: "AppendContractRevision db now oid expected r = Inr (n, db')"
    and mine: "cr_OutcomeID r = oid"
  shows "outcomes_ok db'"
proof -
  let ?n = "nextRevisionNumber db oid"
  let ?hit = "\<lambda>x. o_ID x = oid \<and> o_CurrentRevisionNumber x = expected"
  let ?upd = "\<lambda>x. if ?hit x then x\<lparr>o_CurrentRevisionNumber := ?n, o_UpdatedAt := now\<rparr> else x"
  obtain db1 where ins: "insertContractRevision db now (r\<lparr>cr_Number := ?n\<rparr>) = Inr ((), db1)"
      and adv: "db' = snd (advance_current db1 oid expected ?n now)"
      and hits: "fst (advance_current db1 oid expected ?n now) \<noteq> 0"
    using st by (auto simp: AppendContractRevision_def Let_def and_then_Inr case_prod_unfold split: if_split_asm)
  obtain c where c: "db1 = db\<lparr>db_Contracts := db_Contracts db @ [c]\<rparr>" "cr_OutcomeID c = oid" "cr_Number c = ?n"
    by (rule insertContractRevision_effect [OF ins]) (use mine in auto)
  have outs: "db_Outcomes db' = map ?upd (db_Outcomes db)"
    and cons: "db_Contracts db' = db_Contracts db @ [c]"
    and some: "filter ?hit (db_Outcomes db) \<noteq> []"
    using adv hits by (auto simp: advance_current_def Let_def c(1))
  then obtain x0 where x0: "x0 \<in> set (db_Outcomes db)" "o_ID x0 = oid" "o_CurrentRevisionNumber x0 = expected"
    by (auto simp: filter_empty_conv)
  then have "outcome_ok db x0" using ok by (simp add: outcomes_ok_def)
  then have n: "?n = expected + 1"
    using next_number [of db oid expected] current_positive [of db x0] x0 by (simp add: outcome_ok_def)
  have only: "x = x0" if "x \<in> set (db_Outcomes db)" "o_ID x = oid" for x
  proof -
    have "inj_on o_ID (set (db_Outcomes db))" using ok by (simp add: outcomes_ok_def distinct_map)
    then show ?thesis by (rule inj_onD) (use that x0 in simp_all)
  qed
  have ids: "map o_ID (db_Outcomes db') = map o_ID (db_Outcomes db)"
    and parents: "map o_ParentID (db_Outcomes db') = map o_ParentID (db_Outcomes db)"
    unfolding outs by (rule map_conditional_keeps; simp)+
  have good: "outcome_ok db' (?upd x)" if x: "x \<in> set (db_Outcomes db)" for x
  proof -
    have okx: "outcome_ok db x" using ok x by (simp add: outcomes_ok_def)
    have parent: "\<exists>p\<in>set (db_Outcomes db'). o_ID p = o_ParentID x \<and> o_ParentID p = []"
      if none: "o_ParentID x \<noteq> []"
    proof -
      obtain p where p: "p \<in> set (db_Outcomes db)" "o_ID p = o_ParentID x" "o_ParentID p = []"
        using okx none by (auto simp: outcome_ok_def)
      then have "?upd p \<in> set (db_Outcomes db')" unfolding outs by auto
      moreover have "o_ID (?upd p) = o_ParentID x" "o_ParentID (?upd p) = []" using p by simp_all
      ultimately show ?thesis by blast
    qed
    show ?thesis
    proof (cases "o_ID x = oid")
      case True
      then have "x = x0" using only x by blast
      moreover have "contracts_of db' oid = contracts_of db oid @ [c]"
        using c(2) by (simp add: contracts_of_append [OF cons])
      moreover have "[1..expected] @ [expected + 1] = [1..expected + 1]"
        using current_positive [OF okx] \<open>x = x0\<close> x0 by (simp add: upto_snoc)
      ultimately show ?thesis using okx parent x0 c(3) n by (simp add: outcome_ok_def)
    next
      case False
      then have "contracts_of db' (o_ID x) = contracts_of db (o_ID x)"
        using c(2) by (simp add: contracts_of_append [OF cons])
      then show ?thesis using okx parent False by (simp add: outcome_ok_def)
    qed
  qed
  show ?thesis unfolding outcomes_ok_def
  proof (intro conjI ballI)
    show "distinct (map o_ID (db_Outcomes db'))" using ok ids by (simp add: outcomes_ok_def)
    show "outcome_ok db' x" if "x \<in> set (db_Outcomes db')" for x
    proof -
      have "x \<in> ?upd ` set (db_Outcomes db)" using that by (simp only: outs set_map)
      then obtain y where "x = ?upd y" "y \<in> set (db_Outcomes db)" by (rule imageE)
      then show ?thesis using good by simp
    qed
    have "set (map o_ID (db_Outcomes db')) = set (map o_ID (db_Outcomes db))" by (simp only: ids)
    then show "cr_OutcomeID x \<in> o_ID ` set (db_Outcomes db')" if "x \<in> set (db_Contracts db')" for x
      using that ok c(2) x0 by (auto simp: cons outcomes_ok_def) (metis imageI)
  qed
qed


section \<open>The proof records\<close>

text \<open>Every statement keeps the proof records or appends to them.\<close>

definition grows :: "outcome_db \<Rightarrow> outcome_db \<Rightarrow> bool" where
  "grows db db' \<longleftrightarrow> (\<exists>es vs ds cs.
     db_Evidence db' = db_Evidence db @ es \<and> db_Verifications db' = db_Verifications db @ vs \<and>
     db_Decisions db' = db_Decisions db @ ds \<and> db_Corrections db' = db_Corrections db @ cs)"

lemma grows_same: "same_proof db db' \<Longrightarrow> grows db db'"
  by (simp add: grows_def same_proof_def)

lemma grows_trans: "grows a b \<Longrightarrow> grows b c \<Longrightarrow> grows a c"
  by (auto simp: grows_def)

text \<open>A transaction that changes neither outcomes nor control rows.\<close>

definition proof_only :: "outcome_db \<Rightarrow> outcome_db \<Rightarrow> bool" where
  "proof_only db db' \<longleftrightarrow> same_outcomes db db' \<and> same_control db db' \<and> db_Plans db' = db_Plans db \<and> grows db db'"

lemma proof_only_trans: "proof_only a b \<Longrightarrow> proof_only b c \<Longrightarrow> proof_only a c"
  by (auto simp: proof_only_def same_defs intro: grows_trans)

lemma evidence_effect: "CreateEvidenceItem db e = Inr (u, db') \<Longrightarrow> proof_only db db'"
  by (auto simp: CreateEvidenceItem_def proof_only_def same_defs grows_def split: option.splits if_splits)

lemma verification_effect: "CreateVerificationRun db v = Inr (u, db') \<Longrightarrow> proof_only db db'"
  by (auto simp: CreateVerificationRun_def proof_only_def same_defs grows_def split: option.splits if_splits)

lemma insert_decision_effect: "insert_decision db d = Inr (u, db') \<Longrightarrow> proof_only db db'"
  by (auto simp: insert_decision_def proof_only_def same_defs grows_def split: if_splits)

lemma insert_correction_effect: "insert_correction db c = Inr (u, db') \<Longrightarrow> proof_only db db'"
  by (auto simp: insert_correction_def proof_only_def same_defs grows_def split: if_splits)

lemma decision_effect:
  assumes "CreateAcceptanceDecision db d c = Inr (u, db')" shows "proof_only db db'"
proof -
  obtain db1 where "insert_decision db d = Inr ((), db1)"
      "(case c of None \<Rightarrow> Inr ((), db1) | Some c \<Rightarrow> insert_correction db1 c) = Inr (u, db')"
    using assms by (auto simp: CreateAcceptanceDecision_def and_then_Inr split: option.splits)
  then show ?thesis
    using insert_decision_effect insert_correction_effect proof_only_trans by (fastforce split: option.splits)
qed

lemma insert_decisions_effect: "insert_decisions db ds = Inr (u, db') \<Longrightarrow> ds \<noteq> [] \<Longrightarrow> proof_only db db'"
proof (induction db ds rule: insert_decisions.induct)
  case (2 db d ds)
  then obtain db1 where "insert_decision db d = Inr ((), db1)" "insert_decisions db1 ds = Inr (u, db')"
    by (auto simp: and_then_Inr)
  then show ?case
    using 2 insert_decision_effect proof_only_trans by (cases "ds = []") fastforce+
qed simp

lemma batch_effect: "CreateAcceptanceDecisionBatch db ds = Inr (u, db') \<Longrightarrow> proof_only db db'"
  using insert_decisions_effect
  by (auto simp: CreateAcceptanceDecisionBatch_def split: option.splits if_splits)

section \<open>Steps that touch outcomes\<close>

lemma authorize_each_effect:
  assumes "authorize_each db now did as = Inr (u, db')" "outcomes_ok db"
    and "\<forall>a\<in>set as. cr_OutcomeID (au_First a) = o_ID (au_Outcome a)"
  shows "outcomes_ok db' \<and> same_proof db db' \<and> same_control db db' \<and> db_Plans db' = db_Plans db"
  using assms
proof (induction as arbitrary: db)
  case (Cons a rest)
  obtain db1 db2 where
      start: "start_outcome db now (au_Outcome a) None (au_First a) = Inr ((), db1)" and
      links: "insert_links db1 now (au_Links a) = Inr ((), db2)" and
      more: "authorize_each (snd (bind_contribution db2 (contributionRowID did (au_Ref a)) (o_ID (au_Outcome a))))
        now did rest = Inr (u, db')"
    using Cons.prems(1) by (auto simp: and_then_Inr case_prod_unfold split: if_split_asm)
  let ?db3 = "snd (bind_contribution db2 (contributionRowID did (au_Ref a)) (o_ID (au_Outcome a)))"
  have mine: "cr_OutcomeID (au_First a) = o_ID (au_Outcome a)" using Cons.prems(3) by simp
  have ok1: "outcomes_ok db1" by (rule outcomes_ok_start [OF Cons.prems(2) start mine])
  have same1: "same_proof db db1" "same_control db db1" "db_Plans db1 = db_Plans db"
    by (rule start_outcome_parts [OF start], simp)+
  note same2 = insert_links_effect [OF links]
  have same3: "same_outcomes db2 ?db3" "same_proof db2 ?db3" "same_control db2 ?db3" "db_Plans ?db3 = db_Plans db2"
    by simp_all
  have ok3: "outcomes_ok ?db3"
    using ok1 same2 outcomes_ok_same [OF same3(1)] outcomes_ok_same [of db1 db2] by simp
  have "outcomes_ok db' \<and> same_proof ?db3 db' \<and> same_control ?db3 db' \<and> db_Plans db' = db_Plans ?db3"
    using Cons.prems(3) by (intro Cons.IH [OF more ok3]) simp
  then show ?case using same1 same2 same3 by (simp add: same_defs)
qed (simp add: same_defs)

lemma authorize_effect:
  assumes "AuthorizeDecompositionRevision db now oid did as at = Inr (u, db')" "outcomes_ok db"
    and "\<forall>a\<in>set as. cr_OutcomeID (au_First a) = o_ID (au_Outcome a)"
  shows "outcomes_ok db' \<and> same_proof db db' \<and> same_control db db' \<and> db_Plans db' = db_Plans db"
proof -
  obtain f where "authorize_each (db\<lparr>db_Decompositions := f\<rparr>) now did as = Inr (u, db')"
    using assms(1) by (auto simp: AuthorizeDecompositionRevision_def Let_def split: option.splits if_splits)
  from authorize_each_effect [OF this _ assms(3)] assms(2) show ?thesis
    using outcomes_ok_same [of db "db\<lparr>db_Decompositions := f\<rparr>"] by (simp add: same_defs)
qed


section \<open>Every step\<close>

lemma create_outcome_effect:
  assumes "CreateOutcomeWithContract db now r first key = Inr (u, db')"
  obtains k where "start_outcome db now r k first = Inr (u, db')"
  using assms by (auto simp: CreateOutcomeWithContract_def split: option.splits)

lemma contribution_effect:
  assumes "CreateContributionWithContract db now r first links key = Inr (u, db')"
  obtains k db1 where "start_outcome db now r k first = Inr ((), db1)" "insert_links db1 now links = Inr (u, db')"
  using assms by (auto simp: CreateContributionWithContract_def and_then_Inr split: option.splits)

lemma revise_effect:
  assumes "AppendContractRevision db now oid expected r = Inr (n, db')"
  shows "same_proof db db'" "same_control db db'" "db_Plans db' = db_Plans db"
proof -
  obtain db1 where ins: "insertContractRevision db now (r\<lparr>cr_Number := nextRevisionNumber db oid\<rparr>) = Inr ((), db1)"
      and db': "db' = snd (advance_current db1 oid expected (nextRevisionNumber db oid) now)"
    using assms by (auto simp: AppendContractRevision_def Let_def and_then_Inr case_prod_unfold split: if_split_asm)
  obtain c where c: "db1 = db\<lparr>db_Contracts := db_Contracts db @ [c]\<rparr>"
    by (rule insertContractRevision_effect [OF ins]) auto
  show "same_proof db db'" "same_control db db'" "db_Plans db' = db_Plans db"
    unfolding db' by (simp_all add: advance_current_def Let_def c same_defs)
qed

lemma plan_effect:
  "AppendPlanRevision db linked oid p = Inr (q, db') \<Longrightarrow>
     db' = db\<lparr>db_Plans := db_Plans db @ [q]\<rparr> \<and> pr_Status q = PlanProposed"
  by (auto simp: AppendPlanRevision_def Let_def split: if_splits option.splits)

lemma approve_effect:
  assumes "ApprovePlanRevision db oid pid = Inr (r, db')"
  obtains f where "db' = db\<lparr>db_Plans := map f (db_Plans db)\<rparr>"
    "\<And>p. f p = p \<or> (pr_Status p = PlanProposed \<and> f p = p\<lparr>pr_Status := PlanApproved\<rparr>)"
proof -
  let ?f = "\<lambda>p. if pr_ID p = pid \<and> pr_OutcomeID p = oid \<and> pr_Status p = PlanProposed
             then p\<lparr>pr_Status := PlanApproved\<rparr> else p"
  consider "db' = db\<lparr>db_Plans := map ?f (db_Plans db)\<rparr>" | "db' = db"
    using assms by (auto simp: ApprovePlanRevision_def Let_def split: if_splits option.splits)
  then show thesis
  proof cases
    case 2
    then show ?thesis by (intro that [of id]) simp_all
  qed (rule that [of ?f]; simp)
qed

lemma decompose_effect:
  "AppendDecompositionRevision db x = Inr (y, db') \<Longrightarrow> \<exists>d. db' = db\<lparr>db_Decompositions := d\<rparr>"
  by (auto simp: AppendDecompositionRevision_def Let_def split: if_splits option.splits)

lemma waive_effect:
  "AppendContributionDependencyWaiver db w = Inr (u, db') \<Longrightarrow> \<exists>d. db' = db\<lparr>db_Waivers := d\<rparr>"
  by (auto simp: AppendContributionDependencyWaiver_def Let_def split: if_splits option.splits)

text \<open>What every committed transaction keeps: the invariant of outcomes and contracts, the proof
  records as prefixes, and the control rows unless it is a control transaction.\<close>

lemma db_step_effect:
  assumes "db_step sha db db'" "outcomes_ok db"
  shows "outcomes_ok db' \<and> grows db db' \<and>
    (same_control db db' \<or> store_step sha (control_view db) (db_Control db') \<and> same_outcomes db db' \<and> same_proof db db')"
  using assms
proof (induction rule: db_step.induct)
  case (start db now r first key u db')
  then obtain k where st: "start_outcome db now r k first = Inr (u, db')" by (auto elim: create_outcome_effect)
  then show ?case
    using start outcomes_ok_start [OF _ st] grows_same by (auto elim: start_outcome_parts)
next
  case (contribute db now r first links key u db')
  from contribute(1) obtain k db1 where st: "start_outcome db now r k first = Inr ((), db1)"
      and li: "insert_links db1 now links = Inr (u, db')"
    by (rule contribution_effect)
  have "outcomes_ok db1" using outcomes_ok_start [OF contribute(3) st contribute(2)] .
  moreover have "same_proof db db1" "same_control db db1" by (rule start_outcome_parts [OF st], simp)+
  ultimately show ?case
    using insert_links_effect [OF li] outcomes_ok_same [of db1 db'] by (auto simp: same_defs grows_def)
next
  case (revise db now oid expected r n db')
  then show ?case
    using outcomes_ok_revise [OF revise(3,1,2)] revise_effect [OF revise(1)] by (simp add: grows_same)
next
  case (plan db linked oid p q db')
  then show ?case using plan_effect [of db linked oid p q db'] outcomes_ok_same [of db db']
    by (auto simp: same_defs grows_def)
next
  case (approve db oid pid r db')
  from approve(1) obtain f where "db' = db\<lparr>db_Plans := map f (db_Plans db)\<rparr>" by (rule approve_effect)
  then show ?case using outcomes_ok_same [of db db'] approve(2) by (auto simp: same_defs grows_def)
next
  case (evidence db e u db')
  then show ?case
    using evidence_effect [OF evidence(1)] outcomes_ok_same [of db db'] by (simp add: proof_only_def)
next
  case (verify db v u db')
  then show ?case
    using verification_effect [OF verify(1)] outcomes_ok_same [of db db'] by (simp add: proof_only_def)
next
  case (decide db d c u db')
  then show ?case
    using decision_effect [OF decide(1)] outcomes_ok_same [of db db'] by (simp add: proof_only_def)
next
  case (decide_batch db ds u db')
  then show ?case
    using batch_effect [OF decide_batch(1)] outcomes_ok_same [of db db'] by (simp add: proof_only_def)
next
  case (decompose db x y db')
  then show ?case using decompose_effect [of db x y db'] outcomes_ok_same [of db db']
    by (auto simp: same_defs grows_def)
next
  case (authorize db now oid did cs at u db')
  then show ?case using authorize_effect [OF authorize(1,3,2)] by (simp add: grows_same)
next
  case (waive db w u db')
  then show ?case using waive_effect [of db w u db'] outcomes_ok_same [of db db']
    by (auto simp: same_defs grows_def)
qed (auto simp: same_defs grows_def outcomes_ok_def outcome_ok_def contracts_of_def)

lemma db_reachable_ok: "db_reachable sha db \<Longrightarrow> outcomes_ok db"
  by (induction rule: db_reachable.induct) (auto simp: outcomes_ok_empty dest: db_step_effect)

text \<open>Steps that leave the control rows alone are, for the control store, changes elsewhere.\<close>

lemma control_view_elsewhere:
  "same_control db db' \<Longrightarrow> store_step sha (control_view db) (control_view db')"
proof -
  assume "same_control db db'"
  then have "control_view db' = (control_view db)\<lparr>st_ContractNumber := MaxContractRevisionNumber db',
      st_ProofGeneration := OutcomeProofGeneration db'\<rparr>"
    by (simp add: control_view_def same_control_def)
  then show ?thesis using store_step.elsewhere by metis
qed

lemma control_view_step:
  assumes "db_step sha db db'" "outcomes_ok db"
  shows "(store_step sha)\<^sup>*\<^sup>* (control_view db) (control_view db')"
proof -
  consider "same_control db db'" | "store_step sha (control_view db) (db_Control db')"
    using db_step_effect [OF assms] by blast
  then show ?thesis
  proof cases
    case 1
    then show ?thesis using control_view_elsewhere by blast
  next
    case 2
    have "store_step sha (db_Control db') (control_view db')"
      unfolding control_view_def by (rule store_step.elsewhere)
    then show ?thesis using 2 by (meson converse_rtranclp_into_rtranclp r_into_rtranclp)
  qed
qed

lemma reachable_steps: "(store_step sha)\<^sup>*\<^sup>* s t \<Longrightarrow> reachable sha s \<Longrightarrow> reachable sha t"
  by (induction rule: rtranclp_induct) (auto intro: reachable.committed)

lemma control_view_reachable: "db_reachable sha db \<Longrightarrow> reachable sha (control_view db)"
proof (induction rule: db_reachable.induct)
  case initial
  have "store_step sha empty_store (control_view (empty_db (\<lambda>_. None)))"
    unfolding control_view_def empty_db_def outcome_db.simps by (rule store_step.elsewhere)
  then show ?case by (rule reachable.committed [OF reachable.initial])
next
  case (committed db db')
  then show ?case using control_view_step [OF _ db_reachable_ok] reachable_steps by blast
qed

end
