(* ===== verification/Outcome_Properties.thy ===== *)
theory Outcome_Properties
  imports Outcome_Steps Plan_Samples
begin

text \<open>
  What holds of the outcome database after any number of committed transactions, each with a
  witness at a concrete database.
\<close>

section \<open>A sample database\<close>

definition sample_outcome :: "ident \<Rightarrow> ident \<Rightarrow> outcome" where
  "sample_outcome i parent = \<lparr>o_ID = i, o_SpaceID = ''s1'', o_ParentID = parent, o_Title = ''t'',
     o_CurrentRevisionNumber = 0, o_CreatedAt = 0, o_UpdatedAt = 0\<rparr>"

definition sample_spaces :: "ident \<Rightarrow> ident option" where
  "sample_spaces i = (if i = ''s1'' then Some ''p1'' else None)"

definition sample_db :: outcome_db where
  "sample_db = (empty_db sample_spaces)\<lparr>
     db_Outcomes := [\<lparr>o_ID = ''o1'', o_SpaceID = ''s1'', o_ParentID = [], o_Title = ''t'',
        o_CurrentRevisionNumber = 1, o_CreatedAt = 5, o_UpdatedAt = 1, or_Key = Some ''k''\<rparr>],
     db_Contracts := [sample_contract\<lparr>cr_CreatedAt := 5\<rparr>]\<rparr>"

lemma sample_db_created:
  "CreateOutcomeWithContract (empty_db sample_spaces) 5 (sample_outcome ''o1'' []) sample_contract ''k'' =
     Inr ((), sample_db)"
proof -
  have valid: "Outcome_Validate (sample_outcome ''o1'' []) = None" by code_simp
  have first: "sample_contract\<lparr>cr_Number := 1\<rparr> = sample_contract" "cr_Criteria sample_contract \<noteq> []"
    "cr_OutcomeID sample_contract = ''o1''" "cr_CreatedAt sample_contract = 1"
    by (simp_all add: sample_contract_def)
  show ?thesis
    by (simp add: CreateOutcomeWithContract_def valid [unfolded sample_outcome_def] start_outcome_def outcome_constraints_def
        insertContractRevision_def nextRevisionNumber_def MaxContractRevisionNumber_def contracts_of_def first sample_contract_valid
        advance_current_def new_outcome_row_def empty_db_def sample_db_def sample_outcome_def
        sample_spaces_def Let_def)
qed

lemma sample_db_reachable: "db_reachable sha sample_db"
proof -
  have "db_step sha (empty_db (\<lambda>_. None)) ((empty_db (\<lambda>_. None))\<lparr>db_Spaces := sample_spaces\<rparr>)"
    by (rule db_step.spaces) (simp add: empty_db_def)
  then have "db_reachable sha (empty_db sample_spaces)"
    using db_reachable.committed [OF db_reachable.initial] by (simp add: empty_db_def)
  moreover have "db_step sha (empty_db sample_spaces) sample_db"
    by (rule db_step.start [OF sample_db_created]) (simp add: sample_contract_def sample_outcome_def)
  ultimately show ?thesis by (rule db_reachable.committed)
qed


text \<open>The sample plan proposed and then approved, and a contributor of the outcome.\<close>

definition sample_proposed_db :: outcome_db where
  "sample_proposed_db = sample_db\<lparr>db_Plans := [sample_plan]\<rparr>"

definition sample_approved_plan :: plan_revision where
  "sample_approved_plan = sample_plan\<lparr>pr_Status := PlanApproved\<rparr>"

definition sample_approved_db :: outcome_db where
  "sample_approved_db = sample_db\<lparr>db_Plans := [sample_approved_plan]\<rparr>"

definition sample_child_contract :: contract_revision where
  "sample_child_contract = sample_contract\<lparr>cr_ID := ''r2'', cr_OutcomeID := ''o2'',
     cr_Criteria := [\<lparr>cc_ID = ''c1'', cc_ContractRevisionID = ''r2'', cc_Position = 1, cc_Text = ''c1''\<rparr>],
     cr_SuccessCriteria := [''c1''], cr_EvidenceExpectations := []\<rparr>"

definition sample_link :: contribution_link where
  "sample_link = \<lparr>lk_ID = ''l1'', lk_ParentOutcomeID = ''o1'', lk_ChildOutcomeID = ''o2'',
     lk_ParentContractRevisionID = ''r1'', lk_ParentCriterionID = ''c1'', lk_CreatedAt = 0\<rparr>"

definition sample_child :: outcome where
  "sample_child = sample_outcome ''o2'' ''o1''\<lparr>o_CurrentRevisionNumber := 1, o_CreatedAt := 6, o_UpdatedAt := 1\<rparr>"

definition sample_composed_db :: outcome_db where
  "sample_composed_db = sample_db\<lparr>
     db_Outcomes := db_Outcomes sample_db @ [outcome.extend sample_child (outcome_row.fields None)],
     db_Contracts := db_Contracts sample_db @ [sample_child_contract\<lparr>cr_CreatedAt := 6\<rparr>],
     db_Links := [sample_link\<lparr>lk_CreatedAt := 6\<rparr>]\<rparr>"

lemma approvable_canonical:
  assumes "ValidateForApproval p r = None" "ValidateExactPlanCapabilityGrants (pr_Grants p) (pr_WorkUnits p) = None"
    "length (pr_RoutingDecisions p) = length (pr_WorkUnits p)"
  shows "validateCanonicalPlanPersistence p = None"
  using assms
  by (simp add: ValidateForApproval_def validateCanonicalPlanPersistence_def routing_checks_def unit_approval_check_def guards)

lemma sample_exact_grants: "ValidateExactPlanCapabilityGrants (pr_Grants sample_plan) (pr_WorkUnits sample_plan) = None"
  by code_simp

lemma sample_canonical:
  "validateCanonicalPlanPersistence sample_plan = None" "PlanRevision_Validate sample_plan = None"
proof -
  have "length (pr_RoutingDecisions sample_plan) = length (pr_WorkUnits sample_plan)"
    by (simp add: sample_plan_def sample_units_def)
  then show "validateCanonicalPlanPersistence sample_plan = None"
    by (rule approvable_canonical [OF sample_plan_approvable sample_exact_grants])
qed (rule sample_plan_valid)

lemma sample_plan_constraints:
  "distinct (map cg_ID (pr_Grants sample_plan))"
  "distinct (map ac_ID (concat (map wu_Checks (pr_WorkUnits sample_plan))))"
  "(\<Union>u\<in>set (pr_WorkUnits sample_plan). set (wu_CriterionIDs u)) \<subseteq> cc_ID ` set (cr_Criteria sample_contract)"
  by (simp_all add: sample_plan_def sample_grants_def sample_units_def Plan_Samples.sample_unit_def sample_contract_def
      sample_criterion_def)

lemma sample_control: "db_Control sample_approved_db = db_Control (empty_db sample_spaces)"
  by (simp add: sample_approved_db_def sample_db_def)

lemma sample_proposed:
  "AppendPlanRevision sample_db True ''o1'' sample_plan = Inr (sample_plan, sample_proposed_db)"
proof -
  have fields: "pr_Status sample_plan = PlanProposed" "sample_plan\<lparr>pr_OutcomeID := ''o1''\<rparr> = sample_plan"
    "sample_plan\<lparr>pr_Number := 1\<rparr> = sample_plan"
    "pr_OutcomeID sample_plan = ''o1''" "pr_ContractRevisionNumber sample_plan = 1"
    "cr_OutcomeID sample_contract = ''o1''" "cr_Number sample_contract = 1"
    by (simp_all add: sample_plan_def sample_contract_def)
  show ?thesis
    using sample_plan_constraints
    by (simp add: AppendPlanRevision_def Let_def fields sample_canonical plan_constraints_def plans_of_def
        contracts_of_def sample_proposed_db_def sample_db_def empty_db_def)
qed

lemma sample_approved:
  "ApprovePlanRevision sample_proposed_db ''o1'' ''p1'' = Inr (Some sample_approved_plan, sample_approved_db)"
  by (simp add: ApprovePlanRevision_def Let_def sample_proposed_db_def sample_approved_db_def
      sample_approved_plan_def GetPlanRevision_def sample_plan_def)

lemma sample_db_steps:
  "db_step sha sample_db sample_proposed_db" "db_step sha sample_proposed_db sample_approved_db"
  by (rule db_step.plan [OF sample_proposed] db_step.approve [OF sample_approved])+

lemma sample_approved_reachable: "db_reachable sha sample_approved_db"
  using sample_db_reachable sample_db_steps by (blast intro: db_reachable.committed)

lemma sample_contributed:
  "CreateContributionWithContract sample_db 6 (sample_outcome ''o2'' ''o1'') sample_child_contract
     [sample_link] [] = Inr ((), sample_composed_db)"
proof -
  have valid: "Outcome_Validate (sample_outcome ''o2'' ''o1'') = None"
    "ValidateContributionLinkSet ''o2'' [sample_link] = None"
    "ContractRevision_Validate sample_child_contract = None" "\<not> blank ''o1''"
    by code_simp+
  have first: "sample_child_contract\<lparr>cr_Number := 1\<rparr> = sample_child_contract"
    "cr_Criteria sample_child_contract \<noteq> []" "cr_OutcomeID sample_child_contract = ''o2''"
    "cr_CreatedAt sample_child_contract = 1" "cr_ID sample_child_contract = ''r2''"
    "cr_ID sample_contract = ''r1''" "cr_OutcomeID sample_contract = ''o1''"
    "''c1'' \<in> cc_ID ` set (cr_Criteria sample_contract)"
    by (simp_all add: sample_child_contract_def sample_contract_def sample_criterion_def)
  show ?thesis
    by (simp add: CreateContributionWithContract_def valid valid(1) [unfolded sample_outcome_def]
        start_outcome_def outcome_constraints_def outcome_row_by_id_def link_constraints_def
        insertContractRevision_def nextRevisionNumber_def MaxContractRevisionNumber_def contracts_of_def first sample_link_def
        advance_current_def new_outcome_row_def empty_db_def sample_db_def sample_outcome_def
        sample_composed_db_def sample_child_def outcome.defs outcome_row.defs sample_spaces_def
        valid(2) [unfolded sample_link_def] refuse_def first_error.simps Let_def)
qed

lemma sample_composed_reachable: "db_reachable sha sample_composed_db"
  by (rule db_reachable.committed [OF sample_db_reachable db_step.contribute [OF sample_contributed]])
    (simp add: sample_child_contract_def sample_outcome_def)

section \<open>Contracts\<close>

lemma contract_history_sorted:
  assumes "map cr_Number (contracts_of db oid) = [1..n]"
  shows "ListContractRevisions db oid = contracts_of db oid"
  unfolding ListContractRevisions_def by (rule sort_key_id_if_sorted) (simp add: assms)

lemma outcome_row_reads:
  assumes "GetOutcome db oid = Some r"
  obtains x where "x \<in> set (db_Outcomes db)" "o_ID x = oid" "r = outcome.truncate x"
  using assms by (auto simp: GetOutcome_def outcome_row_by_id_def split: if_splits dest: find_SomeD)

lemma truncate_fields [simp]:
  "o_ID (outcome.truncate x) = o_ID x" "o_ParentID (outcome.truncate x) = o_ParentID x"
  "o_CurrentRevisionNumber (outcome.truncate x) = o_CurrentRevisionNumber x"
  by (simp_all add: outcome.truncate_def)

text \<open>C27: the current contract of an outcome always resolves: the history is numbered from 1
  without a gap, the pointer names its last revision, and \<^verbatim>\<open>Get\<close> returns it, so the
  error about a missing revision never occurs.\<close>

theorem contract_always_resolves:
  assumes "db_reachable sha db" "GetOutcome db oid = Some r"
  shows "map cr_Number (contracts_of db oid) = [1..o_CurrentRevisionNumber r] \<and>
    Service_Get db oid = Inr \<lparr>ov_Outcome = r, ov_Current = last (contracts_of db oid),
      ov_History = contracts_of db oid\<rparr>"
proof -
  from assms(2) obtain x where x: "x \<in> set (db_Outcomes db)" "o_ID x = oid" "r = outcome.truncate x"
    by (rule outcome_row_reads)
  let ?cs = "contracts_of db oid"
  have "outcome_ok db x" using db_reachable_ok [OF assms(1)] x(1) by (simp add: outcomes_ok_def)
  then have nums: "map cr_Number ?cs = [1..o_CurrentRevisionNumber r]" and ne: "?cs \<noteq> []"
    using x(2,3) by (simp_all add: outcome_ok_def)
  have split: "?cs = butlast ?cs @ [last ?cs]" using ne by simp
  have pos: "1 \<le> o_CurrentRevisionNumber r" using nums ne by (metis map_is_Nil_conv upto_empty not_le)
  then have "map cr_Number (butlast ?cs) = [1..o_CurrentRevisionNumber r - 1] \<and>
      cr_Number (last ?cs) = o_CurrentRevisionNumber r"
    using arg_cong [OF nums, of butlast] arg_cong [OF nums, of last] ne
    by (simp add: map_butlast [symmetric] last_map upto_rec2)
  then have before: "\<forall>c\<in>set (butlast ?cs). cr_Number c \<noteq> o_CurrentRevisionNumber r"
    and this_one: "cr_Number (last ?cs) = o_CurrentRevisionNumber r"
    by (metis (no_types, lifting) atLeastAtMost_iff image_eqI list.set_map set_upto
        diff_add_cancel zle_add1_eq_le less_irrefl, blast)
  have "find (\<lambda>c. cr_Number c = o_CurrentRevisionNumber r) ?cs = Some (last ?cs)"
    using find_first [of "\<lambda>c. cr_Number c = o_CurrentRevisionNumber r" "last ?cs" "butlast ?cs" "[]"]
      before this_one split by simp
  then show ?thesis
    using assms(2) nums contract_history_sorted [OF nums] by (simp add: Service_Get_def Let_def)
qed

lemma sample_db_get:
  "GetOutcome sample_db ''o1'' = Some (sample_outcome ''o1'' []\<lparr>o_CurrentRevisionNumber := 1,
     o_CreatedAt := 5, o_UpdatedAt := 1\<rparr>)"
  by (simp add: GetOutcome_def outcome_row_by_id_def sample_db_def empty_db_def outcome.defs sample_outcome_def)

theorem contract_always_resolves_witness:
  "Service_Get sample_db ''o1'' = Inr \<lparr>ov_Outcome = sample_outcome ''o1'' []\<lparr>o_CurrentRevisionNumber := 1,
     o_CreatedAt := 5, o_UpdatedAt := 1\<rparr>, ov_Current = sample_contract\<lparr>cr_CreatedAt := 5\<rparr>,
     ov_History = [sample_contract\<lparr>cr_CreatedAt := 5\<rparr>]\<rparr>"
  using contract_always_resolves [OF sample_db_reachable sample_db_get]
  by (simp add: contracts_of_def sample_db_def sample_contract_def)

section \<open>Composition\<close>

text \<open>C28: composition is two levels deep: an outcome that contributes to another has no
  contributors of its own.\<close>

theorem composition_two_levels:
  assumes "db_reachable sha db" "GetOutcome db oid = Some r" "IsContributing r"
  shows "ListContributingOutcomes db oid = []"
proof -
  have ok: "outcomes_ok db" by (rule db_reachable_ok [OF assms(1)])
  from assms(2) obtain x where x: "x \<in> set (db_Outcomes db)" "o_ID x = oid" "r = outcome.truncate x"
    by (rule outcome_row_reads)
  have "o_ParentID x \<noteq> []" using assms(3) x(3) by (auto simp: IsContributing_def)
  have "o_ParentID y \<noteq> oid \<or> oid = []" if y: "y \<in> set (db_Outcomes db)" for y
  proof (rule ccontr)
    assume "\<not> ?thesis"
    then have "o_ParentID y = oid" "o_ParentID y \<noteq> []" by auto
    moreover have "outcome_ok db y" using ok y by (simp add: outcomes_ok_def)
    ultimately obtain p where p: "p \<in> set (db_Outcomes db)" "o_ID p = oid" "o_ParentID p = []"
      by (auto simp: outcome_ok_def)
    have "inj_on o_ID (set (db_Outcomes db))" using ok by (simp add: outcomes_ok_def distinct_map)
    then have "p = x" by (rule inj_onD) (use p x in simp_all)
    then show False using p(3) \<open>o_ParentID x \<noteq> []\<close> by simp
  qed
  then show ?thesis by (auto simp: ListContributingOutcomes_def filter_empty_conv)
qed

theorem composition_two_levels_witness: "ListContributingOutcomes sample_composed_db ''o2'' = []"
proof (rule composition_two_levels [OF sample_composed_reachable])
  show "GetOutcome sample_composed_db ''o2'' = Some sample_child"
    by (simp add: GetOutcome_def outcome_row_by_id_def sample_composed_db_def sample_db_def empty_db_def
        outcome.defs outcome_row.defs sample_outcome_def sample_child_def)
  show "IsContributing sample_child" by code_simp
qed

section \<open>Plans\<close>

definition plan_kept :: "plan_revision \<Rightarrow> plan_revision \<Rightarrow> bool" where
  "plan_kept p p' \<longleftrightarrow> (\<exists>st. p' = p\<lparr>pr_Status := st\<rparr>) \<and> (pr_Status p \<noteq> PlanProposed \<longrightarrow> p' = p)"

lemma plan_kept_refl [simp]: "plan_kept p p"
  unfolding plan_kept_def by (metis plan_revision.update_convs(5) plan_revision.surjective)

lemma plan_kept_trans: "plan_kept p q \<Longrightarrow> plan_kept q r \<Longrightarrow> plan_kept p r"
  by (auto simp: plan_kept_def)

lemma get_plan_map:
  assumes "\<And>p. pr_ID (f p) = pr_ID p \<and> pr_OutcomeID (f p) = pr_OutcomeID p"
  shows "db_Plans db' = map f (db_Plans db) @ new \<Longrightarrow> GetPlanRevision db oid pid = Some p \<Longrightarrow>
    GetPlanRevision db' oid pid = Some (f p)"
proof -
  have "find Q (xs @ ys) = Some x" if "find Q xs = Some x" for Q :: "plan_revision \<Rightarrow> bool" and xs ys x
    using that by (induction xs) auto
  moreover have "find (\<lambda>p. pr_ID p = pid \<and> pr_OutcomeID p = oid) (map f xs) =
      map_option f (find (\<lambda>p. pr_ID p = pid \<and> pr_OutcomeID p = oid) xs)" for xs
    using assms by (induction xs) auto
  ultimately show "db_Plans db' = map f (db_Plans db) @ new \<Longrightarrow> GetPlanRevision db oid pid = Some p \<Longrightarrow>
    GetPlanRevision db' oid pid = Some (f p)"
    by (simp add: GetPlanRevision_def)
qed

lemma db_step_plans:
  assumes "db_step sha db db'" "outcomes_ok db"
  shows "\<exists>f new. db_Plans db' = map f (db_Plans db) @ new \<and> (\<forall>p. plan_kept p (f p))"
proof -
  have same: ?thesis if "db_Plans db' = db_Plans db"
    by (rule exI [of _ id], rule exI [of _ "[]"]) (simp add: that)
  show ?thesis using assms same
  proof (induction rule: db_step.induct)
    case (start db now r first key u db')
    then show ?case by (auto elim!: create_outcome_effect start_outcome_parts)
  next
    case (contribute db now r first links key u db')
    then show ?case
      by (elim contribution_effect start_outcome_parts) (simp add: insert_links_effect)
  next
    case (revise db now oid expected r n db')
    then show ?case using revise_effect [OF revise(1)] by simp
  next
    case (plan db linked oid p q db')
    have "db_Plans db' = map id (db_Plans db) @ [q]" using plan_effect [OF plan(1)] by simp
    then show ?case by (metis id_apply plan_kept_refl)
  next
    case (approve db oid pid r db')
    from approve(1) obtain f where f: "db' = db\<lparr>db_Plans := map f (db_Plans db)\<rparr>"
        "\<And>p. f p = p \<or> (pr_Status p = PlanProposed \<and> f p = p\<lparr>pr_Status := PlanApproved\<rparr>)"
      by (rule approve_effect) blast
    have "plan_kept p (f p)" for p
      using f(2) [of p] by (auto simp: plan_kept_def intro: plan_kept_refl [unfolded plan_kept_def, THEN conjunct1])
    then show ?case using f(1) by (intro exI [of _ f] exI [of _ "[]"]) simp
  next
    case (evidence db e u db')
    then show ?case using evidence_effect [OF evidence(1)] by (simp add: proof_only_def)
  next
    case (verify db v u db')
    then show ?case using verification_effect [OF verify(1)] by (simp add: proof_only_def)
  next
    case (decide db d c u db')
    then show ?case using decision_effect [OF decide(1)] by (simp add: proof_only_def)
  next
    case (decide_batch db ds u db')
    then show ?case using batch_effect [OF decide_batch(1)] by (simp add: proof_only_def)
  next
    case (decompose db x y db')
    then show ?case using decompose_effect [OF decompose(1)] by auto
  next
    case (authorize db now oid did cs at u db')
    then show ?case using authorize_effect [OF authorize(1,3,2)] by simp
  next
    case (waive db w u db')
    then show ?case using waive_effect [OF waive(1)] by auto
  qed simp_all
qed

lemma plans_kept:
  assumes "(db_step sha)\<^sup>*\<^sup>* db db'" "outcomes_ok db" "GetPlanRevision db oid pid = Some p"
  shows "\<exists>q. GetPlanRevision db' oid pid = Some q \<and> plan_kept p q"
  using assms(1)
proof (induction rule: rtranclp_induct)
  case (step db1 db2)
  have ok: "outcomes_ok db1"
    using step(1) assms(2) by (induction rule: rtranclp_induct) (auto dest: db_step_effect)
  obtain q where q: "GetPlanRevision db1 oid pid = Some q" "plan_kept p q" using step.IH by blast
  obtain f new where f: "db_Plans db2 = map f (db_Plans db1) @ new" "\<forall>p. plan_kept p (f p)"
    using db_step_plans [OF step(2) ok] by blast
  have ids: "pr_ID (f p) = pr_ID p \<and> pr_OutcomeID (f p) = pr_OutcomeID p" for p
    using f(2) unfolding plan_kept_def by (metis plan_revision.select_convs(1,2) plan_revision.surjective plan_revision.update_convs(5))
  have "GetPlanRevision db2 oid pid = Some (f q)" by (rule get_plan_map [OF ids f(1) q(1)])
  then show ?case using plan_kept_trans [OF q(2)] f(2) by blast
qed (use assms(3) in auto)

text \<open>C29: an approved plan is final: whatever is committed later, it reads back exactly as it was
  approved.\<close>

theorem approved_plan_is_final:
  assumes "db_reachable sha db" "GetPlanRevision db oid pid = Some p" "pr_Status p = PlanApproved"
    and "(db_step sha)\<^sup>*\<^sup>* db db'"
  shows "GetPlanRevision db' oid pid = Some p"
  using plans_kept [OF assms(4) db_reachable_ok [OF assms(1)] assms(2)] assms(3)
  by (auto simp: plan_kept_def)

theorem approved_plan_is_final_witness:
  "GetPlanRevision (sample_approved_db\<lparr>db_Trash := [''o1'']\<rparr>) ''o1'' ''p1'' = Some sample_approved_plan"
proof (rule approved_plan_is_final [OF sample_approved_reachable])
  show "GetPlanRevision sample_approved_db ''o1'' ''p1'' = Some sample_approved_plan"
    "pr_Status sample_approved_plan = PlanApproved"
    by (simp_all add: GetPlanRevision_def sample_approved_db_def sample_approved_plan_def sample_plan_def)
  show "(db_step (\<lambda>_. []))\<^sup>*\<^sup>* sample_approved_db (sample_approved_db\<lparr>db_Trash := [''o1'']\<rparr>)"
    by (rule r_into_rtranclp) (rule db_step.trash)
qed

section \<open>The proof generation\<close>

lemma grows_steps:
  assumes "(db_step sha)\<^sup>*\<^sup>* db db'" "outcomes_ok db"
  shows "grows db db'"
proof -
  have "outcomes_ok db' \<and> grows db db'" using assms
  proof (induction rule: rtranclp_induct)
    case base
    then show ?case by (simp add: grows_def)
  next
    case (step db1 db2)
    then show ?case using db_step_effect [OF step(2)] grows_trans by blast
  qed
  then show ?thesis by simp
qed

text \<open>C30: the generation token identifies the proof records of an outcome: when it reads the same
  at two points of the history, nothing about its evidence, verifications, decisions or corrections
  was committed in between, so a projection made at the first is the projection at the second.\<close>

theorem generation_identifies_proof:
  assumes "db_reachable sha db" "(db_step sha)\<^sup>*\<^sup>* db db'"
    and "OutcomeProofGeneration db' oid = OutcomeProofGeneration db oid"
  shows "deriveProof view (ListEvidenceItems db' oid) (ListVerificationRuns db' oid)
      (ListAcceptanceDecisions db' oid) (ListOutcomeCorrections db' oid) delegated =
    deriveProof view (ListEvidenceItems db oid) (ListVerificationRuns db oid)
      (ListAcceptanceDecisions db oid) (ListOutcomeCorrections db oid) delegated"
proof -
  obtain es vs ds cs where g: "db_Evidence db' = db_Evidence db @ es"
      "db_Verifications db' = db_Verifications db @ vs" "db_Decisions db' = db_Decisions db @ ds"
      "db_Corrections db' = db_Corrections db @ cs"
    using grows_steps [OF assms(2) db_reachable_ok [OF assms(1)]] by (auto simp: grows_def)
  have "length (filter (\<lambda>e. ev_OutcomeID e = oid) es) = 0 \<and> length (filter (\<lambda>v. vr_OutcomeID v = oid) vs) = 0 \<and>
      length (filter (\<lambda>d. dc_OutcomeID d = oid) ds) = 0 \<and> length (filter (\<lambda>c. co_OutcomeID c = oid) cs) = 0"
    using assms(3) unfolding OutcomeProofGeneration_def g filter_append length_append by linarith
  then have "filter (\<lambda>e. ev_OutcomeID e = oid) es = []" "filter (\<lambda>v. vr_OutcomeID v = oid) vs = []"
      "filter (\<lambda>d. dc_OutcomeID d = oid) ds = []" "filter (\<lambda>c. co_OutcomeID c = oid) cs = []"
    by simp_all
  then show ?thesis
    by (simp add: ListEvidenceItems_def ListVerificationRuns_def ListAcceptanceDecisions_def
        ListOutcomeCorrections_def g)
qed

theorem generation_identifies_proof_witness:
  "deriveProof \<lparr>ov_Outcome = sample_outcome ''o1'' [], ov_Current = sample_contract, ov_History = []\<rparr>
      (ListEvidenceItems sample_approved_db ''o1'') (ListVerificationRuns sample_approved_db ''o1'')
      (ListAcceptanceDecisions sample_approved_db ''o1'') (ListOutcomeCorrections sample_approved_db ''o1'')
      (\<lambda>_. None) =
   deriveProof \<lparr>ov_Outcome = sample_outcome ''o1'' [], ov_Current = sample_contract, ov_History = []\<rparr>
      (ListEvidenceItems sample_db ''o1'') (ListVerificationRuns sample_db ''o1'')
      (ListAcceptanceDecisions sample_db ''o1'') (ListOutcomeCorrections sample_db ''o1'') (\<lambda>_. None)"
proof (rule generation_identifies_proof [OF sample_db_reachable])
  show "(db_step (\<lambda>_. []))\<^sup>*\<^sup>* sample_db sample_approved_db" using sample_db_steps by (meson rtranclp.simps)
  show "OutcomeProofGeneration sample_approved_db ''o1'' = OutcomeProofGeneration sample_db ''o1''"
    by (simp add: OutcomeProofGeneration_def sample_approved_db_def)
qed

section \<open>The control rows\<close>



section \<open>Decompositions\<close>

text \<open>C32: the walk that looks for a cycle in the order between contributions always returns, and
  with every dependency between named contributions it accepts exactly the orders without a cycle.\<close>

theorem ordering_decides_cycles:
  assumes "dp_FromRef ` set ds \<subseteq> pc_Ref ` set cs"
  shows "(\<exists>e. ValidateDependencyOrdering cs ds = Some (Some e)) \<longleftrightarrow>
         (\<exists>ref. (ref, ref) \<in> {(dp_FromRef d, dp_ToRef d) | d. d \<in> set ds}\<^sup>+)"
proof -
  have "{(dp_FromRef d, dp_ToRef d) | d. d \<in> set ds} = dependency_rel ds" by (auto simp: dependency_rel_def)
  moreover obtain r where "ValidateDependencyOrdering cs ds = Some r" using ordering_returns by blast
  ultimately show ?thesis using ordering_accepts [OF assms] by (cases r) (auto simp: acyclic_def)
qed

text \<open>C33: \<^verbatim>\<open>ValidateDependencyOrdering\<close> returns on every input, unknown references
  and self-loops included: the fuel of the model is never exhausted.\<close>

theorem ordering_terminates: "\<exists>r. ValidateDependencyOrdering cs ds = Some r"
  by (rule ordering_returns)

text \<open>C34: an authorized decomposition never deadlocks: while some contributor is not accepted, one
  of the contributors that are not accepted has a clear start gate, whatever was waived.\<close>

theorem decomposition_never_deadlocks:
  assumes "DecompositionRevision_Validate d = Some None" "de_Status d = DecompositionAuthorized"
    and "distinct (map pc_ChildOutcomeID (de_Contributors d))"
    and "\<forall>c\<in>set (de_Contributors d). \<not> blank (pc_ChildOutcomeID c)"
    and "c \<in> set (de_Contributors d)" "\<not> accepted (pc_ChildOutcomeID c)"
  shows "\<exists>c\<in>set (de_Contributors d). \<not> accepted (pc_ChildOutcomeID c) \<and>
    Clear (DeriveContributionStartGate (pc_ChildOutcomeID c) d waivers accepted)"
  using some_gate_clear [OF assms(1-5)] assms(4,6) by (auto simp: finished_def)

definition sample_contribution :: "string \<Rightarrow> ident \<Rightarrow> proposed_contribution" where
  "sample_contribution ref child = \<lparr>pc_Ref = ref, pc_Position = 1, pc_Title = ref, pc_Goal = ref,
     pc_SuccessCriteria = [''s''], pc_Review = ''r'', pc_Constraints = [], pc_NonGoals = [],
     pc_Authority = cr_AuthorityCeiling sample_contract, pc_ClaimedCriteria = [''c1''],
     pc_ChildOutcomeID = child\<rparr>"

definition sample_dependency :: "string \<Rightarrow> string \<Rightarrow> contribution_dependency" where
  "sample_dependency f t = \<lparr>dp_ID = f @ t, dp_FromRef = f, dp_ToRef = t\<rparr>"

definition sample_decomposition :: decomposition_revision where
  "sample_decomposition = \<lparr>de_ID = ''d1'', de_OutcomeID = ''o1'', de_Number = 1,
     de_ContractRevisionID = ''r1'', de_Status = DecompositionAuthorized, de_Rationale = ''why'',
     de_Contributors = [sample_contribution ''b'' ''o3'', sample_contribution ''a'' ''o2''],
     de_RetainedCriteria = [''c2''], de_Dependencies = [sample_dependency ''a'' ''b''],
     de_CreatedAt = 1, de_AuthorizedAt = Some 2\<rparr>"

theorem ordering_decides_cycles_witness:
  "\<exists>e. ValidateDependencyOrdering (de_Contributors sample_decomposition)
     [sample_dependency ''a'' ''b'', sample_dependency ''b'' ''a''] = Some (Some e)"
proof (subst ordering_decides_cycles)
  show "dp_FromRef ` set [sample_dependency ''a'' ''b'', sample_dependency ''b'' ''a''] \<subseteq>
      pc_Ref ` set (de_Contributors sample_decomposition)" by code_simp
  let ?R = "{(dp_FromRef d, dp_ToRef d) | d. d \<in> set [sample_dependency ''a'' ''b'', sample_dependency ''b'' ''a'']}"
  have "(''a'', ''b'') \<in> ?R"
    by (intro CollectI exI [of _ "sample_dependency ''a'' ''b''"]) (simp add: sample_dependency_def)
  moreover have "(''b'', ''a'') \<in> ?R"
    by (intro CollectI exI [of _ "sample_dependency ''b'' ''a''"]) (simp add: sample_dependency_def)
  ultimately show "\<exists>ref. (ref, ref) \<in> ?R\<^sup>+" by (meson trancl.intros)
qed

theorem decomposition_never_deadlocks_witness:
  "\<exists>c\<in>set (de_Contributors sample_decomposition). pc_ChildOutcomeID c \<noteq> ''o9'' \<and>
     Clear (DeriveContributionStartGate (pc_ChildOutcomeID c) sample_decomposition [] (\<lambda>o'. o' = ''o9''))"
proof (rule decomposition_never_deadlocks)
  show "DecompositionRevision_Validate sample_decomposition = Some None" by code_simp
  show "de_Status sample_decomposition = DecompositionAuthorized"
    "sample_contribution ''a'' ''o2'' \<in> set (de_Contributors sample_decomposition)"
    by (simp_all add: sample_decomposition_def)
  show "distinct (map pc_ChildOutcomeID (de_Contributors sample_decomposition))"
    "\<forall>c\<in>set (de_Contributors sample_decomposition). \<not> blank (pc_ChildOutcomeID c)"
    "pc_ChildOutcomeID (sample_contribution ''a'' ''o2'') \<noteq> ''o9''"
    by code_simp+
qed

end
