(* ===== verification/Go_Json_Text.thy ===== *)
theory Go_Json_Text
  imports Go_Json Go_Path
begin

text \<open>
  \<^verbatim>\<open>json.Marshal\<close> of Go's standard library, byte by byte, for the values the services
  write into observations, receipts and failure details: strings with the escapes and the
  replacement of bytes that are no UTF-8, integers, booleans, null, arrays, and objects whose keys
  a Go map sorts. Every text it writes passes \<^verbatim>\<open>json.Valid\<close>.
\<close>

section \<open>Strings\<close>

definition byte_in :: "nat \<Rightarrow> nat \<Rightarrow> char \<Rightarrow> bool" where
  "byte_in lo hi c = (lo \<le> (of_char c :: nat) \<and> (of_char c :: nat) \<le> hi)"

text \<open>What the first byte of a rune that is no ASCII says: how many bytes the rune has (0 for a
  byte that starts none) and the range of the second (\<^verbatim>\<open>unicode/utf8\<close>).\<close>

definition rune_lead :: "char \<Rightarrow> nat \<times> nat \<times> nat" where
  "rune_lead c =
     (if byte_in 0xC2 0xDF c then (2, 0x80, 0xBF)
      else if byte_in 0xE0 0xE0 c then (3, 0xA0, 0xBF) else if byte_in 0xED 0xED c then (3, 0x80, 0x9F)
      else if byte_in 0xE1 0xEF c then (3, 0x80, 0xBF)
      else if byte_in 0xF0 0xF0 c then (4, 0x90, 0xBF) else if byte_in 0xF4 0xF4 c then (4, 0x80, 0x8F)
      else if byte_in 0xF1 0xF3 c then (4, 0x80, 0xBF) else (0, 0x80, 0))"

definition rune_bytes :: "char \<Rightarrow> string \<Rightarrow> nat" where
  "rune_bytes c s =
     (case rune_lead c of (n, lo, hi) \<Rightarrow>
        case take (n - 1) s of
          [] \<Rightarrow> 0
        | b # bs \<Rightarrow> if Suc (Suc (length bs)) = n \<and> byte_in lo hi b \<and> list_all (byte_in 0x80 0xBF) bs
                    then n else 0)"

definition hex_digit :: "nat \<Rightarrow> char" where
  "hex_digit n = char_of (if n < 10 then 48 + n else 87 + n)"

text \<open>An ASCII byte as \<^verbatim>\<open>appendString\<close> writes it, with the escapes for HTML.\<close>

definition json_byte :: "char \<Rightarrow> string" where
  "json_byte c =
     (let n = (of_char c :: nat) in
      if c = CHR 0x22 then [CHR 0x5C, CHR 0x22]
      else if c = CHR 0x5C then [CHR 0x5C, CHR 0x5C]
      else if n = 8 then [CHR 0x5C, CHR ''b''] else if n = 12 then [CHR 0x5C, CHR ''f'']
      else if n = 10 then [CHR 0x5C, CHR ''n''] else if n = 13 then [CHR 0x5C, CHR ''r'']
      else if n = 9 then [CHR 0x5C, CHR ''t'']
      else if n < 32 \<or> c \<in> set [CHR ''<'', CHR ''>'', CHR ''&'']
      then CHR 0x5C # ''u00'' @ [hex_digit (n div 16), hex_digit (n mod 16)]
      else [c])"

text \<open>The two line separators that JavaScript does not allow in a string are escaped.\<close>

definition json_rune :: "string \<Rightarrow> string" where
  "json_rune r =
     (if r = [CHR 0xE2, CHR 0x80, CHR 0xA8] then CHR 0x5C # ''u2028''
      else if r = [CHR 0xE2, CHR 0x80, CHR 0xA9] then CHR 0x5C # ''u2029'' else r)"

function json_text :: "string \<Rightarrow> string" where
  "json_text [] = []"
| "json_text (c # s) =
     (if (of_char c :: nat) < 128 then json_byte c @ json_text s
      else let n = rune_bytes c s in
           if n = 0 then CHR 0x5C # ''ufffd'' @ json_text s
           else json_rune (take n (c # s)) @ json_text (drop n (c # s)))"
  by pat_completeness auto
termination by (relation "measure length") auto

declare json_text.simps(2) [simp del]

section \<open>Values\<close>

datatype json = JStr string | JNum int | JBool bool | JNull | JArr "json list" | JObj "(string \<times> json) list"

definition json_quoted :: "string \<Rightarrow> string" where
  "json_quoted s = CHR 0x22 # json_text s @ [CHR 0x22]"

fun json_marshal :: "json \<Rightarrow> string" where
  "json_marshal (JStr s) = json_quoted s"
| "json_marshal (JNum i) = decimal i"
| "json_marshal (JBool b) = (if b then ''true'' else ''false'')"
| "json_marshal JNull = ''null''"
| "json_marshal (JArr vs) = ''['' @ join_on '','' (map json_marshal vs) @ '']''"
| "json_marshal (JObj kvs) = ''{'' @ join_on '','' (map (\<lambda>(k, v). json_quoted k @ '':'' @ json_marshal v) kvs) @ ''}''"

text \<open>A Go map is written in the order of its keys.\<close>

definition json_map :: "(string \<times> json) list \<Rightarrow> json" where
  "json_map kvs = JObj (sort_key fst kvs)"

text \<open>How deep a value nests.\<close>

fun json_depth :: "json \<Rightarrow> nat" where
  "json_depth (JArr vs) = Suc (foldr max (map json_depth vs) 0)"
| "json_depth (JObj kvs) = Suc (foldr max (map (\<lambda>(k, v). json_depth v) kvs) 0)"
| "json_depth _ = 0"

section \<open>What is written can be read\<close>

definition scan :: "scanner \<Rightarrow> string \<Rightarrow> scanner" where
  "scan = foldl (\<lambda>st c. scan_step c st)"

lemma scan_simps [simp]:
  "scan st [] = st" "scan st (c # s) = scan (scan_step c st) s" "scan st (s @ t) = scan (scan st s) t"
  by (simp_all add: scan_def)

lemma in_string_byte:
  assumes "c \<noteq> CHR 0x22" "c \<noteq> CHR 0x5C" "32 \<le> (of_char c :: nat)"
  shows "scan_step c (InString, ps) = (InString, ps)"
  using assms by simp

lemma hex_digit_hex: "n < 16 \<Longrightarrow> is_hex (hex_digit n)"
  by (auto simp: is_hex_def hex_digit_def Let_def)

lemma scan_json_byte:
  assumes "(of_char c :: nat) < 128" shows "scan (InString, ps) (json_byte c) = (InString, ps)"
proof -
  have "of_char c div 16 < (16 :: nat)" "of_char c mod 16 < (16 :: nat)" using assms by simp_all
  note hex = this [THEN hex_digit_hex]
  have zero: "is_hex (CHR ''0'')" by (simp add: is_hex_def Let_def)
  show ?thesis using hex zero by (simp add: json_byte_def Let_def)
qed

lemma rune_bytes_high:
  assumes "128 \<le> (of_char c :: nat)"
  shows "\<forall>d\<in>set (take (rune_bytes c s) (c # s)). 128 \<le> (of_char d :: nat)"
proof -
  obtain n lo hi where lead: "rune_lead c = (n, lo, hi)" by (metis prod_cases3)
  then have lo: "128 \<le> lo" by (auto simp: rune_lead_def split: if_splits)
  show ?thesis
  proof (cases "rune_bytes c s = 0")
    case False
    then obtain b bs where bs: "take (n - 1) s = b # bs" "rune_bytes c s = n" "byte_in lo hi b"
        "list_all (byte_in 0x80 0xBF) bs" "Suc (Suc (length bs)) = n"
      by (auto simp: rune_bytes_def lead split: list.splits if_splits)
    then have "take n (c # s) = c # b # bs" by (cases n) auto
    then show ?thesis using assms lo bs by (auto simp: byte_in_def list_all_iff)
  qed simp
qed

lemma scan_high: "\<forall>c\<in>set s. 128 \<le> (of_char c :: nat) \<Longrightarrow> scan (InString, ps) s = (InString, ps)"
proof (induction s)
  case (Cons c s)
  then have "128 \<le> (of_char c :: nat)" by simp
  then have "c \<noteq> CHR 0x22" "c \<noteq> CHR 0x5C" "32 \<le> (of_char c :: nat)" by auto
  then have "scan_step c (InString, ps) = (InString, ps)" by (rule in_string_byte)
  with Cons show ?case by simp
qed simp

lemma scan_json_rune:
  assumes "\<forall>c\<in>set r. 128 \<le> (of_char c :: nat)" shows "scan (InString, ps) (json_rune r) = (InString, ps)"
proof -
  have "is_hex (CHR ''0'') \<and> is_hex (CHR ''2'') \<and> is_hex (CHR ''8'') \<and> is_hex (CHR ''9'')"
    by (simp add: is_hex_def Let_def)
  then show ?thesis using scan_high [OF assms] by (simp add: json_rune_def)
qed

lemma scan_json_text: "scan (InString, ps) (json_text s) = (InString, ps)"
proof (induction s rule: json_text.induct)
  case (2 c s)
  let ?n = "rune_bytes c s"
  have hex: "is_hex (CHR ''f'') \<and> is_hex (CHR ''d'')" by (simp add: is_hex_def Let_def)
  consider "(of_char c :: nat) < 128" | "\<not> (of_char c :: nat) < 128" "?n = 0" | "\<not> (of_char c :: nat) < 128" "?n \<noteq> 0"
    by blast
  then show ?case
  proof cases
    case 1
    then show ?thesis using 2(1) by (simp add: json_text.simps(2) scan_json_byte)
  next
    case 2
    then show ?thesis using "2.IH"(2) hex by (simp add: json_text.simps(2))
  next
    case 3
    have "scan (InString, ps) (json_rune (take ?n (c # s))) = (InString, ps)"
      using rune_bytes_high [of c s] 3(1) by (intro scan_json_rune) simp
    then show ?thesis using "2.IH"(3) 3 by (simp add: json_text.simps(2) Let_def)
  qed
qed simp

lemma scan_quoted: "scan (InString, ps) (json_text s @ [CHR 0x22]) = (EndValue, ps)"
  by (simp add: scan_json_text)

text \<open>A number, whose end the scanner only sees at the byte that follows it.\<close>

definition delimiter :: "char \<Rightarrow> bool" where
  "delimiter c = (c \<in> set [CHR '','', CHR ''}'', CHR '']'', CHR 0x20])"

lemma delimiter_ends:
  assumes "delimiter c" shows "after_integer c ps = end_value c ps" "\<not> is_digit c"
  using assms by (auto simp: delimiter_def after_integer_def is_digit_def)

lemma digit_char: "k < 10 \<Longrightarrow> is_digit (char_of (48 + k :: nat))"
  by (simp add: is_digit_def)

lemma decimal_digits_scan: "scan (Digits, ps) (decimal_nat n) = (Digits, ps)"
proof (induction n rule: decimal_nat.induct)
  case (1 n)
  then show ?case
    by (subst decimal_nat.simps) (simp add: digit_char)
qed

lemma decimal_head:
  "0 < n \<Longrightarrow> \<exists>d ds. decimal_nat n = d # ds \<and> is_digit d \<and> d \<noteq> CHR ''0'' \<and> (\<forall>x\<in>set ds. is_digit x)"
proof (induction n rule: decimal_nat.induct)
  case (1 n)
  show ?case
  proof (cases "n < 10")
    case True
    have "char_of (48 + n) \<noteq> CHR ''0''"
    proof
      assume "char_of (48 + n) = CHR ''0''"
      then have "(of_char (char_of (48 + n) :: char) :: nat) = of_char (CHR ''0'')" by simp
      then show False using True 1(2) by simp
    qed
    then show ?thesis using True by (subst decimal_nat.simps) (simp add: digit_char)
  next
    case False
    then obtain d ds where d: "decimal_nat (n div 10) = d # ds" "is_digit d" "d \<noteq> CHR ''0''"
        "\<forall>x\<in>set ds. is_digit x"
      using 1 by fastforce
    then show ?thesis using False by (subst decimal_nat.simps) (simp add: digit_char)
  qed
qed

lemma scan_digits: "\<forall>x\<in>set ds. is_digit x \<Longrightarrow> scan (Digits, ps) ds = (Digits, ps)"
  by (induction ds) auto

lemma digit_begins:
  assumes "is_digit d" "d \<noteq> CHR ''0''"
  shows "scan_step d (BeginValue, ps) = (Digits, ps)" "scan_step d (Neg, ps) = (Digits, ps)"
proof -
  have "\<not> json_space d" "d \<noteq> CHR ''{''" "d \<noteq> CHR ''[''" "d \<noteq> CHR 0x22" "d \<noteq> CHR ''-''" "d \<noteq> CHR ''t''"
      "d \<noteq> CHR ''f''" "d \<noteq> CHR ''n''"
    using assms(1) by (auto simp: is_digit_def json_space_def)
  then show "scan_step d (BeginValue, ps) = (Digits, ps)" "scan_step d (Neg, ps) = (Digits, ps)"
    using assms by (simp_all add: begin_value_def)
qed

lemma scan_decimal:
  assumes "delimiter c" shows "scan_step c (scan (BeginValue, ps) (decimal i)) = end_value c ps"
proof (cases "i = 0")
  case True
  have "decimal 0 = ''0''" by code_simp
  then show ?thesis using delimiter_ends [OF assms] True by (simp add: begin_value_def json_space_def)
next
  case False
  then have "0 < nat \<bar>i\<bar>" by simp
  from decimal_head [OF this] obtain d ds where d: "decimal_nat (nat \<bar>i\<bar>) = d # ds" "is_digit d"
      "d \<noteq> CHR ''0''" "\<forall>x\<in>set ds. is_digit x" by blast
  have "scan (BeginValue, ps) (decimal i) = (Digits, ps)"
    using d scan_digits digit_begins [OF d(2,3)]
    by (cases "i < 0") (simp_all add: decimal_def begin_value_def json_space_def)
  then show ?thesis using delimiter_ends [OF assms] by simp
qed

text \<open>A value is complete at the delimiter that follows it.\<close>

definition scans :: "parse_state list \<Rightarrow> string \<Rightarrow> bool" where
  "scans ps s \<longleftrightarrow> (\<forall>c. delimiter c \<longrightarrow> scan_step c (scan (BeginValue, ps) s) = end_value c ps)"

lemma scansD: "scans ps s \<Longrightarrow> delimiter c \<Longrightarrow> scan_step c (scan (BeginValue, ps) s) = end_value c ps"
  by (simp add: scans_def)

lemma pop_step: "scan_step c (scan_pop ps) = end_value c ps"
  by (simp add: scan_pop_def end_value_def)

lemma scan_array:
  assumes "vs \<noteq> []" "\<forall>v\<in>set vs. scans (ParseArrayValue # ps) v"
  shows "scan (BeginValue, ParseArrayValue # ps) (join_on '','' vs @ '']'') = scan_pop ps"
  using assms
proof (induction vs rule: list_nonempty_induct)
  case (single v)
  then have "scan_step (CHR '']'') (scan (BeginValue, ParseArrayValue # ps) v) = end_value (CHR '']'') (ParseArrayValue # ps)"
    by (intro scansD) (simp_all add: delimiter_def)
  then show ?case by (simp add: end_value_def json_space_def)
next
  case (cons v vs)
  then have "scan_step (CHR '','') (scan (BeginValue, ParseArrayValue # ps) v) = end_value (CHR '','') (ParseArrayValue # ps)"
    by (intro scansD) (simp_all add: delimiter_def)
  then have "scan (BeginValue, ParseArrayValue # ps) (v @ '','' ) = (BeginValue, ParseArrayValue # ps)"
    by (simp add: end_value_def json_space_def)
  with cons show ?case by (cases vs) simp_all
qed

lemma scan_member:
  assumes "scans (ParseObjectValue # ps) v" "delimiter c"
  shows "scan_step c (scan (BeginString, ParseObjectKey # ps) (json_quoted k @ '':'' @ v)) =
         end_value c (ParseObjectValue # ps)"
proof -
  have "scan (BeginString, ParseObjectKey # ps) (json_quoted k @ '':'') = (BeginValue, ParseObjectValue # ps)"
    using scan_quoted [of "ParseObjectKey # ps" k]
    by (simp add: json_quoted_def begin_string_def json_space_def end_value_def)
  then show ?thesis using scansD [OF assms] by simp
qed

lemma scan_object:
  assumes "kvs \<noteq> []" "\<forall>(k, v)\<in>set kvs. scans (ParseObjectValue # ps) v"
  shows "scan (BeginString, ParseObjectKey # ps)
           (join_on '','' (map (\<lambda>(k, v). json_quoted k @ '':'' @ v) kvs) @ ''}'') = scan_pop ps"
  using assms
proof (induction kvs rule: list_nonempty_induct)
  case (single kv)
  obtain k v where kv: "kv = (k, v)" by (cases kv)
  have "scan_step (CHR ''}'') (scan (BeginString, ParseObjectKey # ps) (json_quoted k @ '':'' @ v)) =
        end_value (CHR ''}'') (ParseObjectValue # ps)"
    using single kv by (intro scan_member) (simp_all add: delimiter_def)
  then show ?case by (simp add: kv end_value_def json_space_def)
next
  case (cons kv kvs)
  obtain k v where kv: "kv = (k, v)" by (cases kv)
  have "scan_step (CHR '','') (scan (BeginString, ParseObjectKey # ps) (json_quoted k @ '':'' @ v)) =
        end_value (CHR '','') (ParseObjectValue # ps)"
    using cons kv by (intro scan_member) (simp_all add: delimiter_def)
  then have "scan (BeginString, ParseObjectKey # ps) ((json_quoted k @ '':'' @ v) @ '','') =
      (BeginString, ParseObjectKey # ps)"
    by (simp add: end_value_def json_space_def)
  with cons show ?case by (cases kvs) (simp_all add: kv)
qed

lemma foldr_max_ge: "x \<in> set xs \<Longrightarrow> (x :: nat) \<le> foldr max xs 0"
  by (induction xs) auto

lemma marshal_head: "\<exists>h t. json_marshal v = h # t \<and> \<not> json_space h \<and> h \<noteq> CHR '']''"
proof (cases v)
  case (JNum i)
  show ?thesis
  proof (cases "i = 0")
    case True
    have "decimal 0 = ''0''" by code_simp
    then show ?thesis by (simp add: JNum True json_space_def)
  next
    case False
    then have "0 < nat \<bar>i\<bar>" by simp
    from decimal_head [OF this] show ?thesis
      by (cases "i < 0") (auto simp: JNum decimal_def json_space_def is_digit_def)
  qed
qed (simp_all add: json_quoted_def json_space_def)

lemma join_marshal_head:
  assumes "vs \<noteq> []" shows "scan (BeginValueOrEmpty, ps) (join_on '','' (map json_marshal vs) @ t) =
    scan (BeginValue, ps) (join_on '','' (map json_marshal vs) @ t)"
proof -
  obtain v ws where vs: "vs = v # ws" using assms by (cases vs) auto
  obtain h u where h: "json_marshal v = h # u" "\<not> json_space h" "h \<noteq> CHR '']''" using marshal_head by blast
  obtain r where "join_on '','' (map json_marshal vs) = h # r" using h(1) by (cases ws) (auto simp: vs)
  then show ?thesis using h by simp
qed

lemma json_marshal_scans: "length ps + json_depth v \<le> 10000 \<Longrightarrow> scans ps (json_marshal v)"
proof (induction v arbitrary: ps)
  case (JStr s)
  show ?case using scan_quoted [of ps s]
    by (simp add: scans_def json_quoted_def begin_value_def json_space_def)
next
  case (JNum i)
  show ?case by (simp add: scans_def scan_decimal)
next
  case (JBool b)
  show ?case by (simp add: scans_def begin_value_def json_space_def)
next
  case JNull
  show ?case by (simp add: scans_def begin_value_def json_space_def)
next
  case (JArr vs)
  have "scan (BeginValueOrEmpty, ParseArrayValue # ps) (join_on '','' (map json_marshal vs) @ '']'') = scan_pop ps"
  proof (cases "vs = []")
    case True
    then show ?thesis by (simp add: end_value_def json_space_def)
  next
    case False
    have "scans (ParseArrayValue # ps) (json_marshal v)" if v: "v \<in> set vs" for v
      using JArr.IH [OF v] JArr.prems foldr_max_ge [of "json_depth v" "map json_depth vs"] v by simp
    then show ?thesis
      unfolding join_marshal_head [OF False] using False by (intro scan_array) auto
  qed
  moreover have "scan_push ParseArrayValue BeginValueOrEmpty ps = (BeginValueOrEmpty, ParseArrayValue # ps)"
    using JArr.prems by (simp add: scan_push_def)
  ultimately show ?case by (simp add: scans_def begin_value_def json_space_def pop_step)
next
  case (JObj kvs)
  let ?body = "join_on '','' (map (\<lambda>(k, v). json_quoted k @ '':'' @ json_marshal v) kvs) @ ''}''"
  have "scan (BeginStringOrEmpty, ParseObjectKey # ps) ?body = scan_pop ps"
  proof (cases "kvs = []")
    case True
    then show ?thesis by (simp add: end_value_def json_space_def)
  next
    case False
    have "scans (ParseObjectValue # ps) (json_marshal v)" if kv: "(k, v) \<in> set kvs" for k v
    proof -
      have "json_depth v \<in> set (map (\<lambda>(k, v). json_depth v) kvs)" using kv by force
      then show ?thesis using JObj.IH [OF kv, of v] JObj.prems foldr_max_ge by fastforce
    qed
    then have "\<forall>kv\<in>set kvs. scans (ParseObjectValue # ps) (json_marshal (snd kv))" by auto
    then have "scan (BeginString, ParseObjectKey # ps) ?body = scan_pop ps"
      using scan_object [of "map (\<lambda>(k, v). (k, json_marshal v)) kvs" ps] False
      by (simp add: o_def case_prod_unfold)
    moreover obtain t where t: "?body = CHR 0x22 # t"
      using False by (cases kvs; cases "tl kvs") (auto simp: json_quoted_def)
    ultimately show ?thesis unfolding t by (simp add: begin_string_def json_space_def)
  qed
  moreover have "scan_push ParseObjectKey BeginStringOrEmpty ps = (BeginStringOrEmpty, ParseObjectKey # ps)"
    using JObj.prems by (simp add: scan_push_def)
  ultimately show ?case by (simp add: scans_def begin_value_def json_space_def pop_step)
qed

theorem json_marshal_valid: "json_depth v \<le> 10000 \<Longrightarrow> json_valid (json_marshal v)"
  using scansD [OF json_marshal_scans [of "[]" v], of "CHR 0x20"]
  by (simp add: json_valid_def flip: scan_def) (simp add: delimiter_def end_value_def json_space_def)

end
