(* ===== verification/Service.thy ===== *)
theory Service
  imports Outcome_Steps Go_Json_Text
begin

text \<open>
  How the commands of internal/service/outcome run over the outcome database: an action reads the
  database, draws identifiers and clock readings, commits transactions one after the other and
  returns a result or an error. What an earlier transaction of a command has committed stays when
  a later one is refused. The model is the fully wired service: every optional port is present.
  The locale \<^verbatim>\<open>service_law\<close> proves, once for every command, that it keeps a law
  which each of its transactions keeps.
\<close>

section \<open>The world around the service\<close>

text \<open>A session row as far as attempts read it (domain/session.go).\<close>

record session_record =
  ss_ActivityState :: activity_state
  ss_FirstSignalAt :: instant
  ss_LastActivityAt :: instant
  ss_IsTerminated :: bool
  ss_ExitCode :: "int option"
  ss_ExitReason :: string

definition SupervisedExitSucceeded :: "int option \<Rightarrow> string \<Rightarrow> bool" where
  "SupervisedExitSucceeded code reason = (code = Some 0 \<and> reason = ''exited'')"

text \<open>Trusted evidence that an approved check may still be running
  (ports/governed_check_uncertainty.go).\<close>

record check_uncertainty =
  gu_SessionID :: ident
  gu_CheckID :: ident
  gu_TerminationUnknown :: bool
  gu_TimedOut :: bool
  gu_Cancelled :: bool
  gu_EnforcedBy :: string
  gu_ObservedAt :: instant

record stop_result =
  sp_ProviderStopped :: bool
  sp_WorkspaceFreed :: bool

text \<open>What the service is given: identifiers and clock readings by the number of earlier draws,
  the session table, the uncertainty markers, the runtime that terminates a session, the
  completion boundary that \<^verbatim>\<open>json.Unmarshal\<close> reads out of an admission snapshot,
  the JSON text of an instant, the text of an error, and SHA-256 in hexadecimal.\<close>

record world =
  wo_ID :: "nat \<Rightarrow> string"
  wo_Clock :: "nat \<Rightarrow> instant"
  wo_Wall :: instant
  wo_StaleHeartbeat :: int
  wo_Session :: "ident \<Rightarrow> error + session_record option"
  wo_Uncertainty :: "ident \<Rightarrow> error + check_uncertainty option"
  wo_Terminate :: "ident \<Rightarrow> ident \<Rightarrow> error + stop_result"
  wo_Boundary :: "string \<Rightarrow> error + string"
  wo_Stamp :: "instant \<Rightarrow> string"
  wo_Text :: "error \<Rightarrow> string"
  wo_Sha :: "string \<Rightarrow> string"

section \<open>Actions\<close>

record service_state =
  sv_DB :: outcome_db
  sv_Draws :: nat

type_synonym 'r action = "service_state \<Rightarrow> 'r \<times> service_state"

definition give :: "'r \<Rightarrow> 'r action" where
  "give r s = (r, s)"

definition next_do :: "'a action \<Rightarrow> ('a \<Rightarrow> 'b action) \<Rightarrow> 'b action" where
  "next_do m f s = (case m s of (r, s') \<Rightarrow> f r s')"

text \<open>The early return on an error.\<close>

definition try_do :: "('e + 'a) action \<Rightarrow> ('a \<Rightarrow> ('e + 'b) action) \<Rightarrow> ('e + 'b) action" where
  "try_do m f = next_do m (\<lambda>r. case r of Inl e \<Rightarrow> give (Inl e) | Inr x \<Rightarrow> f x)"

definition reading :: "(outcome_db \<Rightarrow> 'r) \<Rightarrow> 'r action" where
  "reading f s = (f (sv_DB s), s)"

definition clock :: "world \<Rightarrow> instant action" where
  "clock w s = (wo_Clock w (sv_Draws s), s\<lparr>sv_Draws := sv_Draws s + 1\<rparr>)"

definition fresh :: "world \<Rightarrow> string action" where
  "fresh w s = (wo_ID w (sv_Draws s), s\<lparr>sv_Draws := sv_Draws s + 1\<rparr>)"

text \<open>One transaction of the outcome records, and one of the control rows.\<close>

definition commit :: "(outcome_db \<Rightarrow> 'r db_transaction) \<Rightarrow> (db_error + 'r) action" where
  "commit t s = (case t (sv_DB s) of
     Inl e \<Rightarrow> (Inl e, s) | Inr (r, db) \<Rightarrow> (Inr r, s\<lparr>sv_DB := db\<rparr>))"

definition control_commit :: "(control_store \<Rightarrow> 'r transaction) \<Rightarrow> (store_error + 'r) action" where
  "control_commit t s = (case t (control_view (sv_DB s)) of
     Inl e \<Rightarrow> (Inl e, s)
   | Inr (r, c) \<Rightarrow> (Inr r, s\<lparr>sv_DB := (sv_DB s)\<lparr>db_Control := c\<rparr>\<rparr>))"

text \<open>An error of a port that the service passes on as it is.\<close>

fun store_error_text :: "store_error \<Rightarrow> error" where
  "store_error_text (StoreFailure e) = e"
| "store_error_text (RunIntentReplayConflict i) = Errorf ''run intent request key %q'' [Str (ri_RequestKey i)]"
| "store_error_text (RunIntentGenerationConflict oid e g f) = Errorf ''run intent of %s moved'' [Str oid, Num e, Num g]"
| "store_error_text (AttemptRunIntentConflict oid e g d f) = Errorf ''run intent of %s changed'' [Str oid, Num e, Num g]"
| "store_error_text (AttemptReplay a) = Errorf ''attempt %s replayed'' [Str (a_ID a)]"
| "store_error_text (AttemptReplayConflict a) = Errorf ''attempt %s has another request'' [Str (a_ID a)]"
| "store_error_text (AttemptFenceHeld t h oid) = Errorf ''fence %s is held'' [Str t, Str h, Str oid]"
| "store_error_text AttemptReceiptFrozen = Errorf ''attempt receipt is frozen'' []"
| "store_error_text AttemptReceiptMissing = Errorf ''attempt receipt is missing'' []"
| "store_error_text AttemptReceiptNotReady = Errorf ''attempt receipt is not ready'' []"
| "store_error_text AttemptClassificationStale = Errorf ''attempt classification is stale'' []"

fun db_error_text :: "db_error \<Rightarrow> error" where
  "db_error_text (DbFailure e) = e"
| "db_error_text (OutcomeConflictError oid e c) = Errorf ''outcome %s moved'' [Str oid, Num e, Num c]"
| "db_error_text (PlanningFinalizeConflict sid) = Errorf ''planning session %s'' [Str sid]"
| "db_error_text (DecompositionNotProposed did) = Errorf ''decomposition %s'' [Str did]"

definition passing :: "('e \<Rightarrow> api_error) \<Rightarrow> ('e + 'r) action \<Rightarrow> (api_error + 'r) action" where
  "passing text m = next_do m (\<lambda>r. give (case r of Inl e \<Rightarrow> Inl (text e) | Inr x \<Rightarrow> Inr x))"

abbreviation control :: "(control_store \<Rightarrow> 'r transaction) \<Rightarrow> (api_error + 'r) action" where
  "control t \<equiv> passing (\<lambda>e. Failure (store_error_text e)) (control_commit t)"

fun each_do :: "('a \<Rightarrow> unit action) \<Rightarrow> 'a list \<Rightarrow> unit action" where
  "each_do f [] = give ()"
| "each_do f (x # xs) = next_do (f x) (\<lambda>_. each_do f xs)"

definition payload :: "(string \<times> json) list \<Rightarrow> string" where
  "payload kvs = json_marshal (json_map kvs)"

lemmas action_defs = give_def next_do_def try_do_def reading_def clock_def fresh_def commit_def
  control_commit_def passing_def

section \<open>Laws of commands\<close>

text \<open>A law between the database before and after a command that holds of nothing happening and
  of one thing after another.\<close>

locale service_law =
  fixes law :: "outcome_db \<Rightarrow> outcome_db \<Rightarrow> bool"
  assumes idle: "law db db" and chain: "law a b \<Longrightarrow> law b c \<Longrightarrow> law a c"
begin

definition keeps :: "'r action \<Rightarrow> bool" where
  "keeps m \<longleftrightarrow> (\<forall>s. law (sv_DB s) (sv_DB (snd (m s))))"

lemma keepsD: "keeps m \<Longrightarrow> m s = (r, s') \<Longrightarrow> law (sv_DB s) (sv_DB s')"
  unfolding keeps_def by (metis snd_conv)

lemma keeps_give [simp]: "keeps (give r)"
  by (simp add: keeps_def give_def idle)

lemma keeps_reading [simp]: "keeps (reading f)"
  by (simp add: keeps_def reading_def idle)

lemma keeps_clock [simp]: "keeps (clock w)" "keeps (fresh w)"
  by (simp_all add: keeps_def clock_def fresh_def idle)

lemma keeps_next:
  assumes "keeps m" "\<And>r. keeps (f r)" shows "keeps (next_do m f)"
  unfolding keeps_def
proof
  fix s
  obtain r t where m: "m s = (r, t)" by (cases "m s")
  then have "law (sv_DB s) (sv_DB t)" using assms(1) by (rule keepsD [rotated])
  moreover have "law (sv_DB t) (sv_DB (snd (f r t)))" using assms(2) by (simp add: keeps_def)
  ultimately show "law (sv_DB s) (sv_DB (snd (next_do m f s)))"
    by (simp add: next_do_def m chain)
qed

lemma keeps_try: "keeps m \<Longrightarrow> (\<And>x. keeps (f x)) \<Longrightarrow> keeps (try_do m f)"
  unfolding try_do_def by (rule keeps_next) (auto split: sum.split)

lemma keeps_passing: "keeps m \<Longrightarrow> keeps (passing g m)"
  unfolding passing_def by (rule keeps_next) simp_all

lemma keeps_each: "(\<And>x. x \<in> set xs \<Longrightarrow> keeps (f x)) \<Longrightarrow> keeps (each_do f xs)"
  by (induction xs) (simp_all add: keeps_next)

lemma keeps_commit:
  "(\<And>db r db'. t db = Inr (r, db') \<Longrightarrow> law db db') \<Longrightarrow> keeps (commit t)"
  by (auto simp: keeps_def commit_def idle split: sum.split)

lemma keeps_control:
  "(\<And>db r c. t (control_view db) = Inr (r, c) \<Longrightarrow> law db (db\<lparr>db_Control := c\<rparr>)) \<Longrightarrow> keeps (control_commit t)"
  by (auto simp: keeps_def control_commit_def idle split: sum.split)

lemmas keeps_rules = keeps_give keeps_reading keeps_clock keeps_next keeps_try keeps_passing keeps_each

end

text \<open>The laws of commands that write control rows only.\<close>

locale control_law = service_law +
  fixes sha :: "string \<Rightarrow> string"
  assumes control: "store_step sha (control_view db) c \<Longrightarrow> law db (db\<lparr>db_Control := c\<rparr>)"
begin

lemma keeps_step:
  "(\<And>s r c. t s = Inr (r, c) \<Longrightarrow> store_step sha s c) \<Longrightarrow> keeps (control_commit t)"
  by (rule keeps_control) (auto intro: control)

end

text \<open>The first law: whatever a command did, it committed transactions, so that the invariants of
  reachable databases survive every command, finished or refused.\<close>

interpretation commits: control_law "(db_step sha)\<^sup>*\<^sup>*" sha for sha
  by unfold_locales (auto intro: db_step.control)

lemma commits_reachable:
  "commits.keeps sha m \<Longrightarrow> m s = (r, s') \<Longrightarrow> db_reachable sha (sv_DB s) \<Longrightarrow> db_reachable sha (sv_DB s')"
proof -
  assume "commits.keeps sha m" "m s = (r, s')"
  then have "(db_step sha)\<^sup>*\<^sup>* (sv_DB s) (sv_DB s')" by (rule commits.keepsD)
  then show "db_reachable sha (sv_DB s) \<Longrightarrow> db_reachable sha (sv_DB s')"
    by (induction rule: rtranclp_induct) (auto intro: db_reachable.committed)
qed

text \<open>Contracts, plans and proof are outside the reach of the control rows.\<close>

definition untouched :: "outcome_db \<Rightarrow> outcome_db \<Rightarrow> bool" where
  "untouched db db' \<longleftrightarrow> same_outcomes db db' \<and> same_proof db db' \<and> db_Plans db' = db_Plans db \<and> db_Spaces db' = db_Spaces db"

interpretation outside: control_law untouched sha for sha
  by unfold_locales (auto simp: untouched_def same_defs)

text \<open>Another law: an attempt is left alone. Its row and its custody stay as they are.\<close>

definition holds_custody :: "outcome_db \<Rightarrow> ident \<Rightarrow> bool" where
  "holds_custody db aid = list_ex (\<lambda>f. af_AttemptID f = aid \<and> \<not> fr_Released f) (st_Fences (db_Control db))"

definition attempt_rows :: "outcome_db \<Rightarrow> ident \<Rightarrow> attempt list" where
  "attempt_rows db aid = filter (\<lambda>a. a_ID a = aid) (st_Attempts (db_Control db))"

definition left_alone :: "ident \<Rightarrow> outcome_db \<Rightarrow> outcome_db \<Rightarrow> bool" where
  "left_alone aid db db' \<longleftrightarrow>
     holds_custody db' aid = holds_custody db aid \<and> attempt_rows db' aid = attempt_rows db aid"

interpretation alone: service_law "left_alone aid" for aid
  by unfold_locales (auto simp: left_alone_def)

text \<open>And who holds custody.\<close>

definition custody_kept :: "ident \<Rightarrow> outcome_db \<Rightarrow> outcome_db \<Rightarrow> bool" where
  "custody_kept aid db db' \<longleftrightarrow> holds_custody db' aid = holds_custody db aid"

interpretation kept: service_law "custody_kept aid" for aid
  by unfold_locales (auto simp: custody_kept_def)

text \<open>Where a result came from.\<close>

lemma next_do_split:
  assumes "next_do m f s = (r, s')"
  obtains x t where "m s = (x, t)" "f x t = (r, s')"
  using assms by (cases "m s") (auto simp: next_do_def)

lemma try_do_split:
  assumes "try_do m f s = (r, s')"
  obtains (refused) e where "m s = (Inl e, s')" "r = Inl e"
  | (passed) x t where "m s = (Inr x, t)" "f x t = (r, s')"
proof -
  obtain y t where "m s = (y, t)" "(case y of Inl e \<Rightarrow> give (Inl e) | Inr x \<Rightarrow> f x) t = (r, s')"
    using assms unfolding try_do_def by (rule next_do_split)
  then show thesis using that by (cases y) (auto simp: give_def)
qed

lemma give_split [simp]: "give r s = (r', s') \<longleftrightarrow> r' = r \<and> s' = s"
  by (auto simp: give_def)

lemma reading_split [simp]: "reading f s = (r, s') \<longleftrightarrow> f (sv_DB s) = r \<and> s' = s"
  by (auto simp: reading_def)

end
