(* ===== verification/Attempt_Service.thy ===== *)
theory Attempt_Service
  imports Service
begin

text \<open>
  The commands on one attempt (internal/service/outcome/attempt.go): its projection, the owner's
  cancellation, observations of providers, and how an admission that did not reach a running
  provider is recorded, as known failure or as unresolved.
\<close>

section \<open>Reads\<close>

definition ListAttemptSessionRefs :: "control_store \<Rightarrow> ident \<Rightarrow> session_ref list" where
  "ListAttemptSessionRefs s aid = sort_key sr_Seq (filter (\<lambda>r. sr_AttemptID r = aid) (st_Sessions s))"

definition ListAttemptObservations :: "control_store \<Rightarrow> ident \<Rightarrow> observation list" where
  "ListAttemptObservations s aid = sort_key ob_Seq (filter (\<lambda>x. ob_AttemptID x = aid) (st_Observations s))"

definition ListRecoveryReceipts :: "control_store \<Rightarrow> ident \<Rightarrow> recovery_receipt list" where
  "ListRecoveryReceipts s aid = sort_key (\<lambda>r. (rv_CreatedAt r, rv_ID r))
     (filter (\<lambda>r. rv_AttemptID r = aid) (st_Recoveries s))"

definition ListAttemptsByStatus :: "control_store \<Rightarrow> attempt_status \<Rightarrow> attempt list" where
  "ListAttemptsByStatus s st = sort_key (\<lambda>a. (a_OutcomeID a, a_Number a))
     (filter (\<lambda>a. a_Status a = st) (st_Attempts s))"

text \<open>What is known of the session an attempt is bound to.\<close>

record attempt_facts =
  fa_SessionID :: ident
  fa_Facts :: heartbeat_facts
  fa_CompletionBoundary :: string
  fa_ExitCode :: "int option"
  fa_ExitReason :: string

definition no_facts :: attempt_facts where
  "no_facts = \<lparr>fa_SessionID = [], fa_Facts = \<lparr>hf_Present = False, hf_ActivityState = ActivityOther [],
     hf_FirstSignalAt = zero_time, hf_LastActivityAt = zero_time, hf_IsTerminated = False\<rparr>,
     fa_CompletionBoundary = [], fa_ExitCode = None, fa_ExitReason = []\<rparr>"

definition session_facts :: "session_record \<Rightarrow> heartbeat_facts" where
  "session_facts r = \<lparr>hf_Present = True, hf_ActivityState = ss_ActivityState r,
     hf_FirstSignalAt = ss_FirstSignalAt r, hf_LastActivityAt = ss_LastActivityAt r,
     hf_IsTerminated = ss_IsTerminated r\<rparr>"

definition heartbeatFacts :: "world \<Rightarrow> ident \<Rightarrow> outcome_db \<Rightarrow> api_error + attempt_facts" where
  "heartbeatFacts w aid db =
     (case LatestAttemptSessionRef (db_Control db) aid of
        None \<Rightarrow> Inr no_facts
      | Some ref \<Rightarrow>
          (case wo_Session w (sr_SessionID ref) of
             Inl e \<Rightarrow> Inl (Failure e)
           | Inr None \<Rightarrow> Inr (no_facts\<lparr>fa_SessionID := sr_SessionID ref\<rparr>)
           | Inr (Some r) \<Rightarrow>
               (case wo_Boundary w (sr_AdmissionSnapshot ref) of
                  Inl e \<Rightarrow> Inl (Failure (Wrapf ''parse governed admission snapshot: %w'' [] e))
                | Inr b \<Rightarrow> Inr \<lparr>fa_SessionID = sr_SessionID ref, fa_Facts = session_facts r,
                    fa_CompletionBoundary = b, fa_ExitCode = ss_ExitCode r, fa_ExitReason = ss_ExitReason r\<rparr>)))"

definition alive :: "world \<Rightarrow> attempt_facts \<Rightarrow> bool" where
  "alive w f =
     (hf_Present (fa_Facts f) \<and> \<not> hf_IsTerminated (fa_Facts f) \<and> hf_FirstSignalAt (fa_Facts f) \<noteq> zero_time \<and>
      RecentlyActive (wo_Wall w) \<lparr>lp_Now = wo_Wall w, lp_StaleHeartbeatAfter = DefaultStaleHeartbeatWindow\<rparr>
        (fa_Facts f))"

definition terminated :: "attempt_facts \<Rightarrow> bool" where
  "terminated f = (hf_Present (fa_Facts f) \<and> hf_IsTerminated (fa_Facts f))"

section \<open>The projection of an attempt\<close>

record attempt_view =
  av_Outcome :: outcome
  av_Attempt :: attempt
  av_Sessions :: "session_ref list"
  av_Observations :: "observation list"
  av_Receipts :: "recovery_receipt list"
  av_Fence :: "fence_row option"
  av_Presentation :: attempt_presentation

definition CodeAttemptNotFound :: string where "CodeAttemptNotFound = ''ATTEMPT_NOT_FOUND''"
definition AttemptAlreadyEnded :: string where "AttemptAlreadyEnded = ''ATTEMPT_ALREADY_ENDED''"
definition AttemptStatusMoved :: string where "AttemptStatusMoved = ''ATTEMPT_STATUS_MOVED''"
definition CodeAttemptStartUnresolved :: string where
  "CodeAttemptStartUnresolved = ''ATTEMPT_START_UNRESOLVED''"
definition CodeAttemptActivationUnresolved :: string where
  "CodeAttemptActivationUnresolved = ''ATTEMPT_ACTIVATION_UNRESOLVED''"
definition CodeAttemptProviderStopFailed :: string where
  "CodeAttemptProviderStopFailed = ''ATTEMPT_PROVIDER_STOP_FAILED''"

lemmas attempt_codes = CodeAttemptNotFound_def AttemptAlreadyEnded_def AttemptStatusMoved_def
  CodeAttemptStartUnresolved_def CodeAttemptActivationUnresolved_def CodeAttemptProviderStopFailed_def

definition requireAttempt :: "ident \<Rightarrow> ident \<Rightarrow> outcome_db \<Rightarrow> api_error + attempt \<times> outcome" where
  "requireAttempt oid aid db =
     (case GetOutcome db oid of
        None \<Rightarrow> Inl (NotFound ''OUTCOME_NOT_FOUND'')
      | Some r \<Rightarrow>
          (case GetAttempt (db_Control db) oid aid of
             None \<Rightarrow> Inl (NotFound CodeAttemptNotFound)
           | Some a \<Rightarrow> Inr (a, r)))"

definition observed_facts :: "world \<Rightarrow> ident \<Rightarrow> outcome_db \<Rightarrow> api_error + heartbeat_facts" where
  "observed_facts w aid db =
     (case LatestAttemptSessionRef (db_Control db) aid of
        None \<Rightarrow> Inr (fa_Facts no_facts)
      | Some ref \<Rightarrow>
          (case wo_Session w (sr_SessionID ref) of
             Inl e \<Rightarrow> Inl (Failure e)
           | Inr None \<Rightarrow> Inr (fa_Facts no_facts)
           | Inr (Some r) \<Rightarrow> Inr (session_facts r)))"

definition held_fence :: "outcome_db \<Rightarrow> ident \<Rightarrow> ident \<Rightarrow> fence_row option" where
  "held_fence db oid aid =
     (case GetOutcomeProjectID db oid of
        None \<Rightarrow> None
      | Some p \<Rightarrow> (case OpenFenceForSubject (db_Control db) (FenceSubjectForProject p) of
          None \<Rightarrow> None | Some f \<Rightarrow> if af_AttemptID f = aid then Some f else None))"

definition readModel :: "world \<Rightarrow> outcome \<Rightarrow> attempt \<Rightarrow> (api_error + attempt_view) action" where
  "readModel w r a =
     try_do (reading (observed_facts w (a_ID a))) (\<lambda>facts.
     next_do (clock w) (\<lambda>now.
     reading (\<lambda>db. let c = db_Control db; obs = ListAttemptObservations c (a_ID a) in
       Inr \<lparr>av_Outcome = r, av_Attempt = a, av_Sessions = ListAttemptSessionRefs c (a_ID a),
            av_Observations = obs, av_Receipts = ListRecoveryReceipts c (a_ID a),
            av_Fence = held_fence db (o_ID r) (a_ID a),
            av_Presentation = DeriveAttemptPresentation (wo_Wall w) (a_Status a) facts
              (list_ex (\<lambda>x. ob_Kind x = ObservationAdmissionAmbiguous \<or> ob_Kind x = ObservationActivationAmbiguous) obs)
              (list_ex (\<lambda>x. ob_Kind x = ObservationGovernedCheckTerminationUnknown) obs)
              \<lparr>lp_Now = now, lp_StaleHeartbeatAfter = wo_StaleHeartbeat w\<rparr>\<rparr>)))"

text \<open>\<^verbatim>\<open>Service.GetAttempt\<close>.\<close>

definition AttemptView :: "world \<Rightarrow> ident \<Rightarrow> ident \<Rightarrow> (api_error + attempt_view) action" where
  "AttemptView w oid aid =
     try_do (reading (requireAttempt oid aid)) (\<lambda>(a, r). readModel w r a)"

section \<open>Writes the commands share\<close>

definition observe :: "world \<Rightarrow> ident \<Rightarrow> string \<Rightarrow> string \<Rightarrow> (api_error + observation) action" where
  "observe w aid kind text =
     next_do (clock w) (\<lambda>at. next_do (fresh w) (\<lambda>obs.
       control (\<lambda>c. AppendAttemptObservation c obs aid kind text at)))"

definition recordReceipt ::
  "world \<Rightarrow> ident \<Rightarrow> recovery_resolution \<Rightarrow> string \<Rightarrow> (api_error + recovery_receipt) action" where
  "recordReceipt w aid resolution detail =
     next_do (fresh w) (\<lambda>u. next_do (clock w) (\<lambda>at.
       let r = \<lparr>rv_ID = ''rcpt-'' @ u, rv_AttemptID = aid, rv_Resolution = resolution,
                rv_ReplacementAttemptID = [], rv_Detail = detail, rv_CreatedAt = at\<rparr>
       in try_do (control (\<lambda>c. CreateRecoveryReceipt c [] r)) (\<lambda>_. give (Inr r))))"

text \<open>The writes of a refusal: what fails to be written is joined to the refusal, which stays the
  typed error of the result.\<close>

definition refused_after :: "(api_error + 'a) action \<Rightarrow> api_error \<Rightarrow> (api_error + 'r) action" where
  "refused_after m e = next_do m (\<lambda>_. give (Inl e))"

definition admitUnresolved :: "world \<Rightarrow> ident \<Rightarrow> string \<Rightarrow> string \<Rightarrow> (api_error + 'r) action" where
  "admitUnresolved w aid kind cause =
     (let text = payload [(''error'', JStr cause), (''unresolved'', JBool True)] in
      next_do (observe w aid kind text) (\<lambda>_.
      refused_after (recordReceipt w aid RecoveryNeedsAttention text)
        (Conflict (if kind = ObservationAdmissionAmbiguous then CodeAttemptStartUnresolved
                   else CodeAttemptActivationUnresolved))))"

section \<open>Commands\<close>

definition RecordObservation ::
  "world \<Rightarrow> ident \<Rightarrow> ident \<Rightarrow> string \<Rightarrow> string \<Rightarrow> (api_error + observation) action" where
  "RecordObservation w oid aid kind0 text0 =
     try_do (reading (requireAttempt oid aid)) (\<lambda>_.
       let kind = trim_space kind0; text = (if text0 = [] then ''{}'' else text0) in
       if kind = [] then give (Inl (Invalid ''OBSERVATION_KIND_REQUIRED''))
       else if kind = ObservationAdmissionFailed \<or> kind = ObservationInputProvisioningFailed
       then give (Inl (Invalid ''OBSERVATION_KIND_RESERVED''))
       else if text0 \<noteq> [] \<and> \<not> json_valid text0 then give (Inl (Invalid ''OBSERVATION_PAYLOAD_INVALID''))
       else observe w aid kind text)"

text \<open>A cancellation is recorded only after the runtime proved that the session stopped; it keeps
  the custody of the workspace.\<close>

definition proven_stop :: "error + stop_result \<Rightarrow> error + stop_result" where
  "proven_stop t = (case t of
     Inl e \<Rightarrow> Inl e
   | Inr x \<Rightarrow> if sp_ProviderStopped x then Inr x
              else Inl (Errorf ''%w: adapter could not prove the session stopped'' []))"

definition stop_refused :: "world \<Rightarrow> ident \<Rightarrow> error \<Rightarrow> ident \<Rightarrow> (api_error + 'r) action" where
  "stop_refused w aid e sid =
     (let text = payload [(''error'', JStr (wo_Text w e)), (''sessionId'', JStr sid)] in
      next_do (observe w aid ObservationProviderStopFailed text) (\<lambda>_.
      refused_after (recordReceipt w aid RecoveryNeedsAttention text) (Conflict CodeAttemptProviderStopFailed)))"

definition status_name :: "attempt_status \<Rightarrow> string" where
  "status_name s = (case s of AttemptQueued \<Rightarrow> ''queued'' | AttemptRunning \<Rightarrow> ''running''
     | AttemptPaused \<Rightarrow> ''paused'' | AttemptSucceeded \<Rightarrow> ''succeeded'' | AttemptFailed \<Rightarrow> ''failed''
     | AttemptCancelled \<Rightarrow> ''cancelled'' | AttemptLost \<Rightarrow> ''lost'' | AttemptReconciled \<Rightarrow> ''reconciled''
     | AttemptStatusOther k \<Rightarrow> k)"

definition CancelAttempt :: "world \<Rightarrow> ident \<Rightarrow> ident \<Rightarrow> (api_error + attempt_view) action" where
  "CancelAttempt w oid aid =
     try_do (reading (requireAttempt oid aid)) (\<lambda>(a, r).
       if \<not> live (a_Status a) then give (Inl (Conflict AttemptAlreadyEnded))
       else next_do (reading (\<lambda>db. (LatestAttemptSessionRef (db_Control db) aid, GetOutcomeProjectID db oid)))
         (\<lambda>(bound, project).
           case bound of
             None \<Rightarrow> give (Inl (Conflict CodeAttemptStartUnresolved))
           | Some ref \<Rightarrow>
               (case proven_stop (wo_Terminate w (case project of None \<Rightarrow> [] | Some p \<Rightarrow> p) (sr_SessionID ref)) of
                  Inl e \<Rightarrow>
                    stop_refused w aid e (sr_SessionID ref)
                | Inr stop \<Rightarrow>
                    next_do (clock w) (\<lambda>at.
                    try_do (control (\<lambda>c. TransitionAttemptStatus c oid aid (a_Status a) AttemptCancelled at)) (\<lambda>rows.
                      if rows = 0 then give (Inl (Conflict AttemptStatusMoved))
                      else try_do (observe w aid ObservationOwnerCancel
                             (payload [(''previousStatus'', JStr (status_name (a_Status a))),
                                       (''providerStopped'', JBool (sp_ProviderStopped stop)),
                                       (''workspaceFreed'', JBool (sp_WorkspaceFreed stop))])) (\<lambda>_.
                             AttemptView w oid aid))))))"

section \<open>What the shared writes keep\<close>

lemma control_rows [simp]:
  "st_Fences (control_view db) = st_Fences (db_Control db)"
  "st_Attempts (control_view db) = st_Attempts (db_Control db)"
  "st_Observations (control_view db) = st_Observations (db_Control db)"
  by (simp_all add: control_view_def)

lemma observation_effect:
  assumes "AppendAttemptObservation s obs aid kind text at = Inr (x, c)"
  shows "st_Fences c = st_Fences s" "st_Attempts c = st_Attempts s" "st_Receipts c = st_Receipts s"
    "st_Observations c = st_Observations s @ [x]" "ob_AttemptID x = aid" "ob_Kind x = kind"
  using assms by (auto simp: AppendAttemptObservation_def append_validated_def insert_observation_def
      new_observation_def and_then_Inr split: option.splits if_splits)

lemma recovery_effect:
  assumes "CreateRecoveryReceipt s u r = Inr (x, c)"
  shows "st_Fences c = st_Fences s" "st_Attempts c = st_Attempts s" "st_Observations c = st_Observations s"
  using assms by (auto elim!: recovery_receipt_effect)

lemma transition_fences:
  "TransitionAttemptStatus s oid aid e n at = Inr (k, c) \<Longrightarrow> st_Fences c = st_Fences s"
  by (auto simp: TransitionAttemptStatus_def update_status_def Let_def split: if_splits)

lemma release_effect:
  assumes "ReleaseFenceForAttempt s aid reason at = Inr (k, c)"
  shows "list_ex (\<lambda>f. af_AttemptID f = x \<and> \<not> fr_Released f) (st_Fences c) \<longleftrightarrow>
         x \<noteq> aid \<and> list_ex (\<lambda>f. af_AttemptID f = x \<and> \<not> fr_Released f) (st_Fences s)"
    "st_Attempts c = st_Attempts s" "st_Observations c = st_Observations s"
proof -
  have c: "c = s\<lparr>st_Fences := map (\<lambda>f. if af_AttemptID f = aid \<and> \<not> fr_Released f
      then f\<lparr>af_ReleasedAt := at, af_ReleaseReason := reason, fr_Released := True\<rparr> else f) (st_Fences s)\<rparr>"
    using assms by (auto simp: ReleaseFenceForAttempt_def release_fences_def Let_def split: if_splits)
  have "list_ex (\<lambda>f. af_AttemptID f = x \<and> \<not> fr_Released f) (map (\<lambda>f. if af_AttemptID f = aid \<and> \<not> fr_Released f
      then f\<lparr>af_ReleasedAt := at, af_ReleaseReason := reason, fr_Released := True\<rparr> else f) fs) \<longleftrightarrow>
      x \<noteq> aid \<and> list_ex (\<lambda>f. af_AttemptID f = x \<and> \<not> fr_Released f) fs" for fs
    by (induction fs) auto
  then show "list_ex (\<lambda>f. af_AttemptID f = x \<and> \<not> fr_Released f) (st_Fences c) \<longleftrightarrow>
      x \<noteq> aid \<and> list_ex (\<lambda>f. af_AttemptID f = x \<and> \<not> fr_Released f) (st_Fences s)" by (simp add: c)
  show "st_Attempts c = st_Attempts s" "st_Observations c = st_Observations s" by (simp_all add: c)
qed

context service_law begin

lemma keeps_view: "keeps (AttemptView w oid aid)"
proof -
  have "keeps (readModel w r a)" for r a
    unfolding readModel_def by (intro keeps_try keeps_next) (simp_all add: Let_def)
  then show ?thesis unfolding AttemptView_def by (intro keeps_try) (simp_all split: prod.split)
qed

end

context control_law begin

lemma keeps_observe: "keeps (observe w aid kind text)"
  unfolding observe_def by (intro keeps_rules keeps_step) (auto intro: store_step.observe)

lemma keeps_recordReceipt: "keeps (recordReceipt w aid resolution detail)"
  unfolding recordReceipt_def Let_def by (intro keeps_rules keeps_step) (auto intro: store_step.recover)

lemma keeps_transition: "keeps (control_commit (\<lambda>c. TransitionAttemptStatus c oid aid e n at))"
  by (rule keeps_step) (auto intro: store_step.transition)

lemma keeps_CancelAttempt: "keeps (CancelAttempt w oid aid)"
  unfolding CancelAttempt_def stop_refused_def refused_after_def Let_def
  by (auto intro!: keeps_next keeps_try keeps_passing keeps_observe keeps_recordReceipt keeps_transition
      keeps_view split: if_split prod.split option.split sum.split)

lemma keeps_RecordObservation: "keeps (RecordObservation w oid aid kind text)"
  unfolding RecordObservation_def Let_def by (auto intro!: keeps_try keeps_observe split: if_split prod.split)

lemma keeps_admitUnresolved: "keeps (admitUnresolved w aid kind cause)"
  unfolding admitUnresolved_def refused_after_def Let_def
  by (intro keeps_next keeps_observe keeps_recordReceipt) simp

end

text \<open>Observations and receipts leave every attempt alone.\<close>

lemma alone_observe: "alone.keeps x (observe w aid kind text)"
  unfolding observe_def
  by (intro alone.keeps_rules alone.keeps_control)
    (auto simp: left_alone_def holds_custody_def attempt_rows_def dest: observation_effect)

lemma alone_recordReceipt: "alone.keeps x (recordReceipt w aid resolution detail)"
  unfolding recordReceipt_def Let_def
  by (intro alone.keeps_rules alone.keeps_control)
    (auto simp: left_alone_def holds_custody_def attempt_rows_def dest: recovery_effect)

lemma alone_kept: "alone.keeps x m \<Longrightarrow> kept.keeps x m"
  by (simp add: alone.keeps_def kept.keeps_def left_alone_def custody_kept_def)

lemmas kept_shared = alone_observe [THEN alone_kept] alone_recordReceipt [THEN alone_kept]
  kept.keeps_view

lemma kept_transition: "kept.keeps x (control_commit (\<lambda>c. TransitionAttemptStatus c oid aid e n at))"
  by (rule kept.keeps_control) (simp add: custody_kept_def holds_custody_def transition_fences)

end
