(* ===== verification/Recovery.thy ===== *)
theory Recovery
  imports Attempt_Service
begin

text \<open>
  Recovery and liveness of attempts (internal/service/outcome/recover.go): the owner's recovery
  verbs, the proof that a provider stopped, the verdicts, and the periodic evaluation of running
  attempts. The lemmas are the custody law of the source: a fence is released only on a proven
  stop, an owner's assertion, or a succeeded attempt with its frozen result.
\<close>

section \<open>Unknown termination of an approved check\<close>

definition check_unknown :: "outcome_db \<Rightarrow> ident \<Rightarrow> bool" where
  "check_unknown db aid = list_ex (\<lambda>x. ob_Kind x = ObservationGovernedCheckTerminationUnknown)
     (ListAttemptObservations (db_Control db) aid)"

definition uncertainty_payload :: "world \<Rightarrow> check_uncertainty \<Rightarrow> string" where
  "uncertainty_payload w g = payload
     [(''sessionId'', JStr (gu_SessionID g)), (''checkId'', JStr (gu_CheckID g)),
      (''terminationUnknown'', JBool (gu_TerminationUnknown g)), (''timedOut'', JBool (gu_TimedOut g)),
      (''cancelled'', JBool (gu_Cancelled g)), (''enforcedBy'', JStr (gu_EnforcedBy g)),
      (''observedAt'', JStr (wo_Stamp w (gu_ObservedAt g))),
      (''outcome'', JStr ''approved check termination unknown; completion and custody remain blocked'')]"

definition importGovernedCheckUncertainty :: "world \<Rightarrow> ident \<Rightarrow> ident \<Rightarrow> (api_error + bool) action" where
  "importGovernedCheckUncertainty w aid sid =
     (if blank sid then give (Inr False)
      else case wo_Uncertainty w sid of
        Inl e \<Rightarrow> give (Inl (Failure (Wrapf ''read governed check uncertainty for session %s: %w'' [Str sid] e)))
      | Inr None \<Rightarrow> give (Inr False)
      | Inr (Some g) \<Rightarrow>
          if \<not> gu_TerminationUnknown g then give (Inr False)
          else next_do (reading (\<lambda>db. check_unknown db aid)) (\<lambda>seen.
            if seen then give (Inr True)
            else try_do (observe w aid ObservationGovernedCheckTerminationUnknown (uncertainty_payload w g))
                   (\<lambda>_. give (Inr True))))"

definition resolveGovernedCheckTerminationUnknown ::
  "world \<Rightarrow> ident \<Rightarrow> ident \<Rightarrow> (api_error + bool) action" where
  "resolveGovernedCheckTerminationUnknown w aid sid =
     try_do (importGovernedCheckUncertainty w aid sid) (\<lambda>blocked.
       if blocked then give (Inr True) else reading (\<lambda>db. Inr (check_unknown db aid)))"

section \<open>Proof that the provider stopped\<close>

record custody_proof =
  cu_Reason :: string
  cu_Proven :: bool
  cu_ByOwner :: bool

definition proveProviderStopped :: "attempt_facts \<Rightarrow> bool \<Rightarrow> custody_proof" where
  "proveProviderStopped facts ownerConfirmed =
     (if terminated facts
      then \<lparr>cu_Reason = ''bound session durably terminated'', cu_Proven = True, cu_ByOwner = False\<rparr>
      else if ownerConfirmed
      then \<lparr>cu_Reason = ''owner asserted the provider is stopped'', cu_Proven = True, cu_ByOwner = True\<rparr>
      else \<lparr>cu_Reason = [], cu_Proven = False, cu_ByOwner = False\<rparr>)"

text \<open>A terminated provider says nothing about a check that it started.\<close>

definition stop_proof :: "attempt_facts \<Rightarrow> bool \<Rightarrow> bool \<Rightarrow> custody_proof" where
  "stop_proof facts unknownCheck ownerConfirmed =
     proveProviderStopped (if unknownCheck then no_facts else facts) ownerConfirmed"

definition CodeAttemptCustodyUnproven :: string where
  "CodeAttemptCustodyUnproven = ''ATTEMPT_CUSTODY_UNPROVEN''"

definition em_dash :: string where "em_dash = [CHR 0xE2, CHR 0x80, CHR 0x94]"

definition evidence :: "string \<Rightarrow> string" where
  "evidence text = payload [(''evidence'', JStr text)]"

definition refuseUnprovenCustody :: "world \<Rightarrow> ident \<Rightarrow> (api_error + 'r) action" where
  "refuseUnprovenCustody w aid =
     next_do (recordReceipt w aid RecoveryNeedsAttention (evidence
       (''cannot prove the bound provider stopped '' @ em_dash @ '' terminate it or confirm containment'')))
     (\<lambda>r. give (Inl (case r of
         Inl e \<Rightarrow> Failure (Errorf ''record unproven-custody receipt for %s: %w'' [Str aid])
       | Inr _ \<Rightarrow> Conflict CodeAttemptCustodyUnproven)))"

definition maybeRecordOwnerContainment :: "world \<Rightarrow> ident \<Rightarrow> custody_proof \<Rightarrow> (api_error + unit) action" where
  "maybeRecordOwnerContainment w aid p =
     (if \<not> cu_ByOwner p then give (Inr ())
      else try_do (observe w aid ObservationOwnerContained
             (payload [(''assertion'', JStr ''owner asserts the bound provider is stopped'')]))
             (\<lambda>_. give (Inr ())))"

section \<open>Verdicts\<close>

type_synonym recovery_view = "attempt_view \<times> recovery_receipt option"

definition releaseCustody :: "world \<Rightarrow> ident \<Rightarrow> string \<Rightarrow> (api_error + unit) action" where
  "releaseCustody w aid reason = next_do (clock w) (\<lambda>at.
     try_do (control (\<lambda>c. ReleaseFenceForAttempt c aid reason at)) (\<lambda>_. give (Inr ())))"

definition recovered :: "world \<Rightarrow> attempt \<Rightarrow> recovery_receipt option \<Rightarrow> (api_error + recovery_view) action" where
  "recovered w a receipt =
     try_do (AttemptView w (a_OutcomeID a) (a_ID a)) (\<lambda>v. give (Inr (v, receipt)))"

definition accountSucceededCustody :: "world \<Rightarrow> attempt \<Rightarrow> (api_error + recovery_view) action" where
  "accountSucceededCustody w a =
     next_do (reading (\<lambda>db. GetAttemptReceipt (db_Control db) (a_ID a))) (\<lambda>r.
       if (case r of None \<Rightarrow> True | Some x \<Rightarrow> \<not> Receipt_Frozen x \<or> \<not> RetentionState_Complete (rp_RetentionState x))
       then give (Inl (Conflict CodeAttemptCustodyUnproven))
       else try_do (releaseCustody w (a_ID a) ''succeeded_attempt_reconciled'') (\<lambda>_. recovered w a None))"

definition accountTerminalCustody :: "world \<Rightarrow> attempt \<Rightarrow> string \<Rightarrow> (api_error + recovery_view) action" where
  "accountTerminalCustody w a reason =
     try_do (releaseCustody w (a_ID a) (''reconciled_terminal_'' @ status_name (a_Status a))) (\<lambda>_.
     try_do (recordReceipt w (a_ID a) RecoveryReplacement (payload
       [(''evidence'', JStr (''terminal predecessor accounted for ('' @ reason @ ''); custody handed to replacement'')),
        (''previousStatus'', JStr (status_name (a_Status a)))])) (\<lambda>r. recovered w a (Some r)))"

definition forceLost :: "world \<Rightarrow> attempt \<Rightarrow> recovery_resolution \<Rightarrow> string \<Rightarrow> (api_error + recovery_view) action"
where
  "forceLost w a resolution text =
     next_do (clock w) (\<lambda>at.
     try_do (control (\<lambda>c. TransitionAttemptStatus c (a_OutcomeID a) (a_ID a) (a_Status a) AttemptLost at)) (\<lambda>rows.
       if rows = 0 \<and> a_Status a \<noteq> AttemptLost then give (Inl (Conflict AttemptStatusMoved))
       else try_do (releaseCustody w (a_ID a) ''reconciled_lost'') (\<lambda>_.
            try_do (recordReceipt w (a_ID a) resolution (evidence text)) (\<lambda>r. recovered w a (Some r)))))"

section \<open>Recovery verbs\<close>

datatype recovery_action = RecoveryActionContain | RecoveryActionReconcile | RecoveryActionReplace
  | RecoveryActionAttention | RecoveryActionOther string

fun RecoveryAction_Valid :: "recovery_action \<Rightarrow> bool" where
  "RecoveryAction_Valid (RecoveryActionOther _) = False"
| "RecoveryAction_Valid _ = True"

definition containAttempt :: "world \<Rightarrow> attempt \<Rightarrow> (api_error + recovery_view) action" where
  "containAttempt w a =
     (if \<not> live (a_Status a) then give (Inl (Conflict AttemptAlreadyEnded))
      else try_do (observe w (a_ID a) ObservationAttemptContained (payload [(''reason'', JStr ''liveness suspect'')]))
             (\<lambda>_. recovered w a None))"

text \<open>The part that reconcile and replace share: the proof is decided, and an owner's assertion is
  recorded, before custody moves.\<close>

definition with_stop_proof ::
  "world \<Rightarrow> attempt \<Rightarrow> bool \<Rightarrow> attempt_facts \<Rightarrow> (custody_proof \<Rightarrow> (api_error + recovery_view) action) \<Rightarrow>
   (api_error + recovery_view) action" where
  "with_stop_proof w a confirmed facts verdict =
     try_do (resolveGovernedCheckTerminationUnknown w (a_ID a) (fa_SessionID facts)) (\<lambda>unknown.
       let p = stop_proof facts unknown confirmed in
       if \<not> cu_Proven p then refuseUnprovenCustody w (a_ID a)
       else try_do (maybeRecordOwnerContainment w (a_ID a) p) (\<lambda>_. verdict p))"

definition reconcileAttempt :: "world \<Rightarrow> attempt \<Rightarrow> bool \<Rightarrow> (api_error + recovery_view) action" where
  "reconcileAttempt w a confirmed =
     (if a_Status a = AttemptSucceeded then accountSucceededCustody w a
      else try_do (reading (heartbeatFacts w (a_ID a))) (\<lambda>facts.
        if a_Status a = AttemptRunning \<and> alive w facts
        then try_do (recordReceipt w (a_ID a) RecoveryResumed
               (evidence ''bound session present, signalled, not terminated'')) (\<lambda>r. recovered w a (Some r))
        else with_stop_proof w a confirmed facts (\<lambda>p.
          if a_Status a \<in> set [AttemptFailed, AttemptCancelled, AttemptReconciled]
          then accountTerminalCustody w a (cu_Reason p)
          else forceLost w a RecoveryReplacement
                 (''reconcile could not prove liveness; provider stop '' @ cu_Reason p))))"

definition recoveryReplace :: "world \<Rightarrow> attempt \<Rightarrow> bool \<Rightarrow> (api_error + recovery_view) action" where
  "recoveryReplace w a confirmed =
     (if a_Status a = AttemptSucceeded then accountSucceededCustody w a
      else try_do (reading (heartbeatFacts w (a_ID a))) (\<lambda>facts.
        with_stop_proof w a confirmed facts (\<lambda>p.
          if live (a_Status a)
          then forceLost w a RecoveryReplacement (''owner directed replacement; provider stop '' @ cu_Reason p)
          else if a_Status a \<in> set [AttemptLost, AttemptFailed, AttemptCancelled, AttemptReconciled]
          then try_do (releaseCustody w (a_ID a) ''replacement_attempt'') (\<lambda>_.
               try_do (recordReceipt w (a_ID a) RecoveryReplacement (payload
                 [(''evidence'', JStr (''predecessor accounted for ('' @ cu_Reason p @ ''); custody handed to replacement'')),
                  (''previousStatus'', JStr (status_name (a_Status a)))])) (\<lambda>r. recovered w a (Some r)))
          else give (Inl (Conflict AttemptAlreadyEnded)))))"

definition recoveryAttention :: "world \<Rightarrow> attempt \<Rightarrow> (api_error + recovery_view) action" where
  "recoveryAttention w a =
     try_do (observe w (a_ID a) ObservationRecoveryAttention (payload [(''reason'', JStr ''owner escalation'')])) (\<lambda>_.
     try_do (recordReceipt w (a_ID a) RecoveryNeedsAttention (evidence ''owner escalation recorded'')) (\<lambda>r.
       recovered w a (Some r)))"

definition RecoverAttempt ::
  "world \<Rightarrow> ident \<Rightarrow> ident \<Rightarrow> recovery_action \<Rightarrow> bool \<Rightarrow> (api_error + recovery_view) action" where
  "RecoverAttempt w oid aid verb confirmed =
     (if \<not> RecoveryAction_Valid verb then give (Inl (Invalid ''RECOVERY_ACTION_INVALID''))
      else try_do (reading (requireAttempt oid aid)) (\<lambda>(a, r).
        case verb of
          RecoveryActionContain \<Rightarrow> containAttempt w a
        | RecoveryActionReconcile \<Rightarrow> reconcileAttempt w a confirmed
        | RecoveryActionReplace \<Rightarrow> recoveryReplace w a confirmed
        | RecoveryActionAttention \<Rightarrow> recoveryAttention w a
        | RecoveryActionOther _ \<Rightarrow> give (Inl (Invalid ''RECOVERY_ACTION_INVALID''))))"

section \<open>The evaluation of running attempts\<close>

definition exit_failed :: "attempt_facts \<Rightarrow> bool" where
  "exit_failed f = (fa_CompletionBoundary f = ''process_exit'' \<and>
     \<not> SupervisedExitSucceeded (fa_ExitCode f) (fa_ExitReason f))"

definition exit_record :: "attempt \<Rightarrow> attempt_facts \<Rightarrow> instant \<Rightarrow> running_termination" where
  "exit_record a f at =
     \<lparr>rt_OutcomeID = a_OutcomeID a, rt_AttemptID = a_ID a,
      rt_TargetStatus = (if exit_failed f then AttemptFailed else AttemptReconciled),
      rt_ObservationKind = ObservationProviderExit,
      rt_ObservationPayload = payload
        [(''sessionId'', JStr (fa_SessionID f)),
         (''outcome'', JStr (if exit_failed f then ''governed provider process exited unsuccessfully''
                            else ''provider session ended; result unclassified'')),
         (''exitCode'', case fa_ExitCode f of None \<Rightarrow> JNull | Some i \<Rightarrow> JNum i),
         (''exitReason'', JStr (fa_ExitReason f))],
      rt_ReleaseReason = (if exit_failed f then ''governed_provider_process_failed'' else []), rt_At = at\<rparr>"

definition renew_if_alive :: "world \<Rightarrow> attempt \<Rightarrow> attempt_facts \<Rightarrow> api_error list action" where
  "renew_if_alive w a f =
     (if \<not> alive w f then give []
      else next_do (clock w) (\<lambda>at. next_do (control (\<lambda>c. RenewFenceForAttempt c (a_ID a) at)) (\<lambda>r.
        give (case r of Inl e \<Rightarrow> [e] | Inr _ \<Rightarrow> []))))"

definition end_if_terminated :: "world \<Rightarrow> attempt \<Rightarrow> attempt_facts \<Rightarrow> api_error list action" where
  "end_if_terminated w a f =
     (if \<not> terminated f then give []
      else next_do (importGovernedCheckUncertainty w (a_ID a) (fa_SessionID f)) (\<lambda>r. case r of
          Inl e \<Rightarrow> give [e]
        | Inr blocked \<Rightarrow>
            if blocked then give []
            else next_do (clock w) (\<lambda>at. next_do (fresh w) (\<lambda>obs.
                 next_do (control (\<lambda>c. TerminateRunningAttemptWithObservation c obs (exit_record a f at))) (\<lambda>r.
                   give (case r of Inl e \<Rightarrow> [e] | Inr _ \<Rightarrow> []))))))"

definition evaluate_one :: "world \<Rightarrow> attempt \<Rightarrow> api_error list action" where
  "evaluate_one w a =
     next_do (reading (heartbeatFacts w (a_ID a))) (\<lambda>r. case r of
       Inl e \<Rightarrow> give [e]
     | Inr f \<Rightarrow> next_do (renew_if_alive w a f) (\<lambda>es.
         next_do (end_if_terminated w a f) (\<lambda>fs. give (es @ fs))))"

fun evaluate_all :: "world \<Rightarrow> attempt list \<Rightarrow> api_error list action" where
  "evaluate_all w [] = give []"
| "evaluate_all w (a # as) =
     next_do (evaluate_one w a) (\<lambda>es. next_do (evaluate_all w as) (\<lambda>fs. give (es @ fs)))"

definition joined_failures :: "string \<Rightarrow> api_error list \<Rightarrow> api_error + unit" where
  "joined_failures what es = (case es of [] \<Rightarrow> Inr () | [e] \<Rightarrow> Inl e | _ \<Rightarrow> Inl (Failure (Errorf what [])))"

definition EvaluateAttemptLiveness :: "world \<Rightarrow> (api_error + unit) action" where
  "EvaluateAttemptLiveness w =
     next_do (reading (\<lambda>db. ListAttemptsByStatus (db_Control db) AttemptRunning)) (\<lambda>running.
     next_do (evaluate_all w running) (\<lambda>es. give (joined_failures ''attempt liveness evaluation: %w'' es)))"

section \<open>The custody law\<close>

definition marked_unknown :: "world \<Rightarrow> ident \<Rightarrow> bool" where
  "marked_unknown w sid \<longleftrightarrow> \<not> blank sid \<and>
     (case wo_Uncertainty w sid of Inr (Some g) \<Rightarrow> gu_TerminationUnknown g | _ \<Rightarrow> False)"

lemma resolved_known:
  assumes "resolveGovernedCheckTerminationUnknown w aid sid s = (Inr False, t)"
  shows "t = s" "\<not> check_unknown (sv_DB s) aid" "\<not> marked_unknown w sid"
proof -
  from assms obtain b u where b: "importGovernedCheckUncertainty w aid sid s = (Inr b, u)"
      "\<not> b" "u = t" "\<not> check_unknown (sv_DB u) aid"
    unfolding resolveGovernedCheckTerminationUnknown_def by (auto elim!: try_do_split split: if_splits)
  then have "u = s \<and> \<not> marked_unknown w sid"
    by (auto simp: importGovernedCheckUncertainty_def marked_unknown_def split: sum.splits option.splits if_splits
        elim!: next_do_split try_do_split)
  then show "t = s" "\<not> check_unknown (sv_DB s) aid" "\<not> marked_unknown w sid" using b by auto
qed

lemma alone_resolve: "alone.keeps x (resolveGovernedCheckTerminationUnknown w aid sid)"
  unfolding resolveGovernedCheckTerminationUnknown_def importGovernedCheckUncertainty_def
  by (auto intro!: alone.keeps_rules alone_observe split: sum.split option.split)

lemma alone_refuse: "alone.keeps x (refuseUnprovenCustody w aid)"
  unfolding refuseUnprovenCustody_def by (intro alone.keeps_next alone_recordReceipt) simp

lemmas kept_resolve = alone_resolve [THEN alone_kept]
lemmas kept_refuse = alone_refuse [THEN alone_kept]

lemma kept_release_other: "x \<noteq> aid \<Longrightarrow> kept.keeps x (releaseCustody w aid reason)"
  unfolding releaseCustody_def
  by (intro kept.keeps_rules kept.keeps_control) (auto simp: custody_kept_def holds_custody_def release_effect(1))

lemma kept_contain: "kept.keeps x (containAttempt w a)" "kept.keeps x (recoveryAttention w a)"
    "kept.keeps x (recovered w a p)"
  unfolding containAttempt_def recoveryAttention_def recovered_def
  by (auto intro!: kept.keeps_try kept_shared)

lemma kept_resumed: "kept.keeps x (try_do (recordReceipt w aid res text) (\<lambda>r. recovered w a (Some r)))"
  by (intro kept.keeps_try kept_shared kept_contain)

lemma kept_owner_containment: "kept.keeps x (maybeRecordOwnerContainment w aid p)"
  unfolding maybeRecordOwnerContainment_def by (auto intro!: kept.keeps_try kept_shared)

lemma kept_forceLost: "x \<noteq> a_ID a \<Longrightarrow> kept.keeps x (forceLost w a resolution text)"
  unfolding forceLost_def
  by (auto intro!: kept.keeps_next kept.keeps_try kept.keeps_passing kept_transition kept_release_other
      kept_shared kept_contain split: if_split)

lemma kept_accounts:
  assumes "x \<noteq> a_ID a"
  shows "kept.keeps x (accountTerminalCustody w a reason)" "kept.keeps x (accountSucceededCustody w a)"
  unfolding accountTerminalCustody_def accountSucceededCustody_def
  by (auto intro!: kept.keeps_next kept.keeps_try kept_release_other [OF assms] kept_shared kept_contain
      split: if_split)

lemma kept_with_stop_proof:
  assumes "\<And>p. kept.keeps x (verdict p)" shows "kept.keeps x (with_stop_proof w a c f verdict)"
  unfolding with_stop_proof_def Let_def
  by (auto intro!: kept.keeps_try kept_resolve kept_refuse kept_owner_containment assms split: if_split)

lemma kept_recovery_other:
  assumes "x \<noteq> a_ID a"
  shows "kept.keeps x (reconcileAttempt w a c)" "kept.keeps x (recoveryReplace w a c)"
  unfolding reconcileAttempt_def recoveryReplace_def
  by (auto intro!: kept.keeps_try kept_with_stop_proof kept_forceLost kept_accounts kept_release_other
      kept_shared kept_contain assms split: if_split)

text \<open>Custody moves under a stop proof only.\<close>

definition stop_known :: "world \<Rightarrow> outcome_db \<Rightarrow> ident \<Rightarrow> bool" where
  "stop_known w db aid \<longleftrightarrow> (\<exists>f. heartbeatFacts w aid db = Inr f \<and> terminated f \<and>
     \<not> check_unknown db aid \<and> \<not> marked_unknown w (fa_SessionID f))"

lemma unproven_refused:
  assumes "with_stop_proof w a False f verdict s = (r, s')"
    "\<not> (terminated f \<and> \<not> check_unknown (sv_DB s) (a_ID a) \<and> \<not> marked_unknown w (fa_SessionID f))"
  shows "(\<exists>e. r = Inl e) \<and> left_alone x (sv_DB s) (sv_DB s')"
  using assms(1) unfolding with_stop_proof_def
proof (cases rule: try_do_split)
  case (refused e)
  then show ?thesis using alone.keepsD [OF alone_resolve refused(1)] by blast
next
  case (passed unknown t)
  have "\<not> cu_Proven (stop_proof f unknown False)"
    using resolved_known [of w "a_ID a" "fa_SessionID f" s t] passed(1) assms(2)
    by (cases unknown) (auto simp: stop_proof_def proveProviderStopped_def no_facts_def terminated_def)
  then have r: "refuseUnprovenCustody w (a_ID a) t = (r, s')" using passed(2) by (simp add: Let_def)
  then have "\<exists>e. r = Inl e" unfolding refuseUnprovenCustody_def by (auto elim!: next_do_split)
  moreover have "left_alone x (sv_DB s) (sv_DB s')"
    using alone.keepsD [OF alone_resolve passed(1)] alone.keepsD [OF alone_refuse r] by (rule alone.chain)
  ultimately show ?thesis by blast
qed

lemma released_under_proof:
  assumes "with_stop_proof w a confirmed f verdict s = (r, s')"
    "\<not> custody_kept x (sv_DB s) (sv_DB s')"
  shows "confirmed \<or> terminated f \<and> \<not> check_unknown (sv_DB s) (a_ID a) \<and> \<not> marked_unknown w (fa_SessionID f)"
  using assms unproven_refused [of w a f verdict s r s' x]
  by (cases confirmed) (auto simp: left_alone_def custody_kept_def)

lemma succeeded_released:
  assumes "accountSucceededCustody w a s = (r, s')" "\<not> custody_kept x (sv_DB s) (sv_DB s')"
  shows "\<exists>p. GetAttemptReceipt (db_Control (sv_DB s)) (a_ID a) = Some p \<and> Receipt_Frozen p \<and>
             RetentionState_Complete (rp_RetentionState p)"
  using assms by (cases "GetAttemptReceipt (db_Control (sv_DB s)) (a_ID a)")
    (auto simp: accountSucceededCustody_def custody_kept_def next_do_def reading_def split: if_splits)

lemma kept_read:
  assumes "try_do (reading g) f s = (r, s')" "\<not> custody_kept x (sv_DB s) (sv_DB s')"
  obtains y where "g (sv_DB s) = Inr y" "f y s = (r, s')"
  using assms(1)
proof (cases rule: try_do_split)
  case (refused e)
  then show thesis using assms(2) by (simp add: custody_kept_def)
next
  case (passed y t)
  then show thesis using that by simp
qed

end
