(* ===== verification/Recovery_Laws.thy ===== *)
theory Recovery_Laws
  imports Recovery
begin

text \<open>
  Laws that every command over attempts keeps: it commits transactions of the control rows and
  nothing else, it leaves contracts, plans and proof records as they are, and the evaluation of
  running attempts starts none. Each law is proved once, for every command built from the shared
  writes.
\<close>

section \<open>Commands over the control rows\<close>

context control_law begin

lemma keeps_release: "keeps (releaseCustody w aid reason)"
  unfolding releaseCustody_def by (intro keeps_rules keeps_step) (auto intro: store_step.release)

lemmas keeps_writes = keeps_observe keeps_recordReceipt keeps_transition keeps_release keeps_view

lemma keeps_recovered: "keeps (recovered w a p)"
  unfolding recovered_def by (intro keeps_rules keeps_writes)

lemma keeps_receipt_then: "keeps (try_do (recordReceipt w aid res text) (\<lambda>r. recovered w a (Some r)))"
  by (intro keeps_try keeps_writes keeps_recovered)

lemma keeps_import: "keeps (importGovernedCheckUncertainty w aid sid)"
  unfolding importGovernedCheckUncertainty_def
  by (auto intro!: keeps_rules keeps_writes split: sum.split option.split)

lemma keeps_resolve: "keeps (resolveGovernedCheckTerminationUnknown w aid sid)"
  unfolding resolveGovernedCheckTerminationUnknown_def
  by (auto intro!: keeps_try keeps_import split: if_split)

lemma keeps_with_stop_proof:
  assumes "\<And>p. keeps (verdict p)" shows "keeps (with_stop_proof w a c f verdict)"
proof -
  have "keeps (maybeRecordOwnerContainment w aid p)" "keeps (refuseUnprovenCustody w aid)" for aid p
    unfolding maybeRecordOwnerContainment_def refuseUnprovenCustody_def
    by (auto intro!: keeps_try keeps_next keeps_writes)
  then show ?thesis unfolding with_stop_proof_def Let_def
    by (auto intro!: keeps_try keeps_resolve assms split: if_split)
qed

lemma keeps_forceLost: "keeps (forceLost w a resolution text)"
  unfolding forceLost_def
  by (auto intro!: keeps_next keeps_try keeps_passing keeps_writes keeps_recovered split: if_split)

lemma keeps_accounts: "keeps (accountTerminalCustody w a reason)" "keeps (accountSucceededCustody w a)"
  unfolding accountTerminalCustody_def accountSucceededCustody_def
  by (auto intro!: keeps_next keeps_try keeps_writes keeps_recovered split: if_split)

lemma keeps_RecoverAttempt: "keeps (RecoverAttempt w oid aid verb confirmed)"
proof -
  have "keeps (containAttempt w a)" "keeps (recoveryAttention w a)" for a
    unfolding containAttempt_def recoveryAttention_def
    by (auto intro!: keeps_try keeps_writes keeps_recovered split: if_split)
  moreover have "keeps (reconcileAttempt w a confirmed)" "keeps (recoveryReplace w a confirmed)" for a
    unfolding reconcileAttempt_def recoveryReplace_def
    by (auto intro!: keeps_try keeps_with_stop_proof keeps_forceLost keeps_accounts keeps_receipt_then
        keeps_writes keeps_recovered split: if_split)
  ultimately show ?thesis unfolding RecoverAttempt_def
    by (auto intro!: keeps_try split: if_split prod.split recovery_action.split)
qed

lemma keeps_evaluate_one: "keeps (evaluate_one w a)"
proof -
  have "keeps (renew_if_alive w a f)" for f
    unfolding renew_if_alive_def
    by (auto intro!: keeps_next keeps_passing keeps_step intro: store_step.renew split: if_split sum.split)
  moreover have "keeps (end_if_terminated w a f)" for f
    unfolding end_if_terminated_def
    by (auto intro!: keeps_next keeps_passing keeps_step keeps_import intro: store_step.terminate
        split: if_split sum.split)
  ultimately show ?thesis unfolding evaluate_one_def by (auto intro!: keeps_next split: sum.split)
qed

lemma keeps_evaluate_all: "keeps (evaluate_all w as)"
  by (induction as) (auto intro!: keeps_next keeps_evaluate_one)

lemma keeps_Evaluate: "keeps (EvaluateAttemptLiveness w)"
  unfolding EvaluateAttemptLiveness_def by (intro keeps_next keeps_evaluate_all) simp_all

lemmas keeps_attempt_commands = keeps_RecoverAttempt keeps_CancelAttempt keeps_Evaluate keeps_RecordObservation

end

section \<open>Evaluation starts nothing\<close>

text \<open>Sessions stay bound as they are, no attempt starts running, and an unknown check stays unknown.\<close>

definition calm :: "outcome_db \<Rightarrow> outcome_db \<Rightarrow> bool" where
  "calm db db' \<longleftrightarrow> st_Sessions (db_Control db') = st_Sessions (db_Control db) \<and>
     (\<forall>a\<in>set (st_Attempts (db_Control db')). a_Status a = AttemptRunning \<longrightarrow> a \<in> set (st_Attempts (db_Control db))) \<and>
     (\<forall>aid. check_unknown db aid \<longrightarrow> check_unknown db' aid)"

interpretation calmly: service_law calm
  by unfold_locales (auto simp: calm_def)

lemma check_unknown_iff:
  "check_unknown db aid \<longleftrightarrow> (\<exists>x\<in>set (st_Observations (db_Control db)). ob_AttemptID x = aid \<and>
     ob_Kind x = ObservationGovernedCheckTerminationUnknown)"
  by (auto simp: check_unknown_def ListAttemptObservations_def list_ex_iff)

lemma calm_control:
  assumes "st_Sessions c = st_Sessions (db_Control db)"
    "set (st_Observations (db_Control db)) \<subseteq> set (st_Observations c)"
    "\<And>a. a \<in> set (st_Attempts c) \<Longrightarrow> a_Status a = AttemptRunning \<Longrightarrow> a \<in> set (st_Attempts (db_Control db))"
  shows "calm db (db\<lparr>db_Control := c\<rparr>)"
  using assms by (auto simp: calm_def check_unknown_iff)

lemma sessions_view [simp]: "st_Sessions (control_view db) = st_Sessions (db_Control db)"
  by (simp add: control_view_def)

lemma calmly_observe: "calmly.keeps (observe w aid kind text)"
  unfolding observe_def
  by (intro calmly.keeps_rules calmly.keeps_control calm_control)
    (auto simp: AppendAttemptObservation_def append_validated_def insert_observation_def and_then_Inr
      split: option.splits if_splits)

lemma calmly_import: "calmly.keeps (importGovernedCheckUncertainty w aid sid)"
  unfolding importGovernedCheckUncertainty_def
  by (auto intro!: calmly.keeps_rules calmly_observe split: sum.split option.split)

lemma calmly_renew: "calmly.keeps (renew_if_alive w a f)"
  unfolding renew_if_alive_def
  by (auto intro!: calmly.keeps_rules calmly.keeps_control calm_control simp: RenewFenceForAttempt_def Let_def
      split: sum.split)

lemma ended_record:
  assumes "TerminateRunningAttemptWithObservation (control_view db) obs (exit_record a f at) = Inr (r, c)"
  shows "calm db (db\<lparr>db_Control := c\<rparr>)"
    "b \<in> set (st_Attempts c) \<Longrightarrow> a_ID b = a_ID a \<Longrightarrow> a_OutcomeID b = a_OutcomeID a \<Longrightarrow> a_Status b \<noteq> AttemptRunning"
proof -
  let ?s = "control_view db"
  let ?hit = "\<lambda>b. a_ID b = a_ID a \<and> a_OutcomeID b = a_OutcomeID a \<and> a_Status b = AttemptRunning"
  have t: "rt_TargetStatus (exit_record a f at) \<noteq> AttemptRunning" "rt_OutcomeID (exit_record a f at) = a_OutcomeID a"
      "rt_AttemptID (exit_record a f at) = a_ID a" by (simp_all add: exit_record_def)
  have "st_Sessions c = st_Sessions (db_Control db) \<and> set (st_Observations (db_Control db)) \<subseteq> set (st_Observations c) \<and>
    (\<exists>g. st_Attempts c = map (\<lambda>b. if ?hit b then (b\<lparr>a_Status := rt_TargetStatus (exit_record a f at), a_UpdatedAt := g\<rparr>) else b) (st_Attempts ?s))"
    using assms
  proof (cases rule: terminate_parts)
    case left
    then have "\<forall>b\<in>set (st_Attempts ?s). \<not> ?hit b"
      using assms t by (auto simp: TerminateRunningAttemptWithObservation_def and_then_Inr update_status_def Let_def filter_empty_conv split: if_splits)
    then have "map (\<lambda>b. if ?hit b then (b\<lparr>a_Status := rt_TargetStatus (exit_record a f at), a_UpdatedAt := 0\<rparr>) else b) (st_Attempts ?s) = st_Attempts ?s"
      by (intro map_idI) auto
    then show ?thesis using left by (auto simp: control_view_def intro!: exI [of _ 0])
  next
    case (ended k s1 o' s2)
    note s1 = ended(1) [unfolded t update_status_def Let_def] and s2 = append_validated_effect(1) [OF ended(2)]
    have "st_Sessions c = st_Sessions s2 \<and> st_Observations c = st_Observations s2 \<and> st_Attempts c = st_Attempts s2"
      using ended(3) by (auto simp: release_fences_def Let_def split: if_splits)
    moreover have "st_Sessions s1 = st_Sessions ?s \<and> st_Observations s1 = st_Observations ?s \<and>
        st_Attempts s1 = map (\<lambda>b. if ?hit b then (b\<lparr>a_Status := rt_TargetStatus (exit_record a f at), a_UpdatedAt := rt_At (exit_record a f at)\<rparr>) else b) (st_Attempts ?s)"
      using s1 by (auto split: if_splits)
    ultimately show ?thesis unfolding s2 by (intro conjI exI [of _ "rt_At (exit_record a f at)"]) (auto simp: control_view_def)
  qed
  then obtain g where c: "st_Sessions c = st_Sessions (db_Control db)" "set (st_Observations (db_Control db)) \<subseteq> set (st_Observations c)"
      "st_Attempts c = map (\<lambda>b. if ?hit b then (b\<lparr>a_Status := rt_TargetStatus (exit_record a f at), a_UpdatedAt := g\<rparr>) else b) (st_Attempts (db_Control db))"
    by (auto simp: control_view_def)
  show "calm db (db\<lparr>db_Control := c\<rparr>)" using t(1) c by (intro calm_control) (auto simp: c(3) split: if_splits)
  show "b \<in> set (st_Attempts c) \<Longrightarrow> a_ID b = a_ID a \<Longrightarrow> a_OutcomeID b = a_OutcomeID a \<Longrightarrow> a_Status b \<noteq> AttemptRunning"
    using t(1) by (auto simp: c(3) split: if_splits)
qed

lemma calmly_end: "calmly.keeps (end_if_terminated w a f)"
  unfolding end_if_terminated_def
  by (auto intro!: calmly.keeps_rules calmly_import calmly.keeps_control ended_record split: sum.split)

lemma calmly_one: "calmly.keeps (evaluate_one w a)"
  unfolding evaluate_one_def
  by (auto intro!: calmly.keeps_next calmly_renew calmly_end split: sum.split)

lemma calmly_all: "calmly.keeps (evaluate_all w as)"
  by (induction as) (auto intro!: calmly.keeps_next calmly_one)

text \<open>An evaluation without failures ends every attempt whose stop is known.\<close>

definition ended :: "outcome_db \<Rightarrow> attempt \<Rightarrow> bool" where
  "ended db a \<longleftrightarrow> (\<forall>b\<in>set (st_Attempts (db_Control db)). a_ID b = a_ID a \<and> a_OutcomeID b = a_OutcomeID a \<longrightarrow>
     a_Status b \<noteq> AttemptRunning)"

lemma ended_calm: "ended db a \<Longrightarrow> calm db db' \<Longrightarrow> ended db' a"
  unfolding ended_def calm_def by blast

lemma stop_known_calm: "calm db db' \<Longrightarrow> stop_known w db' aid \<Longrightarrow> stop_known w db aid"
  by (auto simp: stop_known_def calm_def heartbeatFacts_def LatestAttemptSessionRef_def)

lemma import_unmarked:
  assumes "importGovernedCheckUncertainty w aid sid s = (Inr b, t)" "\<not> marked_unknown w sid"
  shows "\<not> b \<and> t = s"
  using assms by (auto simp: importGovernedCheckUncertainty_def marked_unknown_def split: if_splits sum.splits option.splits)

lemma settled_one:
  assumes run: "evaluate_one w a s = ([], t)" and known: "stop_known w (sv_DB s) (a_ID a)"
  shows "ended (sv_DB t) a"
proof -
  obtain f where f: "heartbeatFacts w (a_ID a) (sv_DB s) = Inr f" "terminated f"
      "\<not> marked_unknown w (fa_SessionID f)" using known by (auto simp: stop_known_def)
  then have "\<not> alive w f" by (auto simp: alive_def terminated_def)
  then have "end_if_terminated w a f s = ([], t)"
    using run by (simp add: evaluate_one_def renew_if_alive_def action_defs f(1) split: prod.splits)
  then obtain x u where x: "importGovernedCheckUncertainty w (a_ID a) (fa_SessionID f) s = (x, u)"
    and rest: "(case x of Inl e \<Rightarrow> give [e] | Inr blocked \<Rightarrow> if blocked then give []
        else next_do (clock w) (\<lambda>at. next_do (fresh w) (\<lambda>obs.
             next_do (control (\<lambda>c. TerminateRunningAttemptWithObservation c obs (exit_record a f at))) (\<lambda>r.
               give (case r of Inl e \<Rightarrow> [e] | Inr _ \<Rightarrow> []))))) u = ([], t)"
    using f(2) unfolding end_if_terminated_def by (auto elim: next_do_split)
  have "x = Inr False" using x rest import_unmarked [OF _ f(3), of "a_ID a" s] by (cases x) (auto split: if_splits)
  with rest have "next_do (clock w) (\<lambda>at. next_do (fresh w) (\<lambda>obs.
             next_do (control (\<lambda>c. TerminateRunningAttemptWithObservation c obs (exit_record a f at))) (\<lambda>r.
               give (case r of Inl e \<Rightarrow> [e] | Inr _ \<Rightarrow> [])))) u = ([], t)" by simp
  then obtain obs at v q where "control (\<lambda>c. TerminateRunningAttemptWithObservation c obs (exit_record a f at)) v = (Inr q, t)"
    by (elim next_do_split) (auto simp: give_def split: sum.splits)
  then obtain r c where "TerminateRunningAttemptWithObservation (control_view (sv_DB v)) obs
      (exit_record a f at) = Inr (r, c)" "sv_DB t = (sv_DB v)\<lparr>db_Control := c\<rparr>"
    by (cases "TerminateRunningAttemptWithObservation (control_view (sv_DB v)) obs (exit_record a f at)") (auto simp: action_defs)
  then show ?thesis using ended_record(2) unfolding ended_def by auto
qed

lemma settled_all:
  "evaluate_all w as s = ([], t) \<Longrightarrow> a \<in> set as \<Longrightarrow> stop_known w (sv_DB t) (a_ID a) \<Longrightarrow> ended (sv_DB t) a"
proof (induction as arbitrary: s)
  case (Cons b as)
  then obtain u where one: "evaluate_one w b s = ([], u)" and all: "evaluate_all w as u = ([], t)"
    by (auto elim!: next_do_split)
  note calm = calmly.keepsD [OF calmly_one one] calmly.keepsD [OF calmly_all all]
  show ?case
  proof (cases "a \<in> set as")
    case False
    then have "stop_known w (sv_DB s) (a_ID b)" "a = b"
      using Cons.prems calm by (auto intro: stop_known_calm)
    then show ?thesis using settled_one [OF one] calm ended_calm by blast
  qed (rule Cons.IH [OF all _ Cons.prems(3)])
qed simp

end
