(* ===== verification/Service_Properties.thy ===== *)
theory Service_Properties
  imports Recovery_Laws
begin

text \<open>
  The promises of recovery, cancellation and liveness: custody moves under proof only, an unproven
  stop is refused and changes nothing, a cancellation needs the runtime's proof and keeps custody,
  and the evaluation of running attempts settles every attempt whose provider is known to have
  stopped.
\<close>

section \<open>A sample service\<close>

definition sample_bound_attempt :: attempt where
  "sample_bound_attempt = \<lparr>a_ID = ''a1'', a_OutcomeID = ''o1'', a_PlanRevisionID = ''p1'', a_WorkUnitID = ''u1'',
     a_Number = 1, a_Status = AttemptRunning, a_ContractRevisionNumber = 1, a_RunIntentGeneration = 1,
     a_RequestKey = ''k'', a_CreatedAt = 6, a_UpdatedAt = 7\<rparr>"

definition sample_bound_db :: outcome_db where
  "sample_bound_db = (empty_db (\<lambda>i. if i = ''s1'' then Some ''x'' else None))\<lparr>
     db_Outcomes := [\<lparr>o_ID = ''o1'', o_SpaceID = ''s1'', o_ParentID = [], o_Title = ''t'',
        o_CurrentRevisionNumber = 1, o_CreatedAt = 5, o_UpdatedAt = 5, or_Key = Some ''k''\<rparr>],
     db_Control := empty_store\<lparr>st_Attempts := [sample_bound_attempt],
       st_Sessions := [\<lparr>sr_ID = ''r1'', sr_AttemptID = ''a1'', sr_Seq = 1, sr_SessionID = ''s9'', sr_Harness = ''h'',
         sr_Mode = ''m'', sr_RunBriefCoreDigest = ''d1'', sr_RunBriefCompiledDigest = ''d2'',
         sr_AdmissionSnapshot = ''{}'', sr_BoundAt = 7\<rparr>],
       st_Fences := [\<lparr>af_ID = ''f1'', af_Subject = ''project:x'', af_AttemptID = ''a1'', af_IssuedAt = 6,
         af_LastRenewedAt = 7, af_ReleasedAt = zero_time, af_ReleaseReason = [], fr_Released = False\<rparr>]\<rparr>\<rparr>"

definition sample_session :: "bool \<Rightarrow> session_record" where
  "sample_session stopped = \<lparr>ss_ActivityState = ActivityOther [], ss_FirstSignalAt = zero_time, ss_LastActivityAt = zero_time,
     ss_IsTerminated = stopped, ss_ExitCode = None, ss_ExitReason = []\<rparr>"

definition numbered :: "nat \<Rightarrow> string" where "numbered n = replicate (n + 1) CHR ''i''"

definition sample_world :: "bool \<Rightarrow> world" where
  "sample_world stopped = \<lparr>wo_ID = numbered, wo_Clock = (\<lambda>n. 10 + int n), wo_Wall = 9, wo_StaleHeartbeat = 0,
     wo_Session = (\<lambda>_. Inr (Some (sample_session stopped))), wo_Uncertainty = (\<lambda>_. Inr None),
     wo_Terminate = (\<lambda>_ _. Inr \<lparr>sp_ProviderStopped = True, sp_WorkspaceFreed = True\<rparr>),
     wo_Boundary = (\<lambda>_. Inr []), wo_Stamp = (\<lambda>_. []), wo_Text = (\<lambda>_. ''e''), wo_Sha = (\<lambda>_. ''v'')\<rparr>"

definition sample_service :: service_state where
  "sample_service = \<lparr>sv_DB = sample_bound_db, sv_Draws = 0\<rparr>"

section \<open>Custody moves under proof\<close>

text \<open>C35: A recovery command takes custody from no attempt but the one it names, only when it
  reconciles or replaces, and only when that attempt succeeded with a frozen complete receipt, the
  owner asserted that the provider stopped, or the bound session is durably terminated with no
  approved check of unknown termination.\<close>

theorem custody_release_justified:
  assumes run: "RecoverAttempt w oid aid verb confirmed s = (r, s')"
    and lost: "\<not> custody_kept x (sv_DB s) (sv_DB s')"
  shows "x = aid \<and> verb \<in> {RecoveryActionReconcile, RecoveryActionReplace} \<and>
    (\<exists>a. GetAttempt (db_Control (sv_DB s)) oid aid = Some a \<and>
       (if a_Status a = AttemptSucceeded
        then \<exists>p. GetAttemptReceipt (db_Control (sv_DB s)) aid = Some p \<and> Receipt_Frozen p \<and>
                 RetentionState_Complete (rp_RetentionState p)
        else confirmed \<or> stop_known w (sv_DB s) aid))"
proof -
  have valid: "RecoveryAction_Valid verb"
    using run lost by (auto simp: RecoverAttempt_def custody_kept_def split: if_splits)
  then obtain a o' where a: "requireAttempt oid aid (sv_DB s) = Inr (a, o')"
      and body: "(case verb of RecoveryActionContain \<Rightarrow> containAttempt w a
        | RecoveryActionReconcile \<Rightarrow> reconcileAttempt w a confirmed
        | RecoveryActionReplace \<Rightarrow> recoveryReplace w a confirmed
        | RecoveryActionAttention \<Rightarrow> recoveryAttention w a
        | RecoveryActionOther k \<Rightarrow> give (Inl (Invalid ''RECOVERY_ACTION_INVALID''))) s = (r, s')"
    using run unfolding RecoverAttempt_def by (auto elim!: kept_read [OF _ lost])
  have found: "GetAttempt (db_Control (sv_DB s)) oid aid = Some a"
    using a by (auto simp: requireAttempt_def split: option.splits)
  then have aid: "a_ID a = aid" by (auto simp: GetAttempt_def dest: find_SomeD)
  have verb: "verb \<in> {RecoveryActionReconcile, RecoveryActionReplace}"
    using body valid lost kept.keepsD [OF kept_contain(1), of w a s r s' x]
      kept.keepsD [OF kept_contain(2), of w a s r s' x] by (cases verb) auto
  have x: "x = aid"
    using body verb lost aid kept.keepsD [OF kept_recovery_other(1), of x a w confirmed s r s']
      kept.keepsD [OF kept_recovery_other(2), of x a w confirmed s r s'] by (cases "x = aid") auto
  show ?thesis
  proof (cases "a_Status a = AttemptSucceeded")
    case True
    then have "accountSucceededCustody w a s = (r, s')"
      using body verb by (auto simp: reconcileAttempt_def recoveryReplace_def)
    then show ?thesis using succeeded_released [OF _ lost] True found verb x aid by auto
  next
    case False
    obtain f where f: "heartbeatFacts w aid (sv_DB s) = Inr f"
      and proven: "confirmed \<or> terminated f \<and> \<not> check_unknown (sv_DB s) aid \<and> \<not> marked_unknown w (fa_SessionID f)"
    proof (cases "verb = RecoveryActionReplace")
      case True
      then show thesis using body False that aid unfolding recoveryReplace_def
        by (auto elim!: kept_read [OF _ lost] dest!: released_under_proof [OF _ lost])
    next
      case other: False
      then have "reconcileAttempt w a confirmed s = (r, s')" using body verb by auto
      then obtain f where f: "heartbeatFacts w aid (sv_DB s) = Inr f"
        and "(if a_Status a = AttemptRunning \<and> alive w f
              then try_do (recordReceipt w (a_ID a) RecoveryResumed
                     (evidence ''bound session present, signalled, not terminated'')) (\<lambda>r. recovered w a (Some r))
              else with_stop_proof w a confirmed f (\<lambda>p.
                if a_Status a \<in> set [AttemptFailed, AttemptCancelled, AttemptReconciled]
                then accountTerminalCustody w a (cu_Reason p)
                else forceLost w a RecoveryReplacement
                       (''reconcile could not prove liveness; provider stop '' @ cu_Reason p))) s = (r, s')"
        using False aid unfolding reconcileAttempt_def by (auto elim!: kept_read [OF _ lost])
      then show thesis using that aid lost kept.keepsD [OF kept_resumed]
        by (auto dest!: released_under_proof [OF _ lost] split: if_splits)
    qed
    then show ?thesis using False found verb x by (auto simp: stop_known_def)
  qed
qed


lemma sample_held: "holds_custody (sv_DB sample_service) ''a1''"
  by code_simp

lemma sample_replaced:
  "\<not> holds_custody (sv_DB (snd (RecoverAttempt (sample_world True) ''o1'' ''a1'' RecoveryActionReplace False sample_service))) ''a1''"
  by code_simp

lemma sample_found: "GetAttempt (db_Control sample_bound_db) ''o1'' ''a1'' = Some sample_bound_attempt"
  by code_simp

lemma custody_release_justified_witness:
  "GetAttempt (db_Control sample_bound_db) ''o1'' ''a1'' = Some sample_bound_attempt \<and>
   stop_known (sample_world True) sample_bound_db ''a1''"
proof -
  let ?run = "RecoverAttempt (sample_world True) ''o1'' ''a1'' RecoveryActionReplace False sample_service"
  obtain r s' where run: "?run = (r, s')" by (cases ?run)
  have lost: "\<not> custody_kept ''a1'' (sv_DB sample_service) (sv_DB s')"
    using sample_held sample_replaced by (simp add: run custody_kept_def)
  have "sv_DB sample_service = sample_bound_db" "a_Status sample_bound_attempt \<noteq> AttemptSucceeded"
    by (simp_all add: sample_service_def sample_bound_attempt_def)
  then show ?thesis using custody_release_justified [OF run lost] sample_found by auto
qed

text \<open>C36: Reconciling or replacing an attempt that did not succeed, whose provider does not look
  alive and is not known to have stopped, without the owner's assertion, is an error, and neither
  the status nor the custody of any attempt changes.\<close>

theorem unproven_stop_refused:
  assumes "RecoverAttempt w oid aid verb False s = (r, s')"
    "verb \<in> {RecoveryActionReconcile, RecoveryActionReplace}"
    "GetAttempt (db_Control (sv_DB s)) oid aid = Some a" "a_Status a \<noteq> AttemptSucceeded"
    "\<forall>f. heartbeatFacts w aid (sv_DB s) = Inr f \<longrightarrow> \<not> alive w f"
    "\<not> stop_known w (sv_DB s) aid"
  shows "(\<exists>e. r = Inl e) \<and> left_alone x (sv_DB s) (sv_DB s')"
proof (cases "requireAttempt oid aid (sv_DB s)")
  case (Inl e)
  then show ?thesis using assms(1,2) by (auto simp: RecoverAttempt_def action_defs left_alone_def)
next
  case (Inr p)
  then have p: "fst p = a" using assms(3) by (auto simp: requireAttempt_def split: option.splits)
  then have aid: "a_ID a = aid" using assms(3) by (auto simp: GetAttempt_def dest: find_SomeD)
  show ?thesis
  proof (cases "heartbeatFacts w aid (sv_DB s)")
    case (Inl e)
    then show ?thesis using assms(1,2,4) Inr p aid
      by (auto simp: RecoverAttempt_def reconcileAttempt_def recoveryReplace_def action_defs left_alone_def
          split: prod.splits)
  next
    case f: (Inr f)
    then have "\<exists>verdict. with_stop_proof w a False f verdict s = (r, s')"
      using assms(1,2,4,5) Inr p aid
      by (auto simp: RecoverAttempt_def reconcileAttempt_def recoveryReplace_def try_do_def next_do_def reading_def
          split: prod.splits)
    moreover have "\<not> (terminated f \<and> \<not> check_unknown (sv_DB s) (a_ID a) \<and> \<not> marked_unknown w (fa_SessionID f))"
      using assms(6) f aid by (auto simp: stop_known_def)
    ultimately show ?thesis using unproven_refused by blast
  qed
qed

lemma unproven_stop_refused_witness:
  "isl (fst (RecoverAttempt (sample_world False) ''o1'' ''a1'' RecoveryActionReplace False sample_service))"
proof -
  let ?w = "sample_world False"
  let ?run = "RecoverAttempt ?w ''o1'' ''a1'' RecoveryActionReplace False sample_service"
  obtain r s' where run: "?run = (r, s')" by (cases ?run)
  have found: "GetAttempt (db_Control (sv_DB sample_service)) ''o1'' ''a1'' = Some sample_bound_attempt" by code_simp
  obtain f where f: "heartbeatFacts ?w ''a1'' (sv_DB sample_service) = Inr f" "\<not> alive ?w f" "\<not> terminated f"
  proof -
    have "\<not> isl (heartbeatFacts ?w ''a1'' (sv_DB sample_service))"
      "\<not> alive ?w (projr (heartbeatFacts ?w ''a1'' (sv_DB sample_service)))"
      "\<not> terminated (projr (heartbeatFacts ?w ''a1'' (sv_DB sample_service)))" by code_simp+
    then show thesis using that by (cases "heartbeatFacts ?w ''a1'' (sv_DB sample_service)") auto
  qed
  have "a_Status sample_bound_attempt \<noteq> AttemptSucceeded" by code_simp
  then show ?thesis
    using unproven_stop_refused [OF run _ found, of "''a1''"] f by (auto simp: run stop_known_def)
qed

section \<open>Cancellation\<close>

lemma kept_CancelAttempt: "kept.keeps x (CancelAttempt w oid aid)"
  unfolding CancelAttempt_def stop_refused_def refused_after_def Let_def
  by (auto intro!: kept.keeps_next kept.keeps_try kept.keeps_passing kept_shared kept_transition
      split: if_split prod.split option.split sum.split)

lemma alone_stop_refused: "alone.keeps x (stop_refused w aid e sid)"
  unfolding stop_refused_def refused_after_def Let_def
  by (intro alone.keeps_next alone_observe alone_recordReceipt) simp

text \<open>C37: A cancellation never moves custody, and it changes no attempt unless the attempt it names
  is live and the runtime proved that its latest session stopped.\<close>

theorem cancel_needs_stop:
  assumes run: "CancelAttempt w oid aid s = (r, s')"
  shows "custody_kept x (sv_DB s) (sv_DB s') \<and>
    (left_alone x (sv_DB s) (sv_DB s') \<or>
     (\<exists>a ref project stop. GetAttempt (db_Control (sv_DB s)) oid aid = Some a \<and> live (a_Status a) \<and>
        LatestAttemptSessionRef (db_Control (sv_DB s)) aid = Some ref \<and>
        wo_Terminate w project (sr_SessionID ref) = Inr stop \<and> sp_ProviderStopped stop))"
proof
  show "custody_kept x (sv_DB s) (sv_DB s')" by (rule kept.keepsD [OF kept_CancelAttempt run])
  let ?proven = "\<exists>a ref project stop. GetAttempt (db_Control (sv_DB s)) oid aid = Some a \<and> live (a_Status a) \<and>
        LatestAttemptSessionRef (db_Control (sv_DB s)) aid = Some ref \<and>
        wo_Terminate w project (sr_SessionID ref) = Inr stop \<and> sp_ProviderStopped stop"
  show "left_alone x (sv_DB s) (sv_DB s') \<or> ?proven"
  proof (rule disjCI)
    assume unproven: "\<not> ?proven"
    show "left_alone x (sv_DB s) (sv_DB s')"
    proof (cases "requireAttempt oid aid (sv_DB s)")
      case (Inl e)
      then show ?thesis using run by (auto simp: CancelAttempt_def action_defs left_alone_def)
    next
      case (Inr p)
      obtain a o' where p: "p = (a, o')" by (cases p)
      then have found: "GetAttempt (db_Control (sv_DB s)) oid aid = Some a"
        using Inr by (auto simp: requireAttempt_def split: option.splits)
      show ?thesis
      proof (cases "live (a_Status a) \<and> LatestAttemptSessionRef (db_Control (sv_DB s)) aid \<noteq> None")
        case False
        then show ?thesis using run Inr p
          by (auto simp: CancelAttempt_def action_defs left_alone_def split: if_splits option.splits)
      next
        case True
        then obtain ref where ref: "LatestAttemptSessionRef (db_Control (sv_DB s)) aid = Some ref" by auto
        obtain e where "proven_stop (wo_Terminate w (case GetOutcomeProjectID (sv_DB s) oid of None \<Rightarrow> [] | Some p \<Rightarrow> p)
            (sr_SessionID ref)) = Inl e"
          using unproven found True ref by (force simp: proven_stop_def split: sum.splits if_splits)
        then have "stop_refused w aid e (sr_SessionID ref) s = (r, s')"
          using run Inr p True ref
          by (simp add: CancelAttempt_def stop_refused_def try_do_def [of "reading g" for g] next_do_def [of "reading g" for g] reading_def)
        then show ?thesis by (rule alone.keepsD [OF alone_stop_refused])
      qed
    qed
  qed
qed

lemma sample_cancel_changes:
  "attempt_rows (sv_DB (snd (CancelAttempt (sample_world True) ''o1'' ''a1'' sample_service))) ''a1'' \<noteq>
     attempt_rows sample_bound_db ''a1''"
  by code_simp

lemma cancel_needs_stop_witness:
  "custody_kept ''a1'' sample_bound_db
     (sv_DB (snd (CancelAttempt (sample_world True) ''o1'' ''a1'' sample_service))) \<and>
   \<not> left_alone ''a1'' sample_bound_db
     (sv_DB (snd (CancelAttempt (sample_world True) ''o1'' ''a1'' sample_service)))"
proof
  let ?run = "CancelAttempt (sample_world True) ''o1'' ''a1'' sample_service"
  have db: "sv_DB sample_service = sample_bound_db" by (simp add: sample_service_def)
  obtain r s' where run: "?run = (r, s')" by (cases ?run)
  show "custody_kept ''a1'' sample_bound_db (sv_DB (snd ?run))"
    using conjunct1 [OF cancel_needs_stop [OF run, of "''a1''"]] unfolding run by (simp add: db)
  show "\<not> left_alone ''a1'' sample_bound_db (sv_DB (snd ?run))"
    using sample_cancel_changes by (simp add: left_alone_def)
qed

section \<open>Liveness of running attempts\<close>

text \<open>C38: When the evaluation of running attempts returns without an error, no attempt is left
  running whose provider is known to have stopped.\<close>

theorem evaluation_settles_ended:
  assumes run: "EvaluateAttemptLiveness w s = (Inr (), s')"
    and a: "a \<in> set (st_Attempts (db_Control (sv_DB s')))" "stop_known w (sv_DB s') (a_ID a)"
  shows "a_Status a \<noteq> AttemptRunning"
proof
  assume running: "a_Status a = AttemptRunning"
  let ?as = "ListAttemptsByStatus (db_Control (sv_DB s)) AttemptRunning"
  from run have all: "evaluate_all w ?as s = ([], s')"
    by (auto simp: EvaluateAttemptLiveness_def joined_failures_def next_do_def reading_def give_def
        split: prod.splits list.splits)
  from calmly.keepsD [OF calmly_all all] running a(1) have "a \<in> set ?as"
    by (auto simp: calm_def ListAttemptsByStatus_def)
  then have "ended (sv_DB s') a" using settled_all [OF all] a(2) by blast
  then show False using a(1) running by (auto simp: ended_def)
qed

definition sample_evaluation :: "(api_error + unit) \<times> service_state" where
  "sample_evaluation = EvaluateAttemptLiveness (sample_world True) sample_service"

lemma sample_evaluation_rows:
  "map a_Status (st_Attempts (db_Control (sv_DB (snd sample_evaluation)))) = [AttemptReconciled] \<and>
   map a_ID (st_Attempts (db_Control (sv_DB (snd sample_evaluation)))) = [''a1'']"
  by code_simp

lemma sample_evaluation_returned: "fst sample_evaluation = Inr ()"
  by code_simp

lemma sample_evaluation_facts:
  "case heartbeatFacts (sample_world True) ''a1'' (sv_DB (snd sample_evaluation)) of Inl _ \<Rightarrow> False
     | Inr f \<Rightarrow> terminated f \<and> \<not> marked_unknown (sample_world True) (fa_SessionID f)"
  by code_simp

lemma sample_evaluation_known: "\<not> check_unknown (sv_DB (snd sample_evaluation)) ''a1''"
  by code_simp

lemma evaluation_settles_ended_witness:
  "\<exists>a. st_Attempts (db_Control (sv_DB (snd sample_evaluation))) = [a] \<and> a_ID a = ''a1'' \<and> a_Status a \<noteq> AttemptRunning"
proof -
  let ?w = "sample_world True" and ?s = "snd sample_evaluation"
  have run: "EvaluateAttemptLiveness ?w sample_service = (Inr (), ?s)"
    using sample_evaluation_returned unfolding sample_evaluation_def by (metis prod.collapse)
  obtain a where a: "st_Attempts (db_Control (sv_DB ?s)) = [a]" "a_ID a = ''a1''"
    using sample_evaluation_rows by auto
  have "stop_known ?w (sv_DB ?s) (a_ID a)"
    using sample_evaluation_facts sample_evaluation_known unfolding stop_known_def a(2) by (auto split: sum.splits)
  then have "a_Status a \<noteq> AttemptRunning" using a(1) by (intro evaluation_settles_ended [OF run]) auto
  then show ?thesis using a by blast
qed

end
