(* ===== verification/Outcome_Reads.thy ===== *)
theory Outcome_Reads
  imports Outcome_Store Handoff
begin

text \<open>
  What the commands read of the outcome database before they decide: the proof projection with its
  delegated criteria (service/outcome/proof.go), the start gate of a contributor (gating.go), the
  current contract and the authority checks of a plan (plan.go), the standing correction
  (run_state.go), the run intent (run_intent.go) and the serial scheduler (scheduler.go).
\<close>

section \<open>Proof\<close>

definition child_accepted :: "outcome_db \<Rightarrow> outcome list \<Rightarrow> ident \<Rightarrow> bool" where
  "child_accepted db children c =
     (c \<in> set (map o_ID children) \<and> LatestDecisionAccepts (ListAcceptanceDecisions db c))"

definition child_title :: "outcome list \<Rightarrow> ident \<Rightarrow> string" where
  "child_title children c =
     (case find (\<lambda>r. o_ID r = c) (rev children) of None \<Rightarrow> [] | Some r \<Rightarrow> o_Title r)"

definition delegatedCriteria :: "outcome_db \<Rightarrow> outcome_view \<Rightarrow> ident \<Rightarrow> delegated_criterion option" where
  "delegatedCriteria db view =
     (let parent = o_ID (ov_Outcome view); children = ListContributingOutcomes db parent in
      if children = [] then (\<lambda>_. None)
      else DelegatedCriteria (ov_Current view) (ListContributionLinksForParent db parent)
             (child_accepted db children) (child_title children))"

definition GetProof :: "outcome_db \<Rightarrow> ident \<Rightarrow> api_error + proof_view" where
  "GetProof db oid = and_then (Service_Get db oid) (\<lambda>view.
     Inr (deriveProof view (ListEvidenceItems db oid) (ListVerificationRuns db oid)
            (ListAcceptanceDecisions db oid) (ListOutcomeCorrections db oid) (delegatedCriteria db view)))"

section \<open>The start gate of a contributor\<close>

definition CodeContributionBlocked :: string where "CodeContributionBlocked = ''CONTRIBUTION_BLOCKED''"

definition acceptedContributors :: "outcome_db \<Rightarrow> decomposition_revision \<Rightarrow> ident \<Rightarrow> bool" where
  "acceptedContributors db d c =
     (\<not> blank c \<and> c \<in> set (map pc_ChildOutcomeID (de_Contributors d)) \<and>
      LatestDecisionAccepts (ListAcceptanceDecisions db c))"

definition startGateFor :: "outcome_db \<Rightarrow> outcome \<Rightarrow> start_gate" where
  "startGateFor db child =
     (if \<not> IsContributing child then open_gate
      else case LatestDecompositionRevision db (o_ParentID child) of
        None \<Rightarrow> open_gate
      | Some d \<Rightarrow>
          if de_Status d \<noteq> DecompositionAuthorized then open_gate
          else DeriveContributionStartGate (o_ID child) d (ListContributionDependencyWaivers db (de_ID d))
                 (acceptedContributors db d))"

section \<open>The current contract and the authority of a plan\<close>

definition currentRevision :: "outcome_db \<Rightarrow> outcome \<Rightarrow> api_error + contract_revision" where
  "currentRevision db r =
     (case find (\<lambda>c. cr_Number c = o_CurrentRevisionNumber r) (ListContractRevisions db (o_ID r)) of
        Some c \<Rightarrow> Inr c
      | None \<Rightarrow> Inl (Failure (Errorf ''outcome %s points at missing revision %d''
                  [Str (o_ID r), Num (o_CurrentRevisionNumber r)])))"

definition contractCapabilityCeiling :: "contract_revision \<Rightarrow> string list" where
  "contractCapabilityCeiling r =
     (let c = cr_AuthorityCeiling r in
      (if ReadWorkspace c \<or> WriteWorkspace c \<or> ExecuteLocal c then [CapabilityWorktreeRead] else []) @
      (if WriteWorkspace c then [CapabilityWorktreeWrite] else []) @
      (if ExecuteLocal c then [CapabilityWorktreeExec] else []))"

definition validateWorkUnitWithinContractCeiling :: "contract_revision \<Rightarrow> work_unit \<Rightarrow> api_error option" where
  "validateWorkUnitWithinContractCeiling r u =
     (let allowed = contractCapabilityCeiling r;
          missing = filter (\<lambda>c. c \<notin> set allowed) (wu_RequiredCapabilities u)
      in if missing = [] then None
         else if allowed = [] then Some (Conflict ''PLAN_AUTHORITY_REQUIRED'')
         else Some (Conflict ''PLAN_AUTHORITY_INSUFFICIENT''))"

text \<open>The policy layers of the daemon; with none, the three capabilities of a worktree.\<close>

definition authoritativeCapabilities :: "string list list \<Rightarrow> string list" where
  "authoritativeCapabilities layers =
     (if layers = [] then [CapabilityWorktreeRead, CapabilityWorktreeWrite, CapabilityWorktreeExec]
      else AuthorityIntersection layers)"

definition authorizeCapabilities ::
  "string list list \<Rightarrow> contract_revision \<Rightarrow> capability_grant list \<Rightarrow> work_unit list \<Rightarrow> api_error option" where
  "authorizeCapabilities layers r grants units = first_error
     [each_elem (validateWorkUnitWithinContractCeiling r) units,
      refuse (ValidateExactPlanCapabilityGrants grants units \<noteq> None) (Invalid ''PLAN_CAPABILITY_NOT_MINIMAL''),
      refuse (GrantsFailClosed grants (authoritativeCapabilities layers) \<noteq> None)
        (Conflict ''PLAN_CAPABILITY_UNAUTHORIZED'')]"

definition CodeAttemptCapabilityUnauthorized :: string where
  "CodeAttemptCapabilityUnauthorized = ''ATTEMPT_CAPABILITY_UNAUTHORIZED''"

definition authorizeAttemptCapabilities ::
  "string list list \<Rightarrow> contract_revision \<Rightarrow> plan_revision \<Rightarrow> api_error option" where
  "authorizeAttemptCapabilities layers r p = first_error
     [refuse (each_elem (validateWorkUnitWithinContractCeiling r) (pr_WorkUnits p) \<noteq> None)
        (Conflict CodeAttemptCapabilityUnauthorized),
      refuse (ValidateExactPlanCapabilityGrants (pr_Grants p) (pr_WorkUnits p) \<noteq> None)
        (Invalid CodeAttemptCapabilityUnauthorized),
      refuse (GrantsFailClosed (pr_Grants p) (authoritativeCapabilities layers) \<noteq> None)
        (Conflict CodeAttemptCapabilityUnauthorized)]"

section \<open>The standing correction and the run intent\<close>

definition CodeCorrectionRevisionRequired :: string where
  "CodeCorrectionRevisionRequired = ''CORRECTION_REVISION_REQUIRED''"
definition CodeRunActionUnavailable :: string where "CodeRunActionUnavailable = ''RUN_ACTION_UNAVAILABLE''"

definition correctionRequiringRevision :: "proof_view \<Rightarrow> plan_revision option \<Rightarrow> reentry_target option" where
  "correctionRequiringRevision proof plan =
     (case pv_ActiveCorrection proof of
        None \<Rightarrow> None
      | Some c \<Rightarrow>
          (case co_TargetType c of
             ReentryTargetContract \<Rightarrow> Some ReentryTargetContract
           | ReentryTargetPlan \<Rightarrow> (case plan of
               None \<Rightarrow> None
             | Some p \<Rightarrow> if co_TargetID c = pr_ID p then Some ReentryTargetPlan else None)
           | _ \<Rightarrow> None))"

definition refuseExecutionAgainstCorrection :: "outcome_db \<Rightarrow> ident \<Rightarrow> api_error + unit" where
  "refuseExecutionAgainstCorrection db oid = and_then (GetProof db oid) (\<lambda>proof.
     if pv_ActiveCorrection proof = None then Inr ()
     else require (correctionRequiringRevision proof (GetLatestPlanRevision db oid) = None)
            (Conflict CodeCorrectionRevisionRequired))"

definition refuseAdmissionAgainstRunIntent :: "outcome_db \<Rightarrow> ident \<Rightarrow> api_error + int" where
  "refuseAdmissionAgainstRunIntent db oid =
     (case CurrentRunIntent (st_Intents (db_Control db)) oid of
        None \<Rightarrow> Inr 0
      | Some i \<Rightarrow>
          if ri_Desired i = RunPaused \<or> ri_Desired i = RunCancelled
          then Inl (Conflict CodeRunActionUnavailable)
          else Inr (ri_Generation i))"

section \<open>The scheduler\<close>

definition CodePlanNotApproved :: string where "CodePlanNotApproved = ''PLAN_NOT_APPROVED''"
definition CodePlanBriefInvalidated :: string where "CodePlanBriefInvalidated = ''PLAN_BRIEF_INVALIDATED''"

definition passing_failure :: "error + 'a \<Rightarrow> api_error + 'a" where
  "passing_failure r = (case r of Inl e \<Rightarrow> Inl (Failure e) | Inr x \<Rightarrow> Inr x)"

lemma passing_failure_Inr: "passing_failure r = Inr x \<longleftrightarrow> r = Inr x"
  by (cases r) (auto simp: passing_failure_def)

definition outcome_or_missing :: "outcome_db \<Rightarrow> ident \<Rightarrow> api_error + outcome" where
  "outcome_or_missing db oid =
     (case GetOutcome db oid of None \<Rightarrow> Inl (NotFound ''OUTCOME_NOT_FOUND'') | Some r \<Rightarrow> Inr r)"

definition plan_or_missing :: "outcome_db \<Rightarrow> ident \<Rightarrow> ident \<Rightarrow> api_error + plan_revision" where
  "plan_or_missing db oid pid =
     (case GetPlanRevision db oid pid of None \<Rightarrow> Inl (NotFound ''PLAN_NOT_FOUND'') | Some p \<Rightarrow> Inr p)"

definition GetSchedule ::
  "(string \<Rightarrow> string) \<Rightarrow> outcome_db \<Rightarrow> ident \<Rightarrow> ident \<Rightarrow> api_error + schedule_view" where
  "GetSchedule sha db oid pid =
     and_then (outcome_or_missing db oid) (\<lambda>r.
     and_then (plan_or_missing db oid pid) (\<lambda>plan.
     if pr_Status plan \<noteq> PlanApproved then Inl (Conflict CodePlanNotApproved)
     else if \<not> BindsCurrentContract plan (o_CurrentRevisionNumber r) then Inl (Conflict CodePlanBriefInvalidated)
     else let attempts = ListAttempts (db_Control db) oid in
       and_then (GetProof db oid) (\<lambda>proof.
       passing_failure (deriveSchedule plan attempts proof
         (upstreamArtifactBlocks sha (db_Control db) plan attempts)))))"

definition selected_unit :: "outcome_db \<Rightarrow> ident \<Rightarrow> plan_revision \<Rightarrow> ident \<Rightarrow> api_error + work_unit" where
  "selected_unit db oid plan requested = and_then (GetProof db oid) (\<lambda>proof.
     selectWorkUnitForAttempt plan (ListAttempts (db_Control db) oid) proof requested)"

end
