(* ===== verification/Run_Brief.thy ===== *)
theory Run_Brief
  imports Plan_Approval Proof_View Go_Json_Text
begin

text \<open>
  What an admitted attempt is launched with (service/outcome/attempt.go): the prompt that renders
  the exact approved text of the contract and the work unit, the JSON of the execution policy
  with its digest (domain/execution_policy.go), and the digest of the compiled brief.
\<close>

section \<open>The prompt\<close>

definition newline :: string where "newline = [CHR 0x0A]"

definition line :: "string \<Rightarrow> string" where "line s = s @ newline"

definition bullets :: "string list \<Rightarrow> string" where
  "bullets xs = concat (map (\<lambda>x. line (''- '' @ x)) xs)"

definition writeExactRunBriefValue :: "string \<Rightarrow> string" where
  "writeExactRunBriefValue v = (if v \<noteq> [] \<and> last v = CHR 0x0A then v else line v)"

text \<open>The first criterion of the contract for every assigned identifier, and the identifiers that
  the contract does not have.\<close>

fun assigned_criteria ::
  "ident list \<Rightarrow> contract_criterion list \<Rightarrow> contract_criterion list \<times> ident list" where
  "assigned_criteria ids [] = ([], ids)"
| "assigned_criteria ids (c # cs) =
     (if cc_ID c \<in> set ids
      then (let (xs, rest) = assigned_criteria (removeAll (cc_ID c) ids) cs in (c # xs, rest))
      else assigned_criteria ids cs)"

definition prompt_criterion :: "contract_criterion \<Rightarrow> string" where
  "prompt_criterion c = line (''Criterion '' @ cc_ID c @ '':'') @ writeExactRunBriefValue (cc_Text c)"

definition prompt_argument :: "nat \<times> string \<Rightarrow> string" where
  "prompt_argument p = line (''- argv['' @ decimal_nat (fst p) @ ''] exact value:'') @
     writeExactRunBriefValue (snd p)"

definition prompt_check :: "approved_check \<Rightarrow> string" where
  "prompt_check c =
     line (''Check '' @ ac_ID c @ '' for criterion '' @ ac_CriterionID c @ '':'') @
     line ''- working directory: isolated worktree root'' @
     line (''- timeout seconds: '' @ decimal (ac_TimeoutSeconds c)) @
     concat (map prompt_argument (enumerate 0 (ac_Argv c)))"

definition prompt_checks :: "approved_check list \<Rightarrow> string" where
  "prompt_checks cs =
     (if cs = [] then []
      else line (newline @ ''Approved executable checks:'') @
           line ''Kennel, not this worker, decides which exact commands are executable.'' @
           line ''Kennel will run this exact approved check after the provider terminates, under the daemon-owned Attempt/check/artifact reservation. Do not reconstruct or run it through a provider tool.'' @
           concat (map prompt_check cs))"

definition prompt_text :: "contract_revision \<Rightarrow> work_unit \<Rightarrow> contract_criterion list \<Rightarrow> string" where
  "prompt_text r u criteria =
     line (line ''Execute the following approved WorkUnit inside your isolated worktree.'') @
     line ''Frozen attribution:'' @
     line (''- Contract revision: '' @ cr_ID r @ '' (revision '' @ decimal (cr_Number r) @ '')'') @
     line (line (''- WorkUnit: '' @ wu_ID u)) @
     line (''Goal: '' @ cr_Goal r) @
     line (''WorkUnit title: '' @ wu_Title u) @
     line (''Expected output: '' @ wu_OutputSummary u) @
     line (newline @ ''Assigned Contract criteria (exact approved text):'') @
     concat (map prompt_criterion criteria) @
     line ''Contract review method (exact approved text):'' @
     writeExactRunBriefValue (cr_Review r) @
     line ''Evidence checks:'' @ bullets (wu_EvidenceChecks u) @
     line (''Verification: '' @ wu_VerificationRequirement u) @
     prompt_checks (wu_Checks u) @
     line (newline @ ''Use only the governed repository tools Kennel exposes for repository reads, writes, and approved checks. If a required operation is not exposed, stop and report the exact missing affordance.'') @
     (if wu_StopConditions u = [] then [] else line ''Stop conditions:'' @ bullets (wu_StopConditions u)) @
     (if cr_Constraints r = [] then [] else line ''Constraints:'' @ bullets (cr_Constraints r)) @
     line (newline @ ''Report completion honestly; provider completion is not final acceptance.'')"

definition renderRunBriefPrompt :: "contract_revision \<Rightarrow> work_unit \<Rightarrow> error + string" where
  "renderRunBriefPrompt r u =
     (let (criteria, absent) = assigned_criteria (wu_CriterionIDs u) (cr_Criteria r) in
      if absent \<noteq> []
      then Inl (Errorf ''WorkUnit references criteria absent from Contract revision %s: %s''
             [Str (cr_ID r), Str (joined (sorted_keys absent))])
      else Inr (prompt_text r u criteria))"

section \<open>The digests\<close>

definition strings_json :: "string list \<Rightarrow> json" where
  "strings_json xs = JArr (map JStr xs)"

definition grant_json :: "capability_grant \<Rightarrow> json" where
  "grant_json g = JObj [(''ID'', JStr (cg_ID g)), (''Name'', JStr (cg_Name g)), (''Scope'', JStr (cg_Scope g))]"

definition check_json :: "approved_check \<Rightarrow> json" where
  "check_json c = JObj [(''ID'', JStr (ac_ID c)), (''CriterionID'', JStr (ac_CriterionID c)),
     (''Argv'', strings_json (ac_Argv c)), (''TimeoutSeconds'', JNum (ac_TimeoutSeconds c))]"

definition policy_json :: "execution_policy \<Rightarrow> json" where
  "policy_json p = JObj
     ([(''outcomeId'', JStr (ep_OutcomeID p)), (''planRevisionId'', JStr (ep_PlanRevisionID p)),
       (''workUnitId'', JStr (ep_WorkUnitID p)),
       (''contractRevisionNumber'', JNum (ep_ContractRevisionNumber p)),
       (''runBriefCoreDigest'', JStr (ep_RunBriefCoreDigest p))] @
      (if ep_WorkspaceRoot p = [] then [] else [(''workspaceRoot'', JStr (ep_WorkspaceRoot p))]) @
      [(''requiredCapabilities'', strings_json (ep_RequiredCapabilities p)),
       (''grants'', JArr (map grant_json (ep_Grants p)))] @
      (if ep_ApprovedChecks p = [] then []
       else [(''approvedChecks'', JArr (map check_json (ep_ApprovedChecks p)))]))"

definition ExecutionPolicy_Digest :: "(string \<Rightarrow> string) \<Rightarrow> execution_policy \<Rightarrow> error + string" where
  "ExecutionPolicy_Digest sha p =
     (case ExecutionPolicy_Validate p of Some e \<Rightarrow> Inl e | None \<Rightarrow> Inr (sha (json_marshal (policy_json p))))"

definition model_selection_name :: "model_selection \<Rightarrow> string" where
  "model_selection_name s = (case s of MsEmpty \<Rightarrow> [] | MsProviderDefault \<Rightarrow> ''provider_default''
     | MsExplicit \<Rightarrow> ''explicit'' | MsHistoricalUnbound \<Rightarrow> ''historical_unbound'' | MsOther k \<Rightarrow> k)"

fun comma_joined :: "string list \<Rightarrow> string" where
  "comma_joined [] = []"
| "comma_joined [x] = x"
| "comma_joined (x # xs) = x @ '','' @ comma_joined xs"

definition computeCompiledBriefDigest ::
  "(string \<Rightarrow> string) \<Rightarrow> execution_binding \<Rightarrow> string \<Rightarrow> string \<Rightarrow> string \<Rightarrow> string list \<Rightarrow> string" where
  "computeCompiledBriefDigest sha b mode core policy_digest versions =
     sha (''v3|'' @ eb_Provider b @ ''|'' @ model_selection_name (eb_ModelSelection b) @ ''|'' @ eb_Model b @
          ''|'' @ mode @ ''|'' @ core @ ''|'' @ policy_digest @ ''|'' @ comma_joined versions)"

section \<open>What the prompt says\<close>

lemma assigned_criteria_split:
  "assigned_criteria ids cs = (xs, rest) \<Longrightarrow>
     set xs \<subseteq> set cs \<and> set rest = set ids - cc_ID ` set cs \<and> cc_ID ` set xs = set ids \<inter> cc_ID ` set cs"
proof (induction ids cs arbitrary: xs rest rule: assigned_criteria.induct)
  case (2 ids c cs)
  show ?case
  proof (cases "cc_ID c \<in> set ids")
    case True
    then obtain ys where ys: "assigned_criteria (removeAll (cc_ID c) ids) cs = (ys, rest)" "xs = c # ys"
      using 2(3) by (auto split: prod.splits)
    then show ?thesis using 2(1) [OF True ys(1)] True by auto
  next
    case False
    then show ?thesis using 2(2) [OF False] 2(3) by auto
  qed
qed auto

lemma prompt_complete:
  assumes "renderRunBriefPrompt r u = Inr text"
  obtains criteria where "text = prompt_text r u criteria" "set criteria \<subseteq> set (cr_Criteria r)"
    "cc_ID ` set criteria = set (wu_CriterionIDs u)"
proof -
  obtain criteria absent where split: "assigned_criteria (wu_CriterionIDs u) (cr_Criteria r) = (criteria, absent)"
    by (cases "assigned_criteria (wu_CriterionIDs u) (cr_Criteria r)")
  with assms have absent: "absent = []" "text = prompt_text r u criteria"
    by (auto simp: renderRunBriefPrompt_def split: if_splits)
  with assigned_criteria_split [OF split] show thesis by (intro that [of criteria]) auto
qed

end
