(* ===== verification/Admission.thy ===== *)
theory Admission
  imports Attempt_Service Outcome_Reads Run_Brief
begin

text \<open>
  The admission of an attempt (internal/service/outcome/attempt.go, \<^verbatim>\<open>StartAttempt\<close>):
  what is checked before anything is written, the durable admission under custody, the launch, and
  the three ways a launch can end: running, known not to have started, or unresolved.
\<close>

section \<open>The provider seam\<close>

record document_context =
  dx_ID :: ident
  dx_Revision :: int
  dx_Digest :: string
  dx_Approved :: bool

datatype readiness_error = ExecutionPolicyUnsupported string string | AgentBinaryNotFound
  | ReadinessFailure error

text \<open>A spawn error by what \<^verbatim>\<open>errors.Is\<close> and \<^verbatim>\<open>errors.As\<close> find in it.\<close>

record spawn_error =
  xe_InputProvisioning :: bool
  xe_WorkspacePreparation :: bool
  xe_BinaryNotFound :: bool
  xe_PrelaunchStage :: "string option"
  xe_Text :: string

record spawn_request =
  sq_ProjectID :: ident
  sq_Binding :: execution_binding
  sq_ExecutionPolicy :: execution_policy
  sq_Prompt :: string
  sq_DisplayName :: string
  sq_Inputs :: "attempt_input list"
  sq_Documents :: "document_context option"

record spawn_result =
  sn_SessionID :: ident
  sn_Mode :: string
  sn_WorkspacePath :: string
  sn_ExecutionPolicy :: "execution_policy option"
  sn_EffectiveModel :: string
  sn_CompletionBoundary :: string

text \<open>The provider adapters, the document store (absent when documents are not enabled), the policy
  layers of the daemon, the file system's symbolic links and the digest of a run brief.\<close>

record provider =
  pd_BriefDigest :: "run_brief_core \<Rightarrow> string"
  pd_PolicyLayers :: "string list list"
  pd_Resolve :: "string \<Rightarrow> string option"
  pd_Documents :: "(ident \<Rightarrow> error + document_context option) option"
  pd_SourcesChanged :: "document_context \<Rightarrow> bool"
  pd_ProfileReadiness :: "ident \<Rightarrow> execution_binding \<Rightarrow> execution_policy \<Rightarrow> readiness_error + bool"
  pd_Spawn :: "spawn_request \<Rightarrow> spawn_error + spawn_result"

record start_input =
  sa_PlanRevisionID :: ident
  sa_WorkUnitID :: ident
  sa_Harness :: harness
  sa_RequestKey :: string

definition CodeAttemptRequestKeyConflict :: string where
  "CodeAttemptRequestKeyConflict = ''ATTEMPT_REQUEST_KEY_CONFLICT''"
definition CodeAttemptFenceHeld :: string where "CodeAttemptFenceHeld = ''ATTEMPT_FENCE_HELD''"
definition CodeRunIntentStale :: string where "CodeRunIntentStale = ''RUN_INTENT_STALE''"
definition CodePlanProviderUnbound :: string where "CodePlanProviderUnbound = ''PLAN_PROVIDER_UNBOUND''"
definition CodeAttemptProviderMismatch :: string where
  "CodeAttemptProviderMismatch = ''ATTEMPT_PROVIDER_MISMATCH''"
definition CodeAttemptExecutionPolicyUnsupported :: string where
  "CodeAttemptExecutionPolicyUnsupported = ''ATTEMPT_EXECUTION_POLICY_UNSUPPORTED''"
definition CodeAgentBinaryNotFound :: string where "CodeAgentBinaryNotFound = ''AGENT_BINARY_NOT_FOUND''"
definition CodeAgentProfileNotReady :: string where "CodeAgentProfileNotReady = ''AGENT_PROFILE_NOT_READY''"
definition CodeAttemptPrelaunchFailed :: string where
  "CodeAttemptPrelaunchFailed = ''ATTEMPT_PRELAUNCH_FAILED''"
definition CodeAttemptWorkspacePreparationFailed :: string where
  "CodeAttemptWorkspacePreparationFailed = ''ATTEMPT_WORKSPACE_PREPARATION_FAILED''"
definition CodeUpstreamMaterializationFailed :: string where
  "CodeUpstreamMaterializationFailed = ''UPSTREAM_MATERIALIZATION_FAILED''"
definition CodeDocumentContextNotApproved :: string where
  "CodeDocumentContextNotApproved = ''DOCUMENT_CONTEXT_NOT_APPROVED''"
definition CodeDocumentSourcesChanged :: string where
  "CodeDocumentSourcesChanged = ''DOCUMENT_SOURCES_CHANGED''"

section \<open>Before anything is written\<close>

definition probeReadiness ::
  "provider \<Rightarrow> ident \<Rightarrow> execution_binding \<Rightarrow> execution_policy \<Rightarrow> api_error + unit" where
  "probeReadiness p project b policy =
     (case pd_ProfileReadiness p project b policy of
        Inl (ExecutionPolicyUnsupported _ _) \<Rightarrow> Inl (Conflict CodeAttemptExecutionPolicyUnsupported)
      | Inl AgentBinaryNotFound \<Rightarrow> Inl (Conflict CodeAgentBinaryNotFound)
      | Inl (ReadinessFailure e) \<Rightarrow> Inl (Failure e)
      | Inr ready \<Rightarrow> require ready (Conflict CodeAgentProfileNotReady))"

definition approvedDocumentsForAdmission :: "provider \<Rightarrow> ident \<Rightarrow> api_error + document_context option" where
  "approvedDocumentsForAdmission p oid =
     (case pd_Documents p of
        None \<Rightarrow> Inr None
      | Some lookup \<Rightarrow>
          (case lookup oid of
             Inl e \<Rightarrow> Inl (Failure e)
           | Inr None \<Rightarrow> Inr None
           | Inr (Some d) \<Rightarrow>
               if \<not> dx_Approved d then Inl (Conflict CodeDocumentContextNotApproved)
               else if pd_SourcesChanged p d then Inl (Conflict CodeDocumentSourcesChanged)
               else Inr (Some d)))"

text \<open>What an admission rests on.\<close>

record admission_packet =
  ap_Outcome :: outcome
  ap_Generation :: int
  ap_Plan :: plan_revision
  ap_Unit :: work_unit
  ap_Binding :: execution_binding
  ap_Core :: string
  ap_Policy :: execution_policy
  ap_Prompt :: string
  ap_ProjectID :: ident
  ap_Inputs :: "attempt_input list"
  ap_Documents :: "document_context option"

text \<open>The plan in force: the outcome may start, its run was not stopped, no correction stands, and
  the plan is approved for the current contract within everybody's authority.\<close>

definition authorized_plan ::
  "provider \<Rightarrow> outcome_db \<Rightarrow> ident \<Rightarrow> ident \<Rightarrow> api_error + outcome \<times> int \<times> plan_revision \<times> contract_revision"
where
  "authorized_plan p db oid pid =
     and_then (outcome_or_missing db oid) (\<lambda>r.
     and_then (require (Clear (startGateFor db r)) (Conflict CodeContributionBlocked)) (\<lambda>_.
     and_then (refuseAdmissionAgainstRunIntent db oid) (\<lambda>generation.
     and_then (refuseExecutionAgainstCorrection db oid) (\<lambda>_.
     and_then (plan_or_missing db oid pid) (\<lambda>plan.
     and_then (require (pr_Status plan = PlanApproved) (Conflict CodePlanNotApproved)) (\<lambda>_.
     and_then (require (BindsCurrentContract plan (o_CurrentRevisionNumber r))
                 (Conflict CodePlanBriefInvalidated)) (\<lambda>_.
     and_then (currentRevision db r) (\<lambda>contract.
     and_then (require (ValidateForApproval plan contract = None) (Conflict CodePlanBriefInvalidated)) (\<lambda>_.
     case authorizeAttemptCapabilities (pd_PolicyLayers p) contract plan of
       Some e \<Rightarrow> Inl e
     | None \<Rightarrow> Inr (r, generation, plan, contract))))))))))"

text \<open>The unit the scheduler runs next, with the provider the owner authorized, the frozen run brief,
  the least policy and the exact prompt.\<close>

definition authorized_unit ::
  "provider \<Rightarrow> outcome_db \<Rightarrow> ident \<Rightarrow> start_input \<Rightarrow> plan_revision \<Rightarrow> contract_revision \<Rightarrow>
   api_error + work_unit \<times> execution_binding \<times> string \<times> execution_policy \<times> string" where
  "authorized_unit p db oid inp plan contract =
     and_then (selected_unit db oid plan (sa_WorkUnitID inp)) (\<lambda>u.
     case ExecutionBindingForNewWork u of
       Inl _ \<Rightarrow> Inl (Conflict CodePlanProviderUnbound)
     | Inr b \<Rightarrow>
         let requested = trim_space (sa_Harness inp) in
         and_then (require (requested = [] \<or> requested = eb_Provider b) (Conflict CodeAttemptProviderMismatch)) (\<lambda>_.
         and_then (passing_failure (ComputePlanRunBriefCoreDigest (pd_BriefDigest p) contract
                     (pr_WorkUnits plan) (pr_Grants plan))) (\<lambda>core.
         and_then (require (core = pr_RunBriefCoreDigest plan) (Conflict CodePlanBriefInvalidated)) (\<lambda>_.
         case BuildAttemptExecutionPolicy oid plan u core of
           Inl _ \<Rightarrow> Inl (Conflict CodeAttemptCapabilityUnauthorized)
         | Inr policy \<Rightarrow>
             (case renderRunBriefPrompt contract u of
                Inl _ \<Rightarrow> Inl (Conflict CodePlanBriefInvalidated)
              | Inr prompt \<Rightarrow> Inr (u, b, core, policy, prompt))))))"

definition prepareAdmission ::
  "world \<Rightarrow> provider \<Rightarrow> ident \<Rightarrow> start_input \<Rightarrow> outcome_db \<Rightarrow> api_error + admission_packet" where
  "prepareAdmission w p oid inp db =
     and_then (authorized_plan p db oid (sa_PlanRevisionID inp)) (\<lambda>(r, generation, plan, contract).
     and_then (authorized_unit p db oid inp plan contract) (\<lambda>(u, b, core, policy, prompt).
     case GetOutcomeProjectID db oid of
       None \<Rightarrow> Inl (NotFound ''PROJECT_NOT_FOUND'')
     | Some project \<Rightarrow>
         and_then (probeReadiness p project b policy) (\<lambda>_.
         and_then (admittedInputsFor (wo_Sha w) (db_Control db) plan u) (\<lambda>inputs.
         and_then (approvedDocumentsForAdmission p oid) (\<lambda>documents.
         Inr \<lparr>ap_Outcome = r, ap_Generation = generation, ap_Plan = plan, ap_Unit = u, ap_Binding = b,
              ap_Core = core, ap_Policy = policy, ap_Prompt = prompt, ap_ProjectID = project,
              ap_Inputs = inputs, ap_Documents = documents\<rparr>)))))"

end
