(* ===== verification/Launch.thy ===== *)
theory Launch
  imports Admission
begin

text \<open>
  The writes of an admission (internal/service/outcome/attempt.go): the attempt under custody, the
  launch, and what is recorded when the launch is known to have failed, is unresolved, or reached
  a running provider.
\<close>

section \<open>A failure before launch\<close>

definition prelaunch_known :: "spawn_error \<Rightarrow> bool" where
  "prelaunch_known x = (xe_InputProvisioning x \<or> xe_WorkspacePreparation x \<or> xe_PrelaunchStage x \<noteq> None)"

record refusal =
  rl_Code :: string
  rl_Message :: string
  rl_Details :: json

definition prelaunchRefusal :: "work_unit \<Rightarrow> ident \<Rightarrow> spawn_error \<Rightarrow> refusal" where
  "prelaunchRefusal u aid x =
     (let detail = [(''attemptId'', JStr aid), (''detail'', JStr (xe_Text x))] in
      if xe_InputProvisioning x
      then \<lparr>rl_Code = CodeUpstreamMaterializationFailed,
            rl_Message = ''This WorkUnit'' @ [CHR 0x27] @ ''s inputs could not be provisioned, so nothing was started'',
            rl_Details = json_map ((''workUnitId'', JStr (wu_ID u)) # detail)\<rparr>
      else if xe_WorkspacePreparation x
      then \<lparr>rl_Code = CodeAttemptWorkspacePreparationFailed,
            rl_Message = ''The workspace could not be prepared; no provider was started'',
            rl_Details = json_map detail\<rparr>
      else if xe_BinaryNotFound x
      then \<lparr>rl_Code = CodeAgentBinaryNotFound,
            rl_Message = ''The authorized agent binary is not installed on this machine; no provider was started'',
            rl_Details = json_map detail\<rparr>
      else \<lparr>rl_Code = CodeAttemptPrelaunchFailed,
            rl_Message = ''The Attempt could not launch; no provider was started'',
            rl_Details = json_map (detail @ (case xe_PrelaunchStage x of
               None \<Rightarrow> [] | Some stage \<Rightarrow> [(''stage'', JStr stage)]))\<rparr>)"

definition admission_failure_json :: "world \<Rightarrow> run_admission_failure \<Rightarrow> json" where
  "admission_failure_json w f = JObj [(''code'', JStr (rf_Code f)), (''message'', JStr (rf_Message f)),
     (''detailJson'', JStr (rf_DetailJSON f)), (''workUnitId'', JStr (rf_WorkUnitID f)),
     (''occurredAt'', JStr (wo_Stamp w (rf_OccurredAt f)))]"

definition prelaunch_payload :: "world \<Rightarrow> string \<Rightarrow> run_admission_failure \<Rightarrow> string" where
  "prelaunch_payload w text f = json_marshal (JObj
     [(''error'', JStr text), (''workUnitId'', JStr (rf_WorkUnitID f)), (''providerLaunched'', JBool False),
      (''admissionFailure'', admission_failure_json w f)])"

definition admitPrelaunchFailure ::
  "world \<Rightarrow> ident \<Rightarrow> work_unit \<Rightarrow> attempt \<Rightarrow> spawn_error \<Rightarrow> (api_error + 'r) action" where
  "admitPrelaunchFailure w oid u a x =
     (let refused = prelaunchRefusal u (a_ID a) x in
      next_do (clock w) (\<lambda>at. next_do (fresh w) (\<lambda>obs.
      let failure = \<lparr>rf_Code = rl_Code refused, rf_Message = rl_Message refused,
            rf_DetailJSON = json_marshal (rl_Details refused), rf_WorkUnitID = wu_ID u, rf_OccurredAt = at\<rparr>
      in refused_after (control (\<lambda>c. FailAttemptBeforeLaunch c obs
           \<lparr>pf_OutcomeID = oid, pf_AttemptID = a_ID a,
            pf_ObservationKind = (if xe_InputProvisioning x then ObservationInputProvisioningFailed
                                  else ObservationAdmissionFailed),
            pf_ObservationPayload = prelaunch_payload w (xe_Text x) failure,
            pf_ReleaseReason = ''provider_not_launched'', pf_At = at\<rparr>))
           (Conflict (rl_Code refused)))))"

section \<open>The launch\<close>

definition middle_dot :: string where "middle_dot = [CHR 0xC2, CHR 0xB7]"

definition spawn_request_of :: "admission_packet \<Rightarrow> attempt \<Rightarrow> spawn_request" where
  "spawn_request_of k a =
     \<lparr>sq_ProjectID = ap_ProjectID k, sq_Binding = ap_Binding k, sq_ExecutionPolicy = ap_Policy k,
      sq_Prompt = ap_Prompt k,
      sq_DisplayName = o_Title (ap_Outcome k) @ '' '' @ middle_dot @ '' '' @ wu_Title (ap_Unit k) @
        '' '' @ middle_dot @ '' attempt '' @ decimal (a_Number a),
      sq_Inputs = ap_Inputs k, sq_Documents = ap_Documents k\<rparr>"

definition documents_json :: "document_context option \<Rightarrow> json" where
  "documents_json d = (case d of None \<Rightarrow> JNull
     | Some c \<Rightarrow> JObj [(''ContextID'', JStr (dx_ID c)), (''Revision'', JNum (dx_Revision c)),
                       (''Digest'', JStr (dx_Digest c))])"

definition admission_snapshot ::
  "world \<Rightarrow> admission_packet \<Rightarrow> spawn_result \<Rightarrow> execution_policy \<Rightarrow> string \<Rightarrow> string \<Rightarrow> instant \<Rightarrow> json"
where
  "admission_snapshot w k sn policy policy_digest compiled now = json_map
     [(''snapshotVersion'', JNum 3),
      (''harness'', JStr (eb_Provider (ap_Binding k))),
      (''modelSelection'', JStr (model_selection_name (eb_ModelSelection (ap_Binding k)))),
      (''requestedModel'', JStr (eb_Model (ap_Binding k))),
      (''effectiveModel'', JStr (trim_space (sn_EffectiveModel sn))),
      (''workUnitId'', JStr (wu_ID (ap_Unit k))),
      (''mode'', JStr (sn_Mode sn)),
      (''runBriefCoreDigest'', JStr (ap_Core k)),
      (''runBriefCompiledDigest'', JStr compiled),
      (''executionPolicy'', policy_json policy),
      (''executionPolicyDigest'', JStr policy_digest),
      (''sessionId'', JStr (sn_SessionID sn)),
      (''completionBoundary'', JStr (sn_CompletionBoundary sn)),
      (''requestedAt'', JStr (wo_Stamp w now)),
      (''inputArtifactVersions'', strings_json (inputArtifactVersions (ap_Inputs k))),
      (''documentContext'', documents_json (ap_Documents k))]"

definition unresolved_activation :: "world \<Rightarrow> attempt \<Rightarrow> error \<Rightarrow> (api_error + 'r) action" where
  "unresolved_activation w a e = admitUnresolved w (a_ID a) ObservationActivationAmbiguous (wo_Text w e)"

text \<open>The bound session with its frozen snapshot, and the attempt running.\<close>

definition activate ::
  "world \<Rightarrow> ident \<Rightarrow> admission_packet \<Rightarrow> attempt \<Rightarrow> spawn_result \<Rightarrow> execution_policy \<Rightarrow> string \<Rightarrow> instant \<Rightarrow>
   (api_error + attempt_view) action" where
  "activate w oid k a sn policy policy_digest now =
     (let compiled = computeCompiledBriefDigest (wo_Sha w) (ap_Binding k) (sn_Mode sn) (ap_Core k) policy_digest
            (inputArtifactVersions (ap_Inputs k));
          snapshot = json_marshal (admission_snapshot w k sn policy policy_digest compiled now) in
      next_do (clock w) (\<lambda>bound. next_do (fresh w) (\<lambda>ref.
      next_do (control_commit (\<lambda>c. BindAttemptSession c ref bound
        \<lparr>sr_ID = [], sr_AttemptID = a_ID a, sr_Seq = 0, sr_SessionID = sn_SessionID sn,
         sr_Harness = eb_Provider (ap_Binding k), sr_Mode = sn_Mode sn, sr_RunBriefCoreDigest = ap_Core k,
         sr_RunBriefCompiledDigest = compiled, sr_AdmissionSnapshot = snapshot, sr_BoundAt = bound\<rparr>)) (\<lambda>r.
      case r of
        Inl e \<Rightarrow> unresolved_activation w a (Wrapf ''session binding failed: %w'' [] (store_error_text e))
      | Inr _ \<Rightarrow>
          next_do (clock w) (\<lambda>at.
          next_do (control_commit (\<lambda>c. TransitionAttemptStatus c oid (a_ID a) AttemptQueued AttemptRunning at)) (\<lambda>r.
          case r of
            Inl e \<Rightarrow> unresolved_activation w a (Wrapf ''activation not recorded (rows=%d): %w'' [Num 0] (store_error_text e))
          | Inr rows \<Rightarrow>
              if rows \<noteq> 1 then unresolved_activation w a (Errorf ''activation not recorded (rows=%d): %w'' [Num (int rows)])
              else AttemptView w oid (a_ID a)))))))"

text \<open>What the provider reports against what was authorized.\<close>

definition launched_policy ::
  "world \<Rightarrow> provider \<Rightarrow> execution_binding \<Rightarrow> spawn_result \<Rightarrow> error + execution_policy \<times> string" where
  "launched_policy w p b sn =
     (if eb_ModelSelection b = MsExplicit \<and> \<not> blank (sn_EffectiveModel sn) \<and>
         trim_space (sn_EffectiveModel sn) \<noteq> eb_Model b
      then Inl (Errorf ''provider reported effective model %q but Plan authorized %q''
             [Str (sn_EffectiveModel sn), Str (eb_Model b)])
      else case sn_ExecutionPolicy sn of
        None \<Rightarrow> Inl (Errorf ''governed spawn did not return its workspace-bound execution policy'' [])
      | Some policy \<Rightarrow>
          (case ValidateWorkspaceRoot (pd_Resolve p) policy (sn_WorkspacePath sn) of
             Some e \<Rightarrow> Inl (Wrapf ''governed spawn workspace evidence mismatch: %w'' [] e)
           | None \<Rightarrow>
               (case ExecutionPolicy_Digest (wo_Sha w) policy of
                  Inl e \<Rightarrow> Inl (Wrapf ''execution policy digest failed: %w'' [] e)
                | Inr d \<Rightarrow> Inr (policy, d))))"

definition launch ::
  "world \<Rightarrow> provider \<Rightarrow> ident \<Rightarrow> admission_packet \<Rightarrow> instant \<Rightarrow> attempt \<Rightarrow> (api_error + attempt_view) action"
where
  "launch w p oid k now a =
     (case pd_Spawn p (spawn_request_of k a) of
        Inl x \<Rightarrow>
          if prelaunch_known x then admitPrelaunchFailure w oid (ap_Unit k) a x
          else admitUnresolved w (a_ID a) ObservationAdmissionAmbiguous (xe_Text x)
      | Inr sn \<Rightarrow>
          (case launched_policy w p (ap_Binding k) sn of
             Inl e \<Rightarrow> unresolved_activation w a e
           | Inr (policy, d) \<Rightarrow> activate w oid k a sn policy d now))"

section \<open>The admission\<close>

definition admission_of :: "ident \<Rightarrow> admission_packet \<Rightarrow> string \<Rightarrow> instant \<Rightarrow> attempt_admission" where
  "admission_of oid k key now =
     \<lparr>ad_OutcomeID = oid, ad_PlanRevisionID = pr_ID (ap_Plan k), ad_WorkUnitID = wu_ID (ap_Unit k),
      ad_ContractRevisionNumber = pr_ContractRevisionNumber (ap_Plan k),
      ad_RunIntentGeneration = ap_Generation k, ad_RequestKey = trim_space key,
      ad_FenceSubject = FenceSubjectForProject (ap_ProjectID k), ad_At = now\<rparr>"

definition refused_creation :: "world \<Rightarrow> store_error \<Rightarrow> (api_error + attempt_view) action" where
  "refused_creation w e =
     (case e of
        AttemptReplayConflict _ \<Rightarrow> give (Inl (Conflict CodeAttemptRequestKeyConflict))
      | AttemptReplay a \<Rightarrow> AttemptView w (a_OutcomeID a) (a_ID a)
      | AttemptFenceHeld _ _ _ \<Rightarrow> give (Inl (Conflict CodeAttemptFenceHeld))
      | AttemptRunIntentConflict _ _ _ desired _ \<Rightarrow>
          give (Inl (Conflict (if desired = RunPaused \<or> desired = RunCancelled then CodeRunActionUnavailable
                               else CodeRunIntentStale)))
      | _ \<Rightarrow> give (Inl (Failure (store_error_text e))))"

definition replayed_start :: "world \<Rightarrow> ident \<Rightarrow> start_input \<Rightarrow> attempt \<Rightarrow> (api_error + attempt_view) action" where
  "replayed_start w oid inp a =
     (if a_OutcomeID a \<noteq> oid \<or> a_PlanRevisionID a \<noteq> sa_PlanRevisionID inp \<or>
         \<not> blank (sa_WorkUnitID inp) \<and> a_WorkUnitID a \<noteq> sa_WorkUnitID inp
      then give (Inl (Conflict CodeAttemptRequestKeyConflict))
      else AttemptView w (a_OutcomeID a) (a_ID a))"

definition admit :: "world \<Rightarrow> provider \<Rightarrow> ident \<Rightarrow> start_input \<Rightarrow> (api_error + attempt_view) action" where
  "admit w p oid inp =
     try_do (reading (prepareAdmission w p oid inp)) (\<lambda>k.
     next_do (clock w) (\<lambda>now. next_do (fresh w) (\<lambda>aid. next_do (fresh w) (\<lambda>fid.
     next_do (control_commit (\<lambda>c. CreateAttemptWithFence c aid fid (admission_of oid k (sa_RequestKey inp) now))) (\<lambda>r.
     case r of
       Inl e \<Rightarrow> refused_creation w e
     | Inr a \<Rightarrow> launch w p oid k now a)))))"

definition StartAttempt :: "world \<Rightarrow> provider \<Rightarrow> ident \<Rightarrow> start_input \<Rightarrow> (api_error + attempt_view) action" where
  "StartAttempt w p oid inp =
     (if blank (sa_RequestKey inp) then give (Inl (Invalid ''REQUEST_KEY_REQUIRED''))
      else next_do (reading (\<lambda>db. FindAttemptByIdempotencyKey (db_Control db) (sa_RequestKey inp))) (\<lambda>existing.
        case existing of
          Some a \<Rightarrow> replayed_start w oid inp a
        | None \<Rightarrow> admit w p oid inp))"

end
