(* ===== verification/Launch_Laws.thy ===== *)
theory Launch_Laws
  imports Launch Recovery_Laws
begin

text \<open>
  Laws of an admission: it commits transactions of the control rows only, whatever the provider
  answers.
\<close>

context control_law begin

lemma keeps_unresolved: "keeps (unresolved_activation w a e)"
  unfolding unresolved_activation_def by (rule keeps_admitUnresolved)

lemma keeps_prelaunch: "keeps (admitPrelaunchFailure w oid u a x)"
  unfolding admitPrelaunchFailure_def refused_after_def Let_def
  by (intro keeps_next keeps_passing keeps_step keeps_clock keeps_give) (auto intro: store_step.prelaunch)

lemma keeps_activate: "keeps (activate w oid k a sn policy d now)"
proof -
  have "keeps (control_commit (\<lambda>c. BindAttemptSession c ref at r))" for ref at r
    by (rule keeps_step) (auto intro: store_step.bind)
  then show ?thesis unfolding activate_def Let_def
    by (auto intro!: keeps_next keeps_unresolved keeps_transition keeps_view split: sum.split)
qed

lemma keeps_launch: "keeps (launch w p oid k now a)"
  unfolding launch_def
  by (auto intro!: keeps_prelaunch keeps_admitUnresolved keeps_unresolved keeps_activate split: sum.split)

lemma keeps_StartAttempt: "keeps (StartAttempt w p oid inp)"
proof -
  have "keeps (control_commit (\<lambda>c. CreateAttemptWithFence c aid fid d))" for aid fid d
    by (rule keeps_step) (auto intro: store_step.create)
  moreover have "keeps (refused_creation w e)" for e
    unfolding refused_creation_def by (auto intro!: keeps_view split: store_error.split)
  ultimately have "keeps (admit w p oid inp)"
    unfolding admit_def by (auto intro!: keeps_try keeps_next keeps_launch split: sum.split)
  then show ?thesis unfolding StartAttempt_def replayed_start_def
    by (auto intro!: keeps_next keeps_view split: option.split)
qed

end

end
