(* ===== verification/Custody.thy ===== *)
theory Custody
  imports Launch_Laws
begin

text \<open>
  One writer per workspace, over the whole service: every live attempt holds the open fence of its
  outcome's project, whatever commands ran and however they ended. The single transactions
  establish it on the control rows; the commands keep it because each of them releases a fence only
  after the attempt stopped being live.
\<close>

section \<open>On the control rows\<close>

text \<open>The subject an outcome's attempts must hold is a parameter here.\<close>

definition fenced_rows :: "(ident \<Rightarrow> string option) \<Rightarrow> control_store \<Rightarrow> bool" where
  "fenced_rows home s \<longleftrightarrow> (\<forall>a\<in>set (st_Attempts s). live (a_Status a) \<longrightarrow>
     (\<exists>t. home (a_OutcomeID a) = Some t \<and> fence_holder s t = Some (a_ID a)))"

definition settled_row :: "ident \<Rightarrow> control_store \<Rightarrow> bool" where
  "settled_row x s \<longleftrightarrow> (\<forall>a\<in>set (st_Attempts s). a_ID a = x \<longrightarrow> \<not> live (a_Status a))"

lemma rows_same:
  assumes "st_Attempts s' = st_Attempts s" "st_Fences s' = st_Fences s"
  shows "fenced_rows home s' = fenced_rows home s" "settled_row x s' = settled_row x s"
  using assms holder_cong [OF assms(2)] by (simp_all add: fenced_rows_def settled_row_def)

lemma legal_live: "AttemptTransitionLegal e n \<Longrightarrow> live n \<Longrightarrow> live e"
  by (cases e) (auto simp: AttemptTransitionLegal_def live_def)

text \<open>Attempts of the new rows that are live were live, under the same identifier.\<close>

definition no_revival :: "control_store \<Rightarrow> control_store \<Rightarrow> bool" where
  "no_revival s s' \<longleftrightarrow> (\<forall>b\<in>set (st_Attempts s'). live (a_Status b) \<longrightarrow>
     (\<exists>a\<in>set (st_Attempts s). live (a_Status a) \<and> a_ID a = a_ID b \<and> a_OutcomeID a = a_OutcomeID b \<and>
        a_RunIntentGeneration a = a_RunIntentGeneration b))"

lemma fenced_no_revival:
  assumes "no_revival s s'" "fence_holder s' = fence_holder s" "fenced_rows home s"
  shows "fenced_rows home s'"
  unfolding fenced_rows_def
proof (intro ballI impI)
  fix b assume "b \<in> set (st_Attempts s')" "live (a_Status b)"
  then obtain a where "a \<in> set (st_Attempts s)" "live (a_Status a)" "a_ID a = a_ID b" "a_OutcomeID a = a_OutcomeID b"
    using assms(1) unfolding no_revival_def by blast
  then show "\<exists>t. home (a_OutcomeID b) = Some t \<and> fence_holder s' t = Some (a_ID b)"
    using assms(2,3) unfolding fenced_rows_def by metis
qed

lemma settled_no_revival: "no_revival s s' \<Longrightarrow> settled_row x s \<Longrightarrow> settled_row x s'"
  unfolding no_revival_def settled_row_def by metis

lemma rows_transition:
  assumes "update_status s oid aid e n at = Inr (k, s')"
  shows "no_revival s s'" "fence_holder s' = fence_holder s"
proof -
  let ?hit = "\<lambda>a. a_ID a = aid \<and> a_OutcomeID a = oid \<and> a_Status a = e"
  have s': "st_Attempts s' = map (\<lambda>a. if ?hit a then a\<lparr>a_Status := n, a_UpdatedAt := at\<rparr> else a) (st_Attempts s)"
    and legal: "a \<in> set (st_Attempts s) \<Longrightarrow> ?hit a \<Longrightarrow> AttemptTransitionLegal e n" for a
    using assms by (auto simp: update_status_def Let_def list_ex_iff split: if_splits)
  show "fence_holder s' = fence_holder s" by (rule holder_cong) (rule update_status_effect(2) [OF assms])
  show "no_revival s s'" unfolding no_revival_def
  proof (intro ballI impI)
    fix b assume "b \<in> set (st_Attempts s')" and l: "live (a_Status b)"
    then obtain a where a: "a \<in> set (st_Attempts s)"
        "b = (if ?hit a then a\<lparr>a_Status := n, a_UpdatedAt := at\<rparr> else a)" by (auto simp: s')
    have "live (a_Status a)"
    proof (cases "?hit a")
      case True
      then show ?thesis using legal [OF a(1) True] l a(2) legal_live by simp
    next
      case False
      then show ?thesis using l a(2) by (simp only: if_False)
    qed
    then show "\<exists>a\<in>set (st_Attempts s). live (a_Status a) \<and> a_ID a = a_ID b \<and> a_OutcomeID a = a_OutcomeID b \<and>
        a_RunIntentGeneration a = a_RunIntentGeneration b"
      using a by (intro bexI [of _ a]) auto
  qed
qed

lemma settled_transition:
  assumes "update_status s oid aid e n at = Inr (k, s')" "k \<noteq> 0" "\<not> live n" "lineage_ok s"
  shows "settled_row aid s'"
proof -
  let ?hit = "\<lambda>a. a_ID a = aid \<and> a_OutcomeID a = oid \<and> a_Status a = e"
  have s': "st_Attempts s' = map (\<lambda>a. if ?hit a then a\<lparr>a_Status := n, a_UpdatedAt := at\<rparr> else a) (st_Attempts s)"
    and k: "k = length (filter ?hit (st_Attempts s))"
    using assms(1) by (auto simp: update_status_def Let_def split: if_splits)
  have "filter ?hit (st_Attempts s) \<noteq> []" using k assms(2) by auto
  then obtain b where b: "b \<in> set (st_Attempts s)" "?hit b" by (auto simp: filter_empty_conv)
  have same: "a = b" if "a \<in> set (st_Attempts s)" "a_ID a = aid" for a
    using that b assms(4) distinct_map_unique [of a_ID "st_Attempts s" a b] by (simp add: lineage_ok_def)
  show ?thesis unfolding settled_row_def
  proof (intro ballI impI)
    fix c assume "c \<in> set (st_Attempts s')" and c: "a_ID c = aid"
    then obtain a where a: "a \<in> set (st_Attempts s)"
        "c = (if ?hit a then a\<lparr>a_Status := n, a_UpdatedAt := at\<rparr> else a)" unfolding s' set_map by blast
    have "a_ID a = aid"
    proof (cases "?hit a")
      case False
      then show ?thesis using a(2) c by (simp only: if_False)
    qed simp
    then have "a = b" using same [OF a(1)] by simp
    then show "\<not> live (a_Status c)" using a(2) b(2) assms(3) by simp
  qed
qed

lemma rows_release:
  assumes "release_fences s x reason at = Inr (k, s')" "custody_ok s" "settled_row x s" "fenced_rows home s"
  shows "fenced_rows home s' \<and> settled_row x s'"
proof -
  have attempts: "st_Attempts s' = st_Attempts s" using release_fences_effect(3) [OF assms(1)] .
  have "custody_ok s'" using release_fences_effect(2) [OF assms(1)] assms(2) by blast
  note held = holder_released [OF assms(2) this assms(1)]
  have "fenced_rows home s'" unfolding fenced_rows_def attempts held
  proof (intro ballI impI)
    fix a assume a: "a \<in> set (st_Attempts s)" "live (a_Status a)"
    then obtain t where "home (a_OutcomeID a) = Some t" "fence_holder s t = Some (a_ID a)"
      using assms(4) unfolding fenced_rows_def by blast
    moreover have "a_ID a \<noteq> x" using a assms(3) by (auto simp: settled_row_def)
    ultimately show "\<exists>t. home (a_OutcomeID a) = Some t \<and>
        (if fence_holder s t = Some x then None else fence_holder s t) = Some (a_ID a)"
      by (intro exI [of _ t]) simp
  qed
  then show ?thesis using assms(3) by (simp add: settled_row_def attempts)
qed

lemma rows_create:
  assumes "CreateAttemptWithFence s aid fid d = Inr (a, s')" "store_ok s" "fenced_rows home s"
    "home (ad_OutcomeID d) = Some (ad_FenceSubject d)"
  shows "fenced_rows home s'"
proof -
  have ok: "custody_ok s" "custody_ok s'"
    using assms(2) store_ok_create [OF assms(2,1)] by (simp_all add: store_ok_def)
  obtain g where new: "a = admitted_attempt s aid d g" "st_Attempts s' = st_Attempts s @ [a]"
    by (rule create_effect [OF assms(1)]) auto
  note held = holder_acquired [OF ok assms(1)]
  show ?thesis unfolding fenced_rows_def held(2) new(2)
  proof (intro ballI impI)
    fix b assume b: "b \<in> set (st_Attempts s @ [a])" "live (a_Status b)"
    show "\<exists>t. home (a_OutcomeID b) = Some t \<and> ((fence_holder s)(ad_FenceSubject d := Some aid)) t = Some (a_ID b)"
    proof (cases "b = a")
      case True
      then show ?thesis using assms(4) new(1) by (intro exI [of _ "ad_FenceSubject d"]) simp
    next
      case False
      then obtain t where "home (a_OutcomeID b) = Some t" "fence_holder s t = Some (a_ID b)"
        using b assms(3) unfolding fenced_rows_def by auto
      then show ?thesis using held(1) by (intro exI [of _ t]) auto
    qed
  qed
qed

lemma rows_prelaunch:
  assumes "FailAttemptBeforeLaunch s obs f = Inr (o', s')" "store_ok s" "fenced_rows home s"
  shows "fenced_rows home s'"
proof -
  obtain s1 s2 where p:
      "append_validated s (new_observation s obs (pf_AttemptID f) (pf_ObservationKind f)
         (pf_ObservationPayload f) (pf_At f)) = Inr (o', s1)"
      "update_status s1 (pf_OutcomeID f) (pf_AttemptID f) AttemptQueued AttemptFailed (pf_At f) = Inr (1, s2)"
      "release_fences s2 (pf_AttemptID f) (pf_ReleaseReason f) (pf_At f) = Inr (1, s')"
    using assms(1) by (rule prelaunch_parts)
  have s1: "st_Attempts s1 = st_Attempts s" "st_Fences s1 = st_Fences s"
    using append_validated_effect(1) [OF p(1)] by simp_all
  have "store_ok s1" by (rule store_ok_append_validated [OF assms(2) p(1)])
  then have "lineage_ok s1" "custody_ok s1" by (simp_all add: store_ok_def)
  moreover have "custody_ok s2" using calculation(2) update_status_effect(2) [OF p(2)] by (rule custody_same)
  moreover have "settled_row (pf_AttemptID f) s2"
    using calculation(1) by (intro settled_transition [OF p(2)]) (auto simp: live_def)
  moreover have "fenced_rows home s2"
    using fenced_no_revival [OF rows_transition [OF p(2)]] rows_same(1) [OF s1] assms(3) by blast
  ultimately show ?thesis using rows_release [OF p(3)] by blast
qed

lemma rows_terminate:
  assumes "TerminateRunningAttemptWithObservation s obs t = Inr (r, s')" "store_ok s" "fenced_rows home s"
    "\<not> live (rt_TargetStatus t)"
  shows "fenced_rows home s'"
  using assms(1)
proof (cases rule: terminate_parts)
  case (ended k s1 o' s2)
  have s2: "st_Attempts s2 = st_Attempts s1" "st_Fences s2 = st_Fences s1"
    using append_validated_effect(1) [OF ended(2)] by simp_all
  have "settled_row (rt_AttemptID t) s1"
    using assms(2) by (intro settled_transition [OF ended(1,4) assms(4)]) (simp add: store_ok_def)
  moreover have "fenced_rows home s1" using fenced_no_revival [OF rows_transition [OF ended(1)] assms(3)] .
  moreover have "custody_ok s1" using update_status_effect(2) [OF ended(1)] assms(2) by (auto simp: store_ok_def intro: custody_same)
  ultimately have "settled_row (rt_AttemptID t) s2" "fenced_rows home s2" "custody_ok s2"
    using rows_same [OF s2] custody_same [OF _ s2(2)] by auto
  then show ?thesis using ended(3) rows_release by blast
qed (use assms(3) in simp)

lemma rows_classify:
  assumes "ClassifyAttemptSucceeded s obs c = Inr (u, s')" "store_ok s" "fenced_rows home s"
  shows "fenced_rows home s'"
  using assms(1)
proof (cases rule: classify_cases)
  case (written a r k s1 s3 k')
  have s3: "st_Attempts s3 = st_Attempts s1" "st_Fences s3 = st_Fences s1"
    using insert_observation_effect [OF written(6)] by simp_all
  have "settled_row (cl_AttemptID c) s1"
    using assms(2) by (intro settled_transition [OF written(4,5)]) (simp_all add: store_ok_def live_def)
  moreover have "fenced_rows home s1" using fenced_no_revival [OF rows_transition [OF written(4)] assms(3)] .
  moreover have "custody_ok s1" using update_status_effect(2) [OF written(4)] assms(2) by (auto simp: store_ok_def intro: custody_same)
  ultimately have "settled_row (cl_AttemptID c) s3" "fenced_rows home s3" "custody_ok s3"
    using rows_same [OF s3] custody_same [OF _ s3(2)] by auto
  then show ?thesis using written(7) rows_release by blast
qed (use assms(3) in simp)

lemma rows_renew:
  assumes "RenewFenceForAttempt s aid at = Inr (k, s')" "store_ok s" "fenced_rows home s"
  shows "fenced_rows home s'"
proof -
  have "custody_ok s" "custody_ok s'"
    using assms(2) store_ok_renew [OF assms(2,1)] by (simp_all add: store_ok_def)
  then have "fence_holder s' = fence_holder s" using renewed_holder assms(1) by blast
  moreover have "st_Attempts s' = st_Attempts s" using assms(1) by (auto simp: RenewFenceForAttempt_def)
  ultimately show ?thesis using assms(3) by (simp add: fenced_rows_def)
qed

lemma no_revival_same: "st_Attempts s' = st_Attempts s \<Longrightarrow> no_revival s s'"
  unfolding no_revival_def by auto

lemma no_revival_trans: "no_revival a b \<Longrightarrow> no_revival b c \<Longrightarrow> no_revival a c"
  unfolding no_revival_def by metis

text \<open>The writes of the attempt commands leave the run intents alone.\<close>

lemma intents_kept:
  "update_status s oid aid e n at = Inr (k, s') \<Longrightarrow> st_Intents s' = st_Intents s"
  "release_fences s aid reason at = Inr (k, s') \<Longrightarrow> st_Intents s' = st_Intents s"
  "append_validated s o1 = Inr (o2, s') \<Longrightarrow> st_Intents s' = st_Intents s"
  "insert_observation s o1 = Inr (v, s') \<Longrightarrow> st_Intents s' = st_Intents s"
  "AppendAttemptObservation s obs aid kind text at = Inr (o2, s') \<Longrightarrow> st_Intents s' = st_Intents s"
  "CreateRecoveryReceipt s u r = Inr (x, s') \<Longrightarrow> st_Intents s' = st_Intents s"
  by (auto simp: update_status_def release_fences_def append_validated_def insert_observation_def and_then_Inr
      AppendAttemptObservation_def CreateRecoveryReceipt_def Let_def split: option.splits if_splits)

text \<open>An acknowledged stop is true: nothing its authorization covers is live.\<close>

definition stopped :: "control_store \<Rightarrow> ident \<Rightarrow> int \<Rightarrow> bool" where
  "stopped s oid g \<longleftrightarrow>
     (\<forall>a\<in>set (st_Attempts s). a_OutcomeID a = oid \<longrightarrow> live (a_Status a) \<longrightarrow> a_RunIntentGeneration a > g)"

definition stop_done :: "run_intent \<Rightarrow> bool" where
  "stop_done i \<longleftrightarrow> (ri_Desired i = RunPaused \<or> ri_Desired i = RunCancelled) \<and> ri_AcknowledgedAt i \<noteq> None"

definition honoured :: "control_store \<Rightarrow> bool" where
  "honoured s \<longleftrightarrow> (\<forall>i\<in>set (st_Intents s). stop_done i \<longrightarrow> stopped s (ri_OutcomeID i) (ri_Generation i))"

lemma stopped_no_revival: "no_revival s s' \<Longrightarrow> stopped s oid g \<Longrightarrow> stopped s' oid g"
  unfolding no_revival_def stopped_def by metis

lemma honoured_no_revival: "no_revival s s' \<Longrightarrow> st_Intents s' = st_Intents s \<Longrightarrow> honoured s \<Longrightarrow> honoured s'"
  unfolding honoured_def using stopped_no_revival by metis

lemma honoured_same:
  "st_Attempts s' = st_Attempts s \<Longrightarrow> st_Intents s' = st_Intents s \<Longrightarrow> honoured s' = honoured s"
  by (simp add: honoured_def stopped_def)

text \<open>A new attempt belongs to the run that is current, which no acknowledged stop covers.\<close>

lemma generation_unique:
  assumes "wf_intents rows" "i \<in> set rows" "j \<in> set rows" "ri_OutcomeID i = ri_OutcomeID j"
    "ri_Generation i = ri_Generation j"
  shows "i = j"
proof -
  have "distinct (generations rows (ri_OutcomeID j))" using assms(1) distinct_upto unfolding wf_intents_def by metis
  then show ?thesis
    using assms(2-5) distinct_map_unique [of ri_Generation "filter (\<lambda>k. ri_OutcomeID k = ri_OutcomeID j) rows" i j]
    by (simp add: generations_def)
qed

lemma admitted_generation:
  assumes "admission_authorization s d = Inr g" "CurrentRunIntent (st_Intents s) (ad_OutcomeID d) = Some c"
    "ad_RunIntentGeneration d = ri_Generation c" "ri_Generation c \<ge> 1"
  shows "g = ri_Generation c" "ri_Desired c = RunRunning"
proof -
  have pos: "ri_Generation c > 0" using assms(4) by simp
  show "g = ri_Generation c" "ri_Desired c = RunRunning"
    using assms(1) pos unfolding admission_authorization_def assms(2,3) Let_def option.case
    by (simp_all split: if_split_asm)
qed

lemma honoured_create:
  assumes "CreateAttemptWithFence s aid fid d = Inr (a, s')" "store_ok s" "honoured s"
    and current: "ad_RunIntentGeneration d =
      (case CurrentRunIntent (st_Intents s) (ad_OutcomeID d) of None \<Rightarrow> 0 | Some i \<Rightarrow> ri_Generation i)"
  shows "honoured s'"
proof -
  have wf: "wf_intents (st_Intents s)" using assms(2) by (simp add: store_ok_def)
  obtain g where auth: "admission_authorization s d = Inr g" and new: "a = admitted_attempt s aid d g"
    and rows: "st_Attempts s' = st_Attempts s @ [a]" "st_Intents s' = st_Intents s"
    by (rule create_effect [OF assms(1)]) auto
  have "g > ri_Generation i" if i: "i \<in> set (st_Intents s)" "stop_done i" "ri_OutcomeID i = ad_OutcomeID d" for i
  proof -
    obtain c where c: "CurrentRunIntent (st_Intents s) (ad_OutcomeID d) = Some c"
      using i(1) i(3) [symmetric] current_intent_None [of "st_Intents s" "ad_OutcomeID d"]
      by (cases "CurrentRunIntent (st_Intents s) (ad_OutcomeID d)") auto
    have "OutcomeRunIntent_Validate c = None" using wf current_intent_mem [OF c] by (simp add: wf_intents_def)
    then have "ri_Generation c \<ge> 1" by (simp add: OutcomeRunIntent_Validate_def guards)
    then have "g = ri_Generation c" "ri_Desired c = RunRunning"
      using admitted_generation [OF auth c] current c by simp_all
    moreover have "ri_Generation i \<le> ri_Generation c" using current_intent_max [OF c i(1,3)] .
    moreover have "ri_Generation i \<noteq> ri_Generation c"
    proof
      assume "ri_Generation i = ri_Generation c"
      then have "i = c" using generation_unique [OF wf i(1), of c] current_intent_mem [OF c] i(3) by simp
      then show False using calculation(2) i(2) by (auto simp: stop_done_def)
    qed
    ultimately show ?thesis by simp
  qed
  then show ?thesis
    using assms(3) new by (auto simp: honoured_def stopped_def rows)
qed

section \<open>On the whole database\<close>

definition home :: "outcome_db \<Rightarrow> ident \<Rightarrow> string option" where
  "home db oid = map_option FenceSubjectForProject (GetOutcomeProjectID db oid)"

definition custodial :: "(string \<Rightarrow> string) \<Rightarrow> outcome_db \<Rightarrow> bool" where
  "custodial sha db \<longleftrightarrow> db_reachable sha db \<and> fenced_rows (home db) (db_Control db) \<and> honoured (db_Control db)"

definition rested :: "(string \<Rightarrow> string) \<Rightarrow> ident set \<Rightarrow> outcome_db \<Rightarrow> bool" where
  "rested sha X db \<longleftrightarrow> custodial sha db \<and> (\<forall>x\<in>X. settled_row x (db_Control db))"

interpretation resting: service_law "\<lambda>a b. rested sha X a \<longrightarrow> rested sha X b" for sha X
  by unfold_locales auto

lemma home_control [simp]: "home (db\<lparr>db_Control := c\<rparr>) = home db"
  by (simp add: home_def GetOutcomeProjectID_def outcome_row_by_id_def fun_eq_iff split: option.split)

lemma view_rows [simp]:
  "fenced_rows h (control_view db) = fenced_rows h (db_Control db)"
  "settled_row x (control_view db) = settled_row x (db_Control db)"
  "honoured (control_view db) = honoured (db_Control db)"
  by (rule rows_same honoured_same; simp add: control_view_def)+

lemma view_intents [simp]: "st_Intents (control_view db) = st_Intents (db_Control db)"
  by (simp add: control_view_def)

lemma custodial_ok: "custodial sha db \<Longrightarrow> store_ok (control_view db)"
  using control_view_reachable reachable_ok by (auto simp: custodial_def)

lemma resting_step:
  assumes "\<And>s r c. t s = Inr (r, c) \<Longrightarrow> store_step sha s c"
    and "\<And>s r c h. t s = Inr (r, c) \<Longrightarrow> store_ok s \<Longrightarrow> fenced_rows h s \<Longrightarrow> fenced_rows h c"
    and "\<And>s r c. t s = Inr (r, c) \<Longrightarrow> no_revival s c \<and> st_Intents c = st_Intents s"
  shows "resting.keeps sha X (control_commit t)"
proof (rule resting.keeps_control, rule impI)
  fix db r c assume t: "t (control_view db) = Inr (r, c)" and "rested sha X db"
  then have ok: "custodial sha db" and settled: "\<forall>x\<in>X. settled_row x (db_Control db)" by (simp_all add: rested_def)
  have "db_step sha db (db\<lparr>db_Control := c\<rparr>)" using assms(1) [OF t] by (rule db_step.control)
  moreover have "fenced_rows (home db) c"
    using assms(2) [OF t custodial_ok [OF ok]] ok by (simp add: custodial_def)
  moreover have "honoured c"
    using honoured_no_revival [of "control_view db" c] assms(3) [OF t] ok by (simp add: custodial_def)
  ultimately have "custodial sha (db\<lparr>db_Control := c\<rparr>)"
    using ok by (auto simp: custodial_def intro: db_reachable.committed)
  moreover have "\<forall>x\<in>X. settled_row x c" using settled_no_revival assms(3) [OF t] settled by auto
  ultimately show "rested sha X (db\<lparr>db_Control := c\<rparr>)" by (simp add: rested_def)
qed

text \<open>Transactions that leave attempts and fences alone.\<close>

lemma resting_unmoved:
  assumes "\<And>s r c. t s = Inr (r, c) \<Longrightarrow> store_step sha s c"
    and "\<And>s r c. t s = Inr (r, c) \<Longrightarrow>
      st_Attempts c = st_Attempts s \<and> st_Fences c = st_Fences s \<and> st_Intents c = st_Intents s"
  shows "resting.keeps sha X (control_commit t)"
  using assms rows_same(1) no_revival_same by (intro resting_step) blast+

lemma resting_observe: "resting.keeps sha X (observe w aid kind text)"
  unfolding observe_def
  by (intro resting.keeps_rules resting_unmoved; (erule store_step.observe | auto dest: observation_effect intents_kept(5)))

lemma resting_recordReceipt: "resting.keeps sha X (recordReceipt w aid resolution detail)"
  unfolding recordReceipt_def Let_def
  by (intro resting.keeps_rules resting_unmoved; (erule store_step.recover | auto dest: recovery_effect intents_kept(6)))

lemma resting_transition: "resting.keeps sha X (control_commit (\<lambda>c. TransitionAttemptStatus c oid aid e n at))"
proof (rule resting_step)
  fix s r c assume t: "TransitionAttemptStatus s oid aid e n at = Inr (r, c)"
  then show "store_step sha s c" by (rule store_step.transition)
  from t have u: "update_status s oid aid e n at = Inr (r, c)" by (simp add: TransitionAttemptStatus_def)
  show "no_revival s c \<and> st_Intents c = st_Intents s" using rows_transition(1) [OF u] intents_kept(1) [OF u] ..
  show "fenced_rows h s \<Longrightarrow> fenced_rows h c" for h by (rule fenced_no_revival [OF rows_transition [OF u]])
qed

lemma resting_bind: "resting.keeps sha X (control_commit (\<lambda>c. BindAttemptSession c ref at r))"
  by (rule resting_unmoved; (erule store_step.bind |
    auto dest!: bind_session_effect(1)))

lemma resting_renew: "resting.keeps sha X (control_commit (\<lambda>c. RenewFenceForAttempt c aid at))"
  by (rule resting_step; (erule store_step.renew | erule (2) rows_renew |
    auto intro: no_revival_same simp: RenewFenceForAttempt_def))

lemma resting_release: "x \<in> X \<Longrightarrow> resting.keeps sha X (releaseCustody w x reason)"
  unfolding releaseCustody_def
proof (intro resting.keeps_rules resting.keeps_control impI)
  fix at :: instant and db r c
  assume x: "x \<in> X" and t: "ReleaseFenceForAttempt (control_view db) x reason at = Inr (r, c)"
    and rested: "rested sha X db"
  then have ok: "custodial sha db" and settled: "\<forall>x\<in>X. settled_row x (db_Control db)" by (simp_all add: rested_def)
  have f: "release_fences (control_view db) x reason at = Inr (r, c)"
    using t by (auto simp: ReleaseFenceForAttempt_def split: if_splits)
  have "fenced_rows (home db) c"
    using rows_release [OF f, of "home db"] custodial_ok [OF ok] settled x ok by (simp add: store_ok_def custodial_def)
  moreover have "db_step sha db (db\<lparr>db_Control := c\<rparr>)"
    using store_step.release [OF t] by (rule db_step.control)
  moreover have "\<forall>x\<in>X. settled_row x c"
    using settled release_fences_effect(3) [OF f] by (auto simp: settled_row_def)
  ultimately show "rested sha X (db\<lparr>db_Control := c\<rparr>)"
    using ok honoured_same [OF release_fences_effect(3) [OF f] intents_kept(2) [OF f]]
    by (auto simp: rested_def custodial_def intro: db_reachable.committed)
qed

lemmas resting_writes = resting_observe resting_recordReceipt resting_transition resting_bind resting_renew
  resting.keeps_view

end
