(* ===== verification/Placement.thy ===== *)
theory Placement
  imports Outcome_Steps
begin

text \<open>
  An outcome stays in the project it was created in: no transaction removes or moves an outcome,
  and a space keeps its project.
\<close>

definition places :: "outcome_db \<Rightarrow> (ident \<times> ident) list" where
  "places db = map (\<lambda>r. (o_ID r, o_SpaceID r)) (db_Outcomes db)"

definition placed :: "outcome_db \<Rightarrow> outcome_db \<Rightarrow> bool" where
  "placed db db' \<longleftrightarrow> (\<exists>more. places db' = places db @ more) \<and>
     (\<forall>k. db_Spaces db k \<noteq> None \<longrightarrow> db_Spaces db' k = db_Spaces db k)"

lemma placed_refl [simp]: "placed db db"
  by (simp add: placed_def)

lemma placed_trans [trans]: "placed a b \<Longrightarrow> placed b c \<Longrightarrow> placed a c"
  unfolding placed_def by (metis append.assoc)

lemma placed_same: "db_Outcomes db' = db_Outcomes db \<Longrightarrow> db_Spaces db' = db_Spaces db \<Longrightarrow> placed db db'"
  by (simp add: placed_def places_def)

lemma project_of_places:
  "GetOutcomeProjectID db oid =
     (case find (\<lambda>p. fst p = oid) (places db) of None \<Rightarrow> None | Some p \<Rightarrow> db_Spaces db (snd p))"
proof -
  have "find (\<lambda>p. fst p = oid) (map (\<lambda>r. (o_ID r, o_SpaceID r)) rows) =
      map_option (\<lambda>r. (o_ID r, o_SpaceID r)) (find (\<lambda>r. o_ID r = oid) rows)" for rows :: "outcome_row list"
    by (induction rows) auto
  then show ?thesis
    by (simp add: GetOutcomeProjectID_def outcome_row_by_id_def places_def split: option.split)
qed

lemma find_append: "find P xs = Some x \<Longrightarrow> find P (xs @ ys) = Some x"
  by (induction xs) (auto split: if_splits)

lemma project_stays: "placed db db' \<Longrightarrow> GetOutcomeProjectID db oid = Some p \<Longrightarrow> GetOutcomeProjectID db' oid = Some p"
  by (auto simp: project_of_places placed_def find_append split: option.splits)

section \<open>Every transaction\<close>

lemma placed_advance: "placed db (snd (advance_current db oid e n at))"
  by (auto simp: placed_def places_def advance_current_def Let_def intro!: exI [of _ "[]"])

lemma placed_insert_contract: "insertContractRevision db now r = Inr (u, db') \<Longrightarrow> placed db db'"
  by (erule insertContractRevision_effect) (simp add: placed_same)

lemma placed_start: "start_outcome db now r key first = Inr (u, db') \<Longrightarrow> placed db db'"
proof -
  assume start: "start_outcome db now r key first = Inr (u, db')"
  let ?db1 = "db\<lparr>db_Outcomes := db_Outcomes db @ [new_outcome_row now r key]\<rparr>"
  obtain n db2 where ins: "insertContractRevision ?db1 now (first\<lparr>cr_Number := n\<rparr>) = Inr ((), db2)"
      and db': "db' = snd (advance_current db2 (o_ID r) 0 n (cr_CreatedAt first))"
    using start by (auto simp: start_outcome_def Let_def and_then_Inr case_prod_unfold split: if_split_asm)
  have "placed db ?db1" by (simp add: placed_def places_def)
  also have "placed ?db1 db2" by (rule placed_insert_contract [OF ins])
  also have "placed db2 db'" unfolding db' by (rule placed_advance)
  finally show "placed db db'" .
qed

lemma placed_links: "insert_links db now ls = Inr (u, db') \<Longrightarrow> placed db db'"
proof (induction db now ls rule: insert_links.induct)
  case (2 db now l ls)
  then show ?case
    by (auto simp: placed_def places_def split: if_splits)
qed simp

lemma placed_bind: "placed db (snd (bind_contribution db row child))"
  by (simp add: bind_contribution_def Let_def placed_same)

lemma placed_authorize_each: "authorize_each db now did as = Inr (u, db') \<Longrightarrow> placed db db'"
proof (induction as arbitrary: db)
  case (Cons a rest)
  obtain db1 db2 where
      start: "start_outcome db now (au_Outcome a) None (au_First a) = Inr ((), db1)" and
      links: "insert_links db1 now (au_Links a) = Inr ((), db2)" and
      more: "authorize_each (snd (bind_contribution db2 (contributionRowID did (au_Ref a)) (o_ID (au_Outcome a))))
        now did rest = Inr (u, db')"
    using Cons.prems by (auto simp: and_then_Inr case_prod_unfold split: if_split_asm)
  from placed_start [OF start] placed_links [OF links] have "placed db db2" by (rule placed_trans)
  also note placed_bind
  also note Cons.IH [OF more]
  finally show ?case .
qed simp

lemma placed_decision: "insert_decision db d = Inr (u, db') \<Longrightarrow> placed db db'"
  by (rule placed_same) (auto simp: insert_decision_def split: if_splits option.splits)

lemma placed_correction: "insert_correction db c = Inr (u, db') \<Longrightarrow> placed db db'"
  by (rule placed_same) (auto simp: insert_correction_def split: if_splits option.splits)

lemma placed_decisions: "insert_decisions db ds = Inr (u, db') \<Longrightarrow> placed db db'"
  by (induction db ds rule: insert_decisions.induct) (auto simp: and_then_Inr dest: placed_decision intro: placed_trans)

lemma placed_step:
  assumes "db_step sha db db'" shows "placed db db'"
  using assms
proof (induction rule: db_step.induct)
  case (start db now r first key u db')
  then show ?case by (auto elim: create_outcome_effect dest: placed_start)
next
  case (contribute db now r first links key u db')
  from contribute(1) obtain k db1 where st: "start_outcome db now r k first = Inr ((), db1)"
      and li: "insert_links db1 now links = Inr (u, db')" by (rule contribution_effect)
  show ?case by (rule placed_trans [OF placed_start [OF st] placed_links [OF li]])
next
  case (revise db now oid expected r n db')
  then obtain db1 where ins: "insertContractRevision db now (r\<lparr>cr_Number := nextRevisionNumber db oid\<rparr>) = Inr ((), db1)"
      and db': "db' = snd (advance_current db1 oid expected (nextRevisionNumber db oid) now)"
    by (auto simp: AppendContractRevision_def Let_def and_then_Inr case_prod_unfold split: if_split_asm)
  show ?case unfolding db' by (rule placed_trans [OF placed_insert_contract [OF ins] placed_advance])
next
  case (plan db linked oid p q db')
  then have "db' = db\<lparr>db_Plans := db_Plans db @ [q]\<rparr>" by (simp add: plan_effect)
  then show ?case by (simp add: placed_same)
next
  case (approve db oid pid r db')
  from approve(1) obtain f where "db' = db\<lparr>db_Plans := map f (db_Plans db)\<rparr>" by (rule approve_effect)
  then show ?case by (simp add: placed_same)
next
  case (evidence db e u db')
  then show ?case by (intro placed_same) (auto simp: CreateEvidenceItem_def split: if_splits option.splits)
next
  case (verify db v u db')
  then show ?case by (intro placed_same) (auto simp: CreateVerificationRun_def split: if_splits option.splits)
next
  case (decide db d c u db')
  then obtain db1 where "insert_decision db d = Inr ((), db1)"
      "db' = db1 \<or> (\<exists>x. insert_correction db1 x = Inr (u, db'))"
    by (auto simp: CreateAcceptanceDecision_def and_then_Inr split: if_splits option.splits)
  then show ?case using placed_decision placed_correction placed_trans by blast
next
  case (decide_batch db ds u db')
  then show ?case
    by (auto simp: CreateAcceptanceDecisionBatch_def split: if_splits option.splits dest: placed_decisions)
next
  case (decompose db x y db')
  then obtain d where "db' = db\<lparr>db_Decompositions := d\<rparr>" using decompose_effect by blast
  then show ?case by (simp add: placed_same)
next
  case (authorize db now oid did cs at u db')
  then obtain f where "authorize_each (db\<lparr>db_Decompositions := f\<rparr>) now did cs = Inr (u, db')"
    by (auto simp: AuthorizeDecompositionRevision_def Let_def split: option.splits if_splits)
  from placed_authorize_each [OF this] have "placed (db\<lparr>db_Decompositions := f\<rparr>) db'" .
  moreover have "placed db (db\<lparr>db_Decompositions := f\<rparr>)" by (simp add: placed_same)
  ultimately show ?case by (rule placed_trans [rotated])
next
  case (waive db w u db')
  then obtain d where "db' = db\<lparr>db_Waivers := d\<rparr>" using waive_effect by blast
  then show ?case by (simp add: placed_same)
next
  case (spaces db sp)
  then show ?case by (simp add: placed_def places_def)
qed (simp_all add: placed_same)

end
