(* ===== verification/Single_Writer.thy ===== *)
theory Single_Writer
  imports Custody Placement
begin

text \<open>
  The commands keep the custody invariant. Triples over actions carry what a command has just read
  to the transaction that relies on it: the attempt that stopped being live before its fence is
  released, the project whose fence an admission takes.
\<close>

section \<open>Triples\<close>

definition triple :: "(outcome_db \<Rightarrow> bool) \<Rightarrow> 'r action \<Rightarrow> ('r \<Rightarrow> outcome_db \<Rightarrow> bool) \<Rightarrow> bool" where
  "triple P m Q \<longleftrightarrow> (\<forall>s r s'. P (sv_DB s) \<longrightarrow> m s = (r, s') \<longrightarrow> Q r (sv_DB s'))"

lemma tripleD: "triple P m Q \<Longrightarrow> P (sv_DB s) \<Longrightarrow> m s = (r, s') \<Longrightarrow> Q r (sv_DB s')"
  unfolding triple_def by blast

lemma triple_weaken:
  "triple P m Q \<Longrightarrow> (\<And>db. P' db \<Longrightarrow> P db) \<Longrightarrow> (\<And>r db. Q r db \<Longrightarrow> Q' r db) \<Longrightarrow> triple P' m Q'"
  unfolding triple_def by blast

lemma triple_give: "(\<And>db. P db \<Longrightarrow> Q r db) \<Longrightarrow> triple P (give r) Q"
  by (simp add: triple_def)

lemma triple_reading: "(\<And>db. P db \<Longrightarrow> Q (f db) db) \<Longrightarrow> triple P (reading f) Q"
  by (auto simp: triple_def)

lemma triple_clock: "triple P (clock w) (\<lambda>_. P)" "triple P (fresh w) (\<lambda>_. P)"
  by (auto simp: triple_def clock_def fresh_def)

lemma triple_next: "triple P m R \<Longrightarrow> (\<And>r. triple (R r) (f r) Q) \<Longrightarrow> triple P (next_do m f) Q"
  unfolding triple_def by (metis next_do_split)

lemma triple_try:
  assumes "triple P m R" "\<And>e db. R (Inl e) db \<Longrightarrow> Q db" "\<And>x. triple (R (Inr x)) (f x) (\<lambda>_. Q)"
  shows "triple P (try_do m f) (\<lambda>_. Q)"
  unfolding try_do_def
  using assms by (intro triple_next [OF assms(1)]) (auto intro: triple_give split: sum.split)

lemma triple_control:
  assumes "\<And>db e. P db \<Longrightarrow> t (control_view db) = Inl e \<Longrightarrow> Q (Inl e) db"
    and "\<And>db r c. P db \<Longrightarrow> t (control_view db) = Inr (r, c) \<Longrightarrow> Q (Inr r) (db\<lparr>db_Control := c\<rparr>)"
  shows "triple P (control_commit t) Q"
  using assms by (auto simp: triple_def control_commit_def split: sum.splits)

lemma triple_rested: "resting.keeps sha X m \<Longrightarrow> triple (rested sha X) m (\<lambda>_. rested sha X)"
  unfolding triple_def resting.keeps_def by (metis snd_conv)

section \<open>An attempt that a command has read\<close>

definition anchored :: "(string \<Rightarrow> string) \<Rightarrow> attempt \<Rightarrow> outcome_db \<Rightarrow> bool" where
  "anchored sha a db \<longleftrightarrow> custodial sha db \<and> a \<in> set (st_Attempts (db_Control db))"

lemma custodial_rested: "custodial sha db \<longleftrightarrow> rested sha {} db"
  by (simp add: rested_def)

lemma triple_custodial: "resting.keeps sha {} m \<Longrightarrow> triple (custodial sha) m (\<lambda>_. custodial sha)"
  by (rule triple_weaken [OF triple_rested]) (simp_all add: custodial_rested)

lemma triple_anchored:
  assumes "resting.keeps sha {} m" "alone.keeps (a_ID a) m"
  shows "triple (anchored sha a) m (\<lambda>_. anchored sha a)"
proof -
  have "a \<in> set (st_Attempts (db_Control (sv_DB s')))"
    if "a \<in> set (st_Attempts (db_Control (sv_DB s)))" "m s = (r, s')" for s r s'
  proof -
    have "attempt_rows (sv_DB s') (a_ID a) = attempt_rows (sv_DB s) (a_ID a)"
      using alone.keepsD [OF assms(2) that(2)] by (simp add: left_alone_def)
    moreover have "a \<in> set (attempt_rows (sv_DB s) (a_ID a))" using that(1) by (simp add: attempt_rows_def)
    ultimately have "a \<in> set (attempt_rows (sv_DB s') (a_ID a))" by metis
    then show ?thesis by (simp add: attempt_rows_def)
  qed
  then show ?thesis
    using triple_custodial [OF assms(1)] unfolding triple_def anchored_def by blast
qed

lemma anchored_unique:
  assumes "anchored sha a db" "b \<in> set (st_Attempts (db_Control db))" "a_ID b = a_ID a" shows "b = a"
proof -
  have "lineage_ok (control_view db)" using assms(1) custodial_ok by (auto simp: anchored_def store_ok_def)
  then show ?thesis
    using assms distinct_map_unique [of a_ID "st_Attempts (db_Control db)" b a] by (simp add: lineage_ok_def anchored_def)
qed

lemma anchored_settled: "anchored sha a db \<Longrightarrow> \<not> live (a_Status a) \<Longrightarrow> rested sha {a_ID a} db"
  using anchored_unique by (auto simp: rested_def settled_row_def anchored_def)

lemma anchored_found:
  "custodial sha db \<Longrightarrow> GetAttempt (db_Control db) oid aid = Some a \<Longrightarrow> anchored sha a db \<and> a_ID a = aid \<and> a_OutcomeID a = oid"
  by (auto simp: anchored_def GetAttempt_def dest: find_SomeD)

text \<open>From a settled attempt, a command that keeps it settled keeps the invariant.\<close>

lemma triple_settled:
  assumes "resting.keeps sha {a_ID a} m" "\<not> live (a_Status a)"
  shows "triple (anchored sha a) m (\<lambda>_. custodial sha)"
  by (rule triple_weaken [OF triple_rested [OF assms(1)]])
    (use anchored_settled assms(2) in \<open>auto simp: rested_def\<close>)

section \<open>Recovery\<close>

lemma resting_recovered: "resting.keeps sha X (recovered w a p)"
  unfolding recovered_def by (intro resting.keeps_try resting_writes resting.keeps_give)

lemma resting_receipt_then: "resting.keeps sha X (try_do (recordReceipt w aid res text) (\<lambda>r. recovered w a (Some r)))"
  by (intro resting.keeps_try resting_writes resting_recovered)

lemma resting_accounts:
  "resting.keeps sha {a_ID a} (accountTerminalCustody w a reason)"
  "resting.keeps sha {a_ID a} (accountSucceededCustody w a)"
  unfolding accountTerminalCustody_def accountSucceededCustody_def
  by (auto intro!: resting.keeps_next resting.keeps_try resting_release resting_writes resting_recovered split: if_split)

lemma resting_resolve: "resting.keeps sha X (resolveGovernedCheckTerminationUnknown w aid sid)"
  unfolding resolveGovernedCheckTerminationUnknown_def importGovernedCheckUncertainty_def
  by (auto intro!: resting.keeps_rules resting_writes split: sum.split option.split)

lemma resting_refuse: "resting.keeps sha X (refuseUnprovenCustody w aid)"
  unfolding refuseUnprovenCustody_def by (intro resting.keeps_next resting_writes) simp

text \<open>The verdict lost: either the guarded update hit the attempt, or it was lost already.\<close>

lemma lost_settles:
  assumes "anchored sha a db"
    and "update_status (control_view db) (a_OutcomeID a) (a_ID a) (a_Status a) AttemptLost at = Inr (k, c)"
    and "\<not> (k = 0 \<and> a_Status a \<noteq> AttemptLost)"
  shows "settled_row (a_ID a) c"
proof (cases "k = 0")
  case True
  then have "settled_row (a_ID a) (control_view db)"
    using anchored_settled [OF assms(1)] assms(3) by (simp add: rested_def live_def)
  then show ?thesis using settled_no_revival rows_transition(1) [OF assms(2)] by blast
next
  case False
  have "lineage_ok (control_view db)" using assms(1) custodial_ok by (auto simp: anchored_def store_ok_def)
  then show ?thesis using settled_transition [OF assms(2) False] by (simp add: live_def)
qed

lemma custodial_forceLost: "triple (anchored sha a) (forceLost w a resolution text) (\<lambda>_. custodial sha)"
proof -
  define R where "R = (\<lambda>r db. case r of Inr (k::nat) \<Rightarrow> (if k = 0 \<and> a_Status a \<noteq> AttemptLost then custodial sha db
      else rested sha {a_ID a} db) | Inl (_::api_error) \<Rightarrow> custodial sha db)"
  have written: "triple (anchored sha a)
      (control (\<lambda>c. TransitionAttemptStatus c (a_OutcomeID a) (a_ID a) (a_Status a) AttemptLost at)) R" for at
    unfolding triple_def
  proof (intro allI impI)
    fix s r s' assume anchor: "anchored sha a (sv_DB s)"
      and run: "control (\<lambda>c. TransitionAttemptStatus c (a_OutcomeID a) (a_ID a) (a_Status a) AttemptLost at) s = (r, s')"
    have kept: "custodial sha (sv_DB s')"
      using tripleD [OF triple_custodial [OF resting.keeps_passing [OF resting_transition]] _ run] anchor
      by (simp add: anchored_def)
    show "R r (sv_DB s')"
    proof (cases "update_status (control_view (sv_DB s)) (a_OutcomeID a) (a_ID a) (a_Status a) AttemptLost at")
      case (Inl e)
      then show ?thesis using run kept by (auto simp: R_def action_defs TransitionAttemptStatus_def)
    next
      case (Inr p)
      obtain k c where p: "p = (k, c)" by (cases p)
      then have "r = Inr k" "sv_DB s' = (sv_DB s)\<lparr>db_Control := c\<rparr>"
        using run Inr by (auto simp: action_defs TransitionAttemptStatus_def)
      then show ?thesis using kept lost_settles [OF anchor, of at k c] Inr p by (auto simp: R_def rested_def)
    qed
  qed
  have rest: "triple (R (Inr k)) (if k = 0 \<and> a_Status a \<noteq> AttemptLost then give (Inl (Conflict AttemptStatusMoved))
      else try_do (releaseCustody w (a_ID a) ''reconciled_lost'') (\<lambda>_.
        try_do (recordReceipt w (a_ID a) resolution (evidence text)) (\<lambda>r. recovered w a (Some r)))) (\<lambda>_. custodial sha)" for k
  proof (cases "k = 0 \<and> a_Status a \<noteq> AttemptLost")
    case True
    then show ?thesis by (auto simp: R_def intro: triple_give)
  next
    case False
    have "resting.keeps sha {a_ID a} (try_do (releaseCustody w (a_ID a) ''reconciled_lost'') (\<lambda>_.
        try_do (recordReceipt w (a_ID a) resolution (evidence text)) (\<lambda>r. recovered w a (Some r))))"
      by (intro resting.keeps_try resting_release resting_receipt_then) simp
    from triple_weaken [OF triple_rested [OF this]] show ?thesis using False by (auto simp: R_def rested_def)
  qed
  show ?thesis unfolding forceLost_def
    by (rule triple_next [OF triple_clock(1)], rule triple_try [OF written _ rest]) (simp add: R_def)
qed

lemma anchored_with_stop_proof:
  assumes "\<And>p. triple (anchored sha a) (verdict p) (\<lambda>_. custodial sha)"
  shows "triple (anchored sha a) (with_stop_proof w a confirmed f verdict) (\<lambda>_. custodial sha)"
proof -
  have resolved: "triple (anchored sha a) (resolveGovernedCheckTerminationUnknown w (a_ID a) (fa_SessionID f)) (\<lambda>_. anchored sha a)"
    by (rule triple_anchored [OF resting_resolve alone_resolve])
  have "triple (anchored sha a) (maybeRecordOwnerContainment w (a_ID a) p) (\<lambda>_. anchored sha a)" for p
    unfolding maybeRecordOwnerContainment_def
    by (auto intro!: triple_anchored resting.keeps_try alone.keeps_try resting_observe alone_observe)
  then have proven: "triple (anchored sha a) (try_do (maybeRecordOwnerContainment w (a_ID a) p) (\<lambda>_. verdict p)) (\<lambda>_. custodial sha)" for p
    by (rule triple_try) (use assms in \<open>auto simp: anchored_def\<close>)
  have refused: "triple (anchored sha a) (refuseUnprovenCustody w (a_ID a)) (\<lambda>_. custodial sha)"
    by (rule triple_weaken [OF triple_custodial [OF resting_refuse]]) (simp_all add: anchored_def)
  show ?thesis unfolding with_stop_proof_def Let_def
    by (rule triple_try [OF resolved]) (use proven refused in \<open>auto simp: anchored_def split: if_split\<close>)
qed

lemma anchored_custodial: "resting.keeps sha {} m \<Longrightarrow> triple (anchored sha a) m (\<lambda>_. custodial sha)"
  by (rule triple_weaken [OF triple_custodial]) (simp_all add: anchored_def)

lemma anchored_reading: "triple (anchored sha a) (reading f) (\<lambda>_. anchored sha a)"
  by (rule triple_reading)

lemma custodial_reconcile: "triple (anchored sha a) (reconcileAttempt w a confirmed) (\<lambda>_. custodial sha)"
proof (cases "a_Status a = AttemptSucceeded")
  case True
  then show ?thesis unfolding reconcileAttempt_def using triple_settled [OF resting_accounts(2)] by (simp add: live_def)
next
  case False
  have terminal: "triple (anchored sha a) (accountTerminalCustody w a reason) (\<lambda>_. custodial sha)"
    if "a_Status a \<in> set [AttemptFailed, AttemptCancelled, AttemptReconciled]" for reason
    using triple_settled [OF resting_accounts(1)] that by (auto simp: live_def)
  have "triple (anchored sha a) (with_stop_proof w a confirmed f (\<lambda>p.
      if a_Status a \<in> set [AttemptFailed, AttemptCancelled, AttemptReconciled]
      then accountTerminalCustody w a (cu_Reason p)
      else forceLost w a RecoveryReplacement (''reconcile could not prove liveness; provider stop '' @ cu_Reason p)))
      (\<lambda>_. custodial sha)" for f
    by (rule anchored_with_stop_proof) (auto intro: terminal custodial_forceLost)
  moreover have "triple (anchored sha a) (try_do (recordReceipt w (a_ID a) RecoveryResumed detail)
      (\<lambda>r. recovered w a (Some r))) (\<lambda>_. custodial sha)" for detail
    by (rule anchored_custodial [OF resting_receipt_then])
  ultimately show ?thesis using False unfolding reconcileAttempt_def
    by (auto intro!: triple_try [OF anchored_reading] simp: anchored_def)
qed

lemma custodial_replace: "triple (anchored sha a) (recoveryReplace w a confirmed) (\<lambda>_. custodial sha)"
proof (cases "a_Status a = AttemptSucceeded")
  case True
  then show ?thesis unfolding recoveryReplace_def using triple_settled [OF resting_accounts(2)] by (simp add: live_def)
next
  case False
  have ended: "triple (anchored sha a) (try_do (releaseCustody w (a_ID a) reason) (\<lambda>_.
      try_do (recordReceipt w (a_ID a) RecoveryReplacement detail) (\<lambda>r. recovered w a (Some r)))) (\<lambda>_. custodial sha)"
    if "\<not> live (a_Status a)" for reason detail
    by (rule triple_settled [OF _ that]) (intro resting.keeps_try resting_release resting_receipt_then, simp)
  have refused: "triple (anchored sha a) (give (Inl e)) (\<lambda>_. custodial sha)" for e
    by (rule triple_give) (simp add: anchored_def)
  show ?thesis using False unfolding recoveryReplace_def
    by (auto intro!: triple_try [OF anchored_reading] anchored_with_stop_proof custodial_forceLost ended refused
        simp: anchored_def)
qed

lemma resting_contain: "resting.keeps sha X (containAttempt w a)" "resting.keeps sha X (recoveryAttention w a)"
  unfolding containAttempt_def recoveryAttention_def
  by (auto intro!: resting.keeps_try resting_writes resting_recovered split: if_split)

lemma custodial_RecoverAttempt: "triple (custodial sha) (RecoverAttempt w oid aid verb confirmed) (\<lambda>_. custodial sha)"
proof -
  define R where "R = (\<lambda>y db. case y of Inl (_::api_error) \<Rightarrow> custodial sha db
      | Inr ((a :: attempt), (_ :: outcome)) \<Rightarrow> anchored sha a db)"
  have read: "triple (custodial sha) (reading (requireAttempt oid aid)) R"
    by (rule triple_reading)
      (auto simp: R_def requireAttempt_def dest: anchored_found split: sum.split option.split)
  have contained: "triple (anchored sha a) (containAttempt w a) (\<lambda>_. custodial sha)"
    "triple (anchored sha a) (recoveryAttention w a) (\<lambda>_. custodial sha)"
    "triple (anchored sha a) (give (Inl e)) (\<lambda>_. custodial sha)" for a e
    by (intro anchored_custodial resting_contain resting.keeps_give)+
  show ?thesis unfolding RecoverAttempt_def
    by (auto intro!: triple_give triple_try [OF read] contained custodial_reconcile custodial_replace
        simp: R_def split: recovery_action.split)
qed

section \<open>The other commands\<close>

lemma resting_prelaunch: "resting.keeps sha X (admitPrelaunchFailure w oid u a x)"
proof -
  have "resting.keeps sha X (control_commit (\<lambda>c. FailAttemptBeforeLaunch c obs f))" for obs f
  proof (rule resting_step)
    fix s r c assume t: "FailAttemptBeforeLaunch s obs f = Inr (r, c)"
    then show "store_step sha s c" by (rule store_step.prelaunch)
    show "store_ok s \<Longrightarrow> fenced_rows h s \<Longrightarrow> fenced_rows h c" for h by (rule rows_prelaunch [OF t])
    obtain s1 s2 where p:
        "append_validated s (new_observation s obs (pf_AttemptID f) (pf_ObservationKind f)
           (pf_ObservationPayload f) (pf_At f)) = Inr (r, s1)"
        "update_status s1 (pf_OutcomeID f) (pf_AttemptID f) AttemptQueued AttemptFailed (pf_At f) = Inr (1, s2)"
        "release_fences s2 (pf_AttemptID f) (pf_ReleaseReason f) (pf_At f) = Inr (1, c)"
      using t by (rule prelaunch_parts)
    have "no_revival s s1" using append_validated_effect(1) [OF p(1)] by (simp add: no_revival_same)
    moreover have "no_revival s2 c" using release_fences_effect(3) [OF p(3)] by (rule no_revival_same)
    moreover have "st_Intents c = st_Intents s" using p intents_kept by metis
    ultimately show "no_revival s c \<and> st_Intents c = st_Intents s"
      using rows_transition(1) [OF p(2)] no_revival_trans by blast
  qed
  then show ?thesis unfolding admitPrelaunchFailure_def refused_after_def Let_def
    by (intro resting.keeps_next resting.keeps_passing resting.keeps_clock resting.keeps_give)
qed

lemma resting_unresolved: "resting.keeps sha X (admitUnresolved w aid kind cause)"
  unfolding admitUnresolved_def refused_after_def Let_def
  by (intro resting.keeps_next resting_observe resting_recordReceipt resting.keeps_give)

lemma resting_launch: "resting.keeps sha X (launch w p oid k now a)"
proof -
  have "resting.keeps sha X (activate w oid k a sn policy d now)" for sn policy d
    unfolding activate_def unresolved_activation_def Let_def
    by (auto intro!: resting.keeps_next resting_writes resting_unresolved split: sum.split)
  then show ?thesis unfolding launch_def unresolved_activation_def
    by (auto intro!: resting_prelaunch resting_unresolved split: sum.split)
qed

text \<open>The fence of an admission is the one of the outcome's project as the admission read it.\<close>

lemma prepared_project:
  "prepareAdmission w p oid inp db = Inr k \<Longrightarrow> GetOutcomeProjectID db oid = Some (ap_ProjectID k)"
  by (auto simp: prepareAdmission_def and_then_Inr split: option.splits)

text \<open>And its generation is the one of the run intent it read.\<close>

definition current_run :: "outcome_db \<Rightarrow> ident \<Rightarrow> int" where
  "current_run db oid = (case CurrentRunIntent (st_Intents (db_Control db)) oid of None \<Rightarrow> 0 | Some i \<Rightarrow> ri_Generation i)"

lemma prepared_generation: "prepareAdmission w p oid inp db = Inr k \<Longrightarrow> ap_Generation k = current_run db oid"
  by (auto simp: prepareAdmission_def authorized_plan_def refuseAdmissionAgainstRunIntent_def current_run_def and_then_Inr
      split: option.splits if_splits)

definition at_home :: "(string \<Rightarrow> string) \<Rightarrow> ident \<Rightarrow> admission_packet \<Rightarrow> outcome_db \<Rightarrow> bool" where
  "at_home sha oid k db \<longleftrightarrow> custodial sha db \<and> GetOutcomeProjectID db oid = Some (ap_ProjectID k) \<and>
     ap_Generation k = current_run db oid"

lemma custodial_create:
  "triple (at_home sha oid k)
     (control_commit (\<lambda>c. CreateAttemptWithFence c aid fid (admission_of oid k key now))) (\<lambda>_. custodial sha)"
  unfolding triple_def
proof (intro allI impI)
  fix s r s'
  let ?d = "admission_of oid k key now"
  assume home: "at_home sha oid k (sv_DB s)"
    and run: "control_commit (\<lambda>c. CreateAttemptWithFence c aid fid ?d) s = (r, s')"
  then have ok: "custodial sha (sv_DB s)" by (simp add: at_home_def)
  show "custodial sha (sv_DB s')"
  proof (cases "CreateAttemptWithFence (control_view (sv_DB s)) aid fid ?d")
    case (Inl e)
    then show ?thesis using run ok by (auto simp: control_commit_def)
  next
    case (Inr p)
    obtain a c where p: "p = (a, c)" by (cases p)
    note created = Inr [unfolded p]
    have "home (sv_DB s) (ad_OutcomeID ?d) = Some (ad_FenceSubject ?d)"
      using home by (simp add: home_def at_home_def admission_of_def)
    then have "fenced_rows (home (sv_DB s)) c"
      using rows_create [OF created custodial_ok [OF ok]] ok by (simp add: custodial_def)
    moreover have "honoured c"
      using honoured_create [OF created custodial_ok [OF ok]] home ok
      by (simp add: at_home_def admission_of_def current_run_def custodial_def)
    moreover have "db_step sha (sv_DB s) ((sv_DB s)\<lparr>db_Control := c\<rparr>)"
      using store_step.create [OF created] by (rule db_step.control)
    moreover have "sv_DB s' = (sv_DB s)\<lparr>db_Control := c\<rparr>" using run created by (auto simp: control_commit_def)
    ultimately show ?thesis using ok by (auto simp: custodial_def intro: db_reachable.committed)
  qed
qed

lemma custodial_StartAttempt: "triple (custodial sha) (StartAttempt w p oid inp) (\<lambda>_. custodial sha)"
proof -
  have view: "triple (custodial sha) (AttemptView w o' a') (\<lambda>_. custodial sha)" for o' a'
    by (rule triple_custodial [OF resting.keeps_view])
  have refused: "triple (custodial sha) (give e) (\<lambda>_. custodial sha)" for e :: "api_error + attempt_view"
    by (rule triple_give)
  have after: "triple (custodial sha) (case r of Inl e \<Rightarrow> refused_creation w e | Inr a \<Rightarrow> launch w p oid k now a)
      (\<lambda>_. custodial sha)" for r k now
    by (cases r) (auto simp: refused_creation_def intro: view refused triple_custodial resting_launch split: store_error.split)
  define R where "R = (\<lambda>y db. case y of Inl (_::api_error) \<Rightarrow> custodial sha db
      | Inr (k :: admission_packet) \<Rightarrow> at_home sha oid k db)"
  have read: "triple (custodial sha) (reading (prepareAdmission w p oid inp)) R"
    by (rule triple_reading) (auto simp: R_def at_home_def prepared_project prepared_generation split: sum.split)
  have "triple (custodial sha) (admit w p oid inp) (\<lambda>_. custodial sha)" unfolding admit_def
    by (rule triple_try [OF read]) (auto simp: R_def
        intro!: triple_next [OF triple_clock(1)] triple_next [OF triple_clock(2)] triple_next [OF custodial_create] after)
  moreover have "triple (custodial sha) (reading f) (\<lambda>_. custodial sha)" for f :: "outcome_db \<Rightarrow> attempt option"
    by (rule triple_reading)
  ultimately show ?thesis unfolding StartAttempt_def replayed_start_def
    by (auto intro!: triple_next view refused split: option.split)
qed

lemma custodial_CancelAttempt: "triple (custodial sha) (CancelAttempt w oid aid) (\<lambda>_. custodial sha)"
  by (rule triple_custodial) (auto simp: CancelAttempt_def stop_refused_def refused_after_def Let_def
      intro!: resting.keeps_next resting.keeps_try resting.keeps_passing resting_writes
      split: if_split prod.split option.split sum.split)

lemma custodial_RecordObservation: "triple (custodial sha) (RecordObservation w oid aid kind detail) (\<lambda>_. custodial sha)"
  by (rule triple_custodial) (auto simp: RecordObservation_def Let_def
      intro!: resting.keeps_try resting_writes split: if_split prod.split)

lemma resting_end: "resting.keeps sha X (end_if_terminated w a f)"
proof -
  have "resting.keeps sha X (control_commit (\<lambda>c. TerminateRunningAttemptWithObservation c obs (exit_record a f at)))" for obs at
  proof (rule resting_step)
    fix s r c assume t: "TerminateRunningAttemptWithObservation s obs (exit_record a f at) = Inr (r, c)"
    then show "store_step sha s c" by (rule store_step.terminate)
    show "store_ok s \<Longrightarrow> fenced_rows h s \<Longrightarrow> fenced_rows h c" for h
      by (rule rows_terminate [OF t]) (simp_all add: exit_record_def live_def)
    show "no_revival s c \<and> st_Intents c = st_Intents s" using t
    proof (cases rule: terminate_parts)
      case (ended k s1 o' s2)
      have "no_revival s1 s2" using append_validated_effect(1) [OF ended(2)] by (simp add: no_revival_same)
      moreover have "no_revival s2 c" using ended(3) release_fences_effect(3) by (auto intro: no_revival_same)
      moreover have "st_Intents c = st_Intents s" using ended intents_kept by metis
      ultimately show ?thesis using rows_transition(1) [OF ended(1)] no_revival_trans by blast
    qed (simp add: no_revival_same)
  qed
  moreover have "resting.keeps sha X (importGovernedCheckUncertainty w aid sid)" for aid sid
    unfolding importGovernedCheckUncertainty_def
    by (auto intro!: resting.keeps_rules resting_writes split: sum.split option.split)
  ultimately show ?thesis unfolding end_if_terminated_def
    by (auto intro!: resting.keeps_next resting.keeps_passing split: sum.split)
qed

lemma custodial_Evaluate: "triple (custodial sha) (EvaluateAttemptLiveness w) (\<lambda>_. custodial sha)"
proof -
  have "resting.keeps sha X (renew_if_alive w a f)" for X a f
    unfolding renew_if_alive_def
    by (auto intro!: resting.keeps_next resting.keeps_passing resting_renew split: sum.split)
  then have "resting.keeps sha X (evaluate_one w a)" for X a
    unfolding evaluate_one_def by (auto intro!: resting.keeps_next resting_end split: sum.split)
  then have "resting.keeps sha X (evaluate_all w as)" for X as
    by (induction as) (auto intro!: resting.keeps_next)
  then have "resting.keeps sha {} (EvaluateAttemptLiveness w)"
    unfolding EvaluateAttemptLiveness_def by (auto intro!: resting.keeps_next)
  then show ?thesis by (rule triple_custodial)
qed

lemmas custodial_commands = custodial_StartAttempt custodial_CancelAttempt custodial_RecordObservation
  custodial_Evaluate custodial_RecoverAttempt

end
