(* ===== verification/Run_State.thy ===== *)
theory Run_State
  imports Attempt_Service Outcome_Reads "HOL-Library.AList"
begin

text \<open>
  The Mission projection (internal/service/outcome/run_state.go): where an outcome stands, the one
  concrete reason it needs its owner, and which of the twelve owner moves the daemon would honour.
  Nothing of it is stored: it is derived from the contract, the plan, the schedule, the proof, the
  start gate and the run intent on every read.
\<close>

section \<open>Vocabulary\<close>

datatype mission_state = MissionDefine | MissionReadyToAuthorize | MissionInProgress | MissionNeedsYou
  | MissionReadyForReview | MissionAccepted

datatype run_action = RunActionClarify | RunActionProposePlan | RunActionReviewPlan | RunActionApprovePlan
  | RunActionStart | RunActionPause | RunActionResume | RunActionCancel | RunActionReviewResult
  | RunActionRequestChanges | RunActionAccept | RunActionExport

definition ReasonNoPlan :: string where "ReasonNoPlan = ''no_plan_proposed''"
definition ReasonPlanAlreadyProposed :: string where "ReasonPlanAlreadyProposed = ''plan_already_proposed''"
definition ReasonPlanNotProposed :: string where "ReasonPlanNotProposed = ''plan_not_proposed''"
definition ReasonPlanNotApproved :: string where "ReasonPlanNotApproved = ''plan_not_approved''"
definition ReasonPlanAlreadyApproved :: string where "ReasonPlanAlreadyApproved = ''plan_already_approved''"
definition ReasonPlanStale :: string where "ReasonPlanStale = ''plan_no_longer_binds_current_contract''"
definition ReasonAttemptActive :: string where "ReasonAttemptActive = ''attempt_active''"
definition ReasonAttemptPaused :: string where "ReasonAttemptPaused = ''attempt_paused''"
definition ReasonNoActiveRun :: string where "ReasonNoActiveRun = ''no_active_run''"
definition ReasonNothingRunnable :: string where "ReasonNothingRunnable = ''nothing_runnable''"
definition ReasonStartRequired :: string where "ReasonStartRequired = ''start_required''"
definition ReasonProofIncomplete :: string where "ReasonProofIncomplete = ''proof_incomplete''"
definition ReasonReworkRequired :: string where "ReasonReworkRequired = ''rework_required''"
definition ReasonAlreadyAccepted :: string where "ReasonAlreadyAccepted = ''already_accepted''"
definition ReasonContributionBlocked :: string where "ReasonContributionBlocked = ''contribution_blocked''"
definition ReasonAttemptReplacementRequired :: string where
  "ReasonAttemptReplacementRequired = ''attempt_replacement_required''"
definition ReasonRunIntentUnavailable :: string where "ReasonRunIntentUnavailable = ''run_intent_unavailable''"
definition ReasonDeliveryUnavailable :: string where "ReasonDeliveryUnavailable = ''delivery_unavailable''"
definition ReasonRunAlreadyAuthorized :: string where "ReasonRunAlreadyAuthorized = ''run_already_authorized''"
definition ReasonRunPaused :: string where "ReasonRunPaused = ''run_paused''"
definition ReasonRunIntentPlanSuperseded :: string where
  "ReasonRunIntentPlanSuperseded = ''run_intent_plan_superseded''"
definition ReasonPlanRevisionRequired :: string where "ReasonPlanRevisionRequired = ''plan_revision_required''"
definition ReasonContractRevisionRequired :: string where
  "ReasonContractRevisionRequired = ''contract_revision_required''"

text \<open>Available exactly when there is no reason.\<close>

record action_eligibility =
  el_Action :: run_action
  el_Available :: bool
  el_Reason :: string

type_synonym detail = "(string \<times> json) list"

record run_blocker =
  rb_Code :: string
  rb_Message :: string
  rb_Detail :: detail

record run_intent_view =
  iv_Generation :: int
  iv_Desired :: run_desired
  iv_PlanRevisionID :: ident
  iv_BindsCurrentPlan :: bool
  iv_RequestedAt :: instant
  iv_AcknowledgedAt :: "instant option"
  iv_ActiveAttemptID :: ident
  iv_LastError :: string

record run_freshness =
  rh_ObservedAt :: instant
  rh_ContractRevisionNumber :: int
  rh_PlanRevisionID :: ident
  rh_ProofGeneration :: int

record run_state_view =
  rs_OutcomeID :: ident
  rs_ProjectID :: ident
  rs_Title :: string
  rs_ParentOutcomeID :: ident
  rs_State :: mission_state
  rs_AttentionReason :: string
  rs_Intent :: "run_intent_view option"
  rs_EligibleActions :: "action_eligibility list"
  rs_Blocker :: "run_blocker option"
  rs_Freshness :: run_freshness
  rs_PlanStatus :: plan_status
  rs_PlanBindsCurrentContract :: bool
  rs_ActiveAttemptID :: ident
  rs_ActiveAttemptStatus :: attempt_status
  rs_ProvenCriteria :: int
  rs_RequiredCriteria :: int
  rs_AcceptedAt :: "instant option"

section \<open>The facts of one reading\<close>

record mission_inputs =
  mi_Plan :: "plan_revision option"
  mi_PlanBinds :: bool
  mi_Proof :: proof_view
  mi_Gate :: start_gate
  mi_Active :: "attempt option"
  mi_Schedule :: "schedule_view option"
  mi_Intent :: "run_intent option"
  mi_RunIntentsEnabled :: bool
  mi_ReplacementRequired :: bool

definition desiredRun :: "mission_inputs \<Rightarrow> run_desired" where
  "desiredRun m = (case mi_Intent m of None \<Rightarrow> RunIdle | Some i \<Rightarrow> ri_Desired i)"

definition commandApplies :: "mission_inputs \<Rightarrow> run_command \<Rightarrow> bool" where
  "commandApplies m c = (NextRunIntent (desiredRun m) c \<noteq> None)"

definition correctionRequires :: "mission_inputs \<Rightarrow> reentry_target option" where
  "correctionRequires m = correctionRequiringRevision (mi_Proof m) (mi_Plan m)"

definition continuationAdmits :: "mission_inputs \<Rightarrow> bool" where
  "continuationAdmits m =
     (case (mi_Plan m, mi_Intent m) of
        (Some p, Some i) \<Rightarrow> ri_Desired i = RunRunning \<and> ri_PlanRevisionID i = pr_ID p
      | _ \<Rightarrow> False)"

definition runnable_next :: "mission_inputs \<Rightarrow> ident" where
  "runnable_next m = (case mi_Schedule m of None \<Rightarrow> [] | Some s \<Rightarrow> sv_NextRunnableID s)"

definition no_runnable_name :: "no_runnable_reason \<Rightarrow> string" where
  "no_runnable_name r = (case r of SomethingRunnable \<Rightarrow> [] | NoRunnableAllProven \<Rightarrow> ''all_units_proven''
     | NoRunnableExecuting \<Rightarrow> ''attempt_executing'' | NoRunnablePaused \<Rightarrow> ''attempt_paused''
     | NoRunnableAwaitingProof \<Rightarrow> ''awaiting_proof'')"

definition target_name :: "reentry_target \<Rightarrow> string" where
  "target_name t = (case t of ReentryTargetAttempt \<Rightarrow> ''attempt'' | ReentryTargetWorkUnit \<Rightarrow> ''work_unit''
     | ReentryTargetPlan \<Rightarrow> ''plan'' | ReentryTargetContract \<Rightarrow> ''contract'' | ReentryTargetOther x \<Rightarrow> x)"

definition correctionDetail :: "outcome_correction option \<Rightarrow> detail" where
  "correctionDetail c = (case c of None \<Rightarrow> []
     | Some x \<Rightarrow> [(''decisionId'', JStr (co_DecisionID x)), (''targetType'', JStr (target_name (co_TargetType x))),
                  (''feedback'', JStr (co_Feedback x))] @
         (if co_TargetID x = [] then [] else [(''targetId'', JStr (co_TargetID x))]))"

definition criterionCounts :: "proof_view \<Rightarrow> int \<times> int" where
  "criterionCounts p = (let own = filter (\<lambda>c. \<not> cp_Delegated c) (pv_Criteria p) in
     (int (length own), int (length (filter cp_Ready own))))"

fun newest_decision :: "acceptance_decision option \<Rightarrow> acceptance_decision list \<Rightarrow> acceptance_decision option" where
  "newest_decision latest [] = latest"
| "newest_decision latest (d # ds) = newest_decision
     (case latest of None \<Rightarrow> Some d | Some l \<Rightarrow> if dc_CreatedAt d > dc_CreatedAt l then Some d else latest) ds"

definition latestAcceptance :: "proof_view \<Rightarrow> instant option" where
  "latestAcceptance p =
     (if LatestDecisionAccepts (pv_Decisions p)
      then map_option dc_CreatedAt (newest_decision None (pv_Decisions p)) else None)"

text \<open>The newest of the active attempts that a command covers.\<close>

fun newest_active :: "(attempt \<Rightarrow> bool) \<Rightarrow> attempt option \<Rightarrow> attempt list \<Rightarrow> attempt option" where
  "newest_active covers latest [] = latest"
| "newest_active covers latest (a # as) = newest_active covers
     (if \<not> attemptActiveForScheduling (a_Status a) \<or> \<not> covers a then latest
      else case latest of None \<Rightarrow> Some a
           | Some l \<Rightarrow> if a_CreatedAt a > a_CreatedAt l then Some a else latest) as"

definition activeAttempt :: "attempt list \<Rightarrow> attempt option" where
  "activeAttempt as = newest_active (\<lambda>_. True) None as"

lemma newest_active_Some:
  "newest_active covers latest as = Some a \<Longrightarrow>
     latest = Some a \<or> a \<in> set as \<and> attemptActiveForScheduling (a_Status a) \<and> covers a"
  by (induction covers latest as rule: newest_active.induct) (auto split: if_splits option.splits)

lemma newest_active_None:
  "newest_active covers latest as = None \<longleftrightarrow>
     latest = None \<and> (\<forall>a\<in>set as. \<not> (attemptActiveForScheduling (a_Status a) \<and> covers a))"
  by (induction covers latest as rule: newest_active.induct) (auto split: if_splits option.splits)

section \<open>The state\<close>

definition dash :: string where "dash = '' '' @ [CHR 0xE2, CHR 0x80, CHR 0x94] @ '' ''"

definition needs_you :: "string \<Rightarrow> string \<Rightarrow> detail \<Rightarrow> mission_state \<times> string \<times> run_blocker option" where
  "needs_you code message detail =
     (MissionNeedsYou, code, Some \<lparr>rb_Code = code, rb_Message = message, rb_Detail = detail\<rparr>)"

definition plain_state :: "mission_state \<Rightarrow> mission_state \<times> string \<times> run_blocker option" where
  "plain_state s = (s, [], None)"

text \<open>\<^verbatim>\<open>detail[key] = value\<close> for every persisted pair.\<close>

definition merged_detail :: "detail \<Rightarrow> detail option \<Rightarrow> detail" where
  "merged_detail d stored =
     (case stored of None \<Rightarrow> d | Some kvs \<Rightarrow> fold (\<lambda>(k, v). AList.update k v) kvs d)"

definition admission_blocked ::
  "(string \<Rightarrow> detail option) \<Rightarrow> run_intent \<Rightarrow> run_admission_failure \<Rightarrow> mission_state \<times> string \<times> run_blocker option"
where
  "admission_blocked decode i f = needs_you (rf_Code f) (rf_Message f)
     (merged_detail [(''generation'', JNum (ri_Generation i)), (''workUnitId'', JStr (rf_WorkUnitID f))]
        (decode (rf_DetailJSON f)))"

definition not_authorized :: "mission_inputs \<Rightarrow> mission_state \<times> string \<times> run_blocker option" where
  "not_authorized m =
     (if \<not> blank (runnable_next m)
      then needs_you ReasonStartRequired ''The next WorkUnit is ready to start''
             [(''workUnitId'', JStr (runnable_next m))]
      else case mi_Schedule m of
        Some s \<Rightarrow>
          if no_runnable_name (sv_NoRunnableReason s) \<noteq> []
          then needs_you (no_runnable_name (sv_NoRunnableReason s)) ''Nothing can be admitted right now'' []
          else needs_you ReasonProofIncomplete ''Proof for this Outcome is incomplete'' []
      | None \<Rightarrow> needs_you ReasonProofIncomplete ''Proof for this Outcome is incomplete'' [])"

definition awaiting_work :: "(string \<Rightarrow> detail option) \<Rightarrow> mission_inputs \<Rightarrow> mission_state \<times> string \<times> run_blocker option" where
  "awaiting_work decode m =
     (case mi_Intent m of
        None \<Rightarrow> not_authorized m
      | Some i \<Rightarrow>
          (case ri_AdmissionFailure i of
             Some f \<Rightarrow> admission_blocked decode i f
           | None \<Rightarrow>
               if ri_Desired i = RunRunning
               then if \<not> continuationAdmits m
                    then needs_you ReasonRunIntentPlanSuperseded
                      (''The authorized run names a Plan this Outcome has moved past'' @ dash @
                       ''cancel it and authorize the current Plan'')
                      [(''authorizedPlanId'', JStr (ri_PlanRevisionID i))]
                    else if \<not> blank (runnable_next m)
                    then if mi_ReplacementRequired m
                         then needs_you ReasonAttemptReplacementRequired
                           (''The last Attempt ended'' @ dash @
                            ''review it and authorize a replacement before Kennel runs this WorkUnit again'') []
                         else plain_state MissionInProgress
                    else not_authorized m
               else if ri_Desired i = RunPaused
               then needs_you ReasonRunPaused
                 (''This run is paused'' @ dash @ ''resume it to admit further work, or cancel it'')
                 [(''generation'', JNum (ri_Generation i))]
               else not_authorized m))"

definition after_execution :: "(string \<Rightarrow> detail option) \<Rightarrow> mission_inputs \<Rightarrow> mission_state \<times> string \<times> run_blocker option" where
  "after_execution decode m =
     (case pv_Status (mi_Proof m) of
        ProofStatusReadyForAcceptance \<Rightarrow> plain_state MissionReadyForReview
      | ProofStatusReworkRequired \<Rightarrow> needs_you ReasonReworkRequired
          (''Recorded proof does not support acceptance'' @ dash @ ''request changes or repair the evidence'')
          (correctionDetail (pv_ActiveCorrection (mi_Proof m)))
      | _ \<Rightarrow> awaiting_work decode m)"

definition deriveMissionState ::
  "(string \<Rightarrow> detail option) \<Rightarrow> mission_inputs \<Rightarrow> mission_state \<times> string \<times> run_blocker option" where
  "deriveMissionState decode m =
     (if pv_Status (mi_Proof m) = ProofStatusAccepted then plain_state MissionAccepted
      else if \<not> Clear (mi_Gate m)
      then needs_you ReasonContributionBlocked
        ''This contribution waits on an upstream contribution to be accepted or waived'' []
      else case mi_Plan m of
        None \<Rightarrow> plain_state MissionDefine
      | Some p \<Rightarrow>
          if pr_Status p \<noteq> PlanApproved then plain_state MissionReadyToAuthorize
          else if \<not> mi_PlanBinds m
          then needs_you ReasonPlanStale
            (''The Contract moved past the approved Plan'' @ dash @ ''propose and approve a fresh Plan'') []
          else case mi_Active m of
            None \<Rightarrow> after_execution decode m
          | Some a \<Rightarrow>
              if a_Status a = AttemptQueued \<or> a_Status a = AttemptRunning then plain_state MissionInProgress
              else if a_Status a = AttemptPaused
              then needs_you ReasonAttemptPaused
                (''A paused Attempt still holds workspace custody'' @ dash @ ''resume or cancel it'')
                [(''attemptId'', JStr (a_ID a))]
              else after_execution decode m)"

section \<open>The moves\<close>

definition allow :: "run_action \<Rightarrow> bool \<Rightarrow> string \<Rightarrow> action_eligibility" where
  "allow a ok reason = \<lparr>el_Action = a, el_Available = ok, el_Reason = (if ok then [] else reason)\<rparr>"

definition plan_approved :: "mission_inputs \<Rightarrow> bool" where
  "plan_approved m = (case mi_Plan m of None \<Rightarrow> False | Some p \<Rightarrow> pr_Status p = PlanApproved \<and> mi_PlanBinds m)"

definition executing :: "mission_inputs \<Rightarrow> bool" where
  "executing m = (case mi_Active m of None \<Rightarrow> False
     | Some a \<Rightarrow> a_Status a = AttemptQueued \<or> a_Status a = AttemptRunning)"

definition attempt_paused :: "mission_inputs \<Rightarrow> bool" where
  "attempt_paused m = (case mi_Active m of None \<Rightarrow> False | Some a \<Rightarrow> a_Status a = AttemptPaused)"

definition start_offer :: "mission_inputs \<Rightarrow> action_eligibility" where
  "start_offer m =
     (let applies = commandApplies m CmdStart; target = correctionRequires m;
          runnable = \<not> blank (runnable_next m);
          reason = (if executing m then ReasonAttemptActive
            else if attempt_paused m then ReasonAttemptPaused
            else if \<not> Clear (mi_Gate m) then ReasonContributionBlocked
            else if \<not> applies then ReasonRunAlreadyAuthorized
            else if target = Some ReentryTargetContract then ReasonContractRevisionRequired
            else if target = Some ReentryTargetPlan then ReasonPlanRevisionRequired
            else if plan_approved m \<and> \<not> runnable then ReasonNothingRunnable
            else if mi_Plan m \<noteq> None \<and> \<not> mi_PlanBinds m then ReasonPlanStale
            else ReasonPlanNotApproved)
      in allow RunActionStart (plan_approved m \<and> runnable \<and> \<not> executing m \<and> \<not> attempt_paused m \<and>
           Clear (mi_Gate m) \<and> applies \<and> target = None) reason)"

definition resume_offer :: "mission_inputs \<Rightarrow> action_eligibility" where
  "resume_offer m =
     (let applies = commandApplies m CmdResume;
          reason = (if applies \<and> \<not> plan_approved m
            then (case mi_Plan m of None \<Rightarrow> ReasonPlanNotApproved
                  | Some p \<Rightarrow> if pr_Status p \<noteq> PlanApproved then ReasonPlanNotApproved else ReasonPlanStale)
            else ReasonNoActiveRun)
      in if mi_RunIntentsEnabled m then allow RunActionResume (applies \<and> plan_approved m) reason
         else allow RunActionResume False ReasonRunIntentUnavailable)"

definition pause_offer :: "mission_inputs \<Rightarrow> action_eligibility" where
  "pause_offer m =
     (if mi_RunIntentsEnabled m then allow RunActionPause (commandApplies m CmdPause) ReasonNoActiveRun
      else allow RunActionPause False ReasonRunIntentUnavailable)"

definition cancel_offer :: "mission_inputs \<Rightarrow> action_eligibility" where
  "cancel_offer m = allow RunActionCancel
     (executing m \<or> attempt_paused m \<or> mi_RunIntentsEnabled m \<and> commandApplies m CmdCancel) ReasonNoActiveRun"

definition deriveEligibleActions :: "int \<Rightarrow> mission_inputs \<Rightarrow> action_eligibility list" where
  "deriveEligibleActions proven m =
     (let accepted = (pv_Status (mi_Proof m) = ProofStatusAccepted);
          status = map_option pr_Status (mi_Plan m);
          result = (proven > 0 \<or> mi_Active m \<noteq> None)
      in [allow RunActionClarify (\<not> accepted) ReasonAlreadyAccepted,
          allow RunActionProposePlan
            (\<not> accepted \<and> (mi_Plan m = None \<or> \<not> mi_PlanBinds m \<or> correctionRequires m = Some ReentryTargetPlan))
            (if accepted then ReasonAlreadyAccepted else ReasonPlanAlreadyProposed),
          allow RunActionReviewPlan (mi_Plan m \<noteq> None) ReasonNoPlan,
          allow RunActionApprovePlan (status = Some PlanProposed \<and> Clear (mi_Gate m))
            (if status = Some PlanApproved then ReasonPlanAlreadyApproved else ReasonPlanNotProposed),
          start_offer m, pause_offer m, resume_offer m, cancel_offer m,
          allow RunActionReviewResult result ReasonProofIncomplete,
          allow RunActionRequestChanges (result \<and> \<not> accepted)
            (if accepted then ReasonAlreadyAccepted else ReasonProofIncomplete),
          allow RunActionAccept (pv_Status (mi_Proof m) = ProofStatusReadyForAcceptance)
            (if accepted then ReasonAlreadyAccepted else ReasonProofIncomplete),
          allow RunActionExport False ReasonDeliveryUnavailable])"

section \<open>The reading\<close>

text \<open>The request key of a continuation, and what stands in the way of one: a newest attempt of this
  generation that ended without an owner's replacement.\<close>

fun newest_number :: "attempt \<Rightarrow> attempt list \<Rightarrow> attempt" where
  "newest_number latest [] = latest"
| "newest_number latest (a # as) = newest_number (if a_Number a > a_Number latest then a else latest) as"

definition entry_attempts :: "schedule_view \<Rightarrow> attempt list" where
  "entry_attempts v = (case find (\<lambda>e. wu_ID (se_WorkUnit e) = sv_NextRunnableID v) (sv_WorkUnits v) of
     None \<Rightarrow> [] | Some e \<Rightarrow> se_Attempts e)"

definition systemOwnedPrelaunchObservationKind :: "string \<Rightarrow> bool" where
  "systemOwnedPrelaunchObservationKind kind =
     (kind = ObservationAdmissionFailed \<or> kind = ObservationInputProvisioningFailed)"

definition replacement_verdict :: "attempt \<Rightarrow> attempt_view \<Rightarrow> attempt option \<times> bool" where
  "replacement_verdict latest v =
     (if list_ex (\<lambda>x. systemOwnedPrelaunchObservationKind (ob_Kind x)) (av_Observations v) then (None, False)
      else if list_ex (\<lambda>r. rv_Resolution r = RecoveryReplacement) (av_Receipts v) then (Some latest, False)
      else (Some latest, True))"

definition replacementAdmission ::
  "world \<Rightarrow> ident \<Rightarrow> run_intent \<Rightarrow> schedule_view \<Rightarrow> (api_error + attempt option \<times> bool) action" where
  "replacementAdmission w oid i v =
     (case entry_attempts v of
        [] \<Rightarrow> give (Inr (None, False))
      | a # as \<Rightarrow>
          let latest = newest_number a as in
          if a_RunIntentGeneration latest \<noteq> ri_Generation i then give (Inr (None, False))
          else try_do (AttemptView w oid (a_ID latest)) (\<lambda>view. give (Inr (replacement_verdict latest view))))"

text \<open>\<^verbatim>\<open>GetSchedule\<close> is asked only for an approved plan that binds the current contract, and a
  refused schedule counts as none.\<close>

definition schedule_of :: "world \<Rightarrow> outcome_db \<Rightarrow> outcome \<Rightarrow> schedule_view option" where
  "schedule_of w db r =
     (case GetLatestPlanRevision db (o_ID r) of
        None \<Rightarrow> None
      | Some p \<Rightarrow>
          if pr_Status p = PlanApproved \<and> BindsCurrentContract p (o_CurrentRevisionNumber r)
          then (case GetSchedule (wo_Sha w) db (o_ID r) (pr_ID p) of Inl _ \<Rightarrow> None | Inr v \<Rightarrow> Some v)
          else None)"

definition mission_inputs_of :: "world \<Rightarrow> outcome_db \<Rightarrow> outcome \<Rightarrow> proof_view \<Rightarrow> mission_inputs" where
  "mission_inputs_of w db r v =
     (let plan = GetLatestPlanRevision db (o_ID r) in
      \<lparr>mi_Plan = plan,
       mi_PlanBinds = (case plan of None \<Rightarrow> False | Some p \<Rightarrow> BindsCurrentContract p (o_CurrentRevisionNumber r)),
       mi_Proof = v, mi_Gate = startGateFor db r,
       mi_Active = activeAttempt (ListAttempts (db_Control db) (o_ID r)),
       mi_Schedule = schedule_of w db r,
       mi_Intent = CurrentRunIntent (st_Intents (db_Control db)) (o_ID r),
       mi_RunIntentsEnabled = True, mi_ReplacementRequired = False\<rparr>)"

definition intent_view_of :: "mission_inputs \<Rightarrow> run_intent_view option" where
  "intent_view_of m = map_option (\<lambda>i.
     \<lparr>iv_Generation = ri_Generation i, iv_Desired = ri_Desired i, iv_PlanRevisionID = ri_PlanRevisionID i,
      iv_BindsCurrentPlan = (case mi_Plan m of None \<Rightarrow> False | Some p \<Rightarrow> ri_PlanRevisionID i = pr_ID p),
      iv_RequestedAt = ri_RequestedAt i, iv_AcknowledgedAt = ri_AcknowledgedAt i,
      iv_ActiveAttemptID = (case mi_Active m of None \<Rightarrow> [] | Some a \<Rightarrow> a_ID a),
      iv_LastError = (case ri_AdmissionFailure i of None \<Rightarrow> [] | Some f \<Rightarrow> rf_Message f)\<rparr>) (mi_Intent m)"

definition run_state_view_of ::
  "(string \<Rightarrow> detail option) \<Rightarrow> outcome_db \<Rightarrow> outcome \<Rightarrow> ident \<Rightarrow> instant \<Rightarrow> mission_inputs \<Rightarrow> run_state_view"
where
  "run_state_view_of decode db r project observed m =
     (let (required, proven) = criterionCounts (mi_Proof m);
          (state, reason, blocker) = deriveMissionState decode m in
      \<lparr>rs_OutcomeID = o_ID r, rs_ProjectID = project, rs_Title = o_Title r, rs_ParentOutcomeID = o_ParentID r,
       rs_State = state, rs_AttentionReason = reason, rs_Intent = intent_view_of m,
       rs_EligibleActions = deriveEligibleActions proven m, rs_Blocker = blocker,
       rs_Freshness = \<lparr>rh_ObservedAt = observed, rh_ContractRevisionNumber = o_CurrentRevisionNumber r,
         rh_PlanRevisionID = (case mi_Plan m of None \<Rightarrow> [] | Some p \<Rightarrow> pr_ID p),
         rh_ProofGeneration = OutcomeProofGeneration db (o_ID r)\<rparr>,
       rs_PlanStatus = (case mi_Plan m of None \<Rightarrow> PlanStatusOther [] | Some p \<Rightarrow> pr_Status p),
       rs_PlanBindsCurrentContract = mi_PlanBinds m,
       rs_ActiveAttemptID = (case mi_Active m of None \<Rightarrow> [] | Some a \<Rightarrow> a_ID a),
       rs_ActiveAttemptStatus = (case mi_Active m of None \<Rightarrow> AttemptStatusOther [] | Some a \<Rightarrow> a_Status a),
       rs_ProvenCriteria = proven, rs_RequiredCriteria = required,
       rs_AcceptedAt = latestAcceptance (mi_Proof m)\<rparr>)"

text \<open>Whether the next unit waits for an owner's replacement of its last attempt.\<close>

definition replacementRequired :: "world \<Rightarrow> ident \<Rightarrow> mission_inputs \<Rightarrow> (api_error + bool) action" where
  "replacementRequired w oid m =
     (case (mi_Schedule m, mi_Intent m) of
        (Some v, Some i) \<Rightarrow>
          if blank (sv_NextRunnableID v) then give (Inr False)
          else try_do (replacementAdmission w oid i v) (\<lambda>(_, required). give (Inr required))
      | _ \<Rightarrow> give (Inr False))"

definition runStateFor ::
  "world \<Rightarrow> (string \<Rightarrow> detail option) \<Rightarrow> outcome \<Rightarrow> ident \<Rightarrow> (api_error + run_state_view) action" where
  "runStateFor w decode r project =
     next_do (clock w) (\<lambda>observed.
     try_do (reading (\<lambda>db. GetProof db (o_ID r))) (\<lambda>v.
     next_do (reading (\<lambda>db. mission_inputs_of w db r v)) (\<lambda>m.
     try_do (replacementRequired w (o_ID r) m) (\<lambda>required.
     reading (\<lambda>db. Inr (run_state_view_of decode db r project observed (m\<lparr>mi_ReplacementRequired := required\<rparr>)))))))"

definition GetRunState :: "world \<Rightarrow> (string \<Rightarrow> detail option) \<Rightarrow> ident \<Rightarrow> (api_error + run_state_view) action" where
  "GetRunState w decode oid =
     try_do (reading (\<lambda>db. outcome_or_missing db oid)) (\<lambda>r.
     next_do (reading (\<lambda>db. GetOutcomeProjectID db oid)) (\<lambda>project.
     runStateFor w decode r (case project of None \<Rightarrow> [] | Some p \<Rightarrow> p)))"

definition ListOutcomesByProject :: "outcome_db \<Rightarrow> ident \<Rightarrow> outcome list" where
  "ListOutcomesByProject db project = map outcome.truncate
     (sort_key (\<lambda>r. (o_CreatedAt r, o_ID r))
        (filter (\<lambda>r. db_Spaces db (o_SpaceID r) = Some project \<and> o_ID r \<notin> set (db_Trash db)) (db_Outcomes db)))"

fun run_states :: "world \<Rightarrow> (string \<Rightarrow> detail option) \<Rightarrow> ident \<Rightarrow> outcome list \<Rightarrow> (api_error + run_state_view list) action" where
  "run_states w decode project [] = give (Inr [])"
| "run_states w decode project (r # rs) =
     try_do (runStateFor w decode r project) (\<lambda>v.
     try_do (run_states w decode project rs) (\<lambda>vs. give (Inr (v # vs))))"

definition ListProjectRunStates ::
  "world \<Rightarrow> (string \<Rightarrow> detail option) \<Rightarrow> ident \<Rightarrow> bool \<Rightarrow> (api_error + run_state_view list) action" where
  "ListProjectRunStates w decode project topLevelOnly =
     next_do (reading (\<lambda>db. ListOutcomesByProject db project)) (\<lambda>rs.
     run_states w decode project (filter (\<lambda>r. \<not> (topLevelOnly \<and> IsContributing r)) rs))"

end
