(* ===== verification/Run_Service.thy ===== *)
theory Run_Service
  imports Launch Recovery Run_State
begin

text \<open>
  The owner's run commands and the daemon's ticks (internal/service/outcome/run_intent.go): a
  command records the authorization durably and carries out what a stop asks for; the ticks finish
  stops that are still owed and admit the next work unit of every authorized run.
\<close>

section \<open>Inputs\<close>

record run_command_input =
  rc_Command :: run_command
  rc_PlanRevisionID :: ident
  rc_ExpectedContractRevision :: int
  rc_ExpectedGeneration :: int
  rc_RequestKey :: string

text \<open>What an observation's payload decodes to, and the sentence and JSON details of a refusal: the
  text of both is a parameter of the model.\<close>

record prelaunch_observation =
  po_WorkUnitID :: ident
  po_ProviderLaunched :: "bool option"
  po_AdmissionFailure :: "run_admission_failure option"

record codec =
  cd_Detail :: "string \<Rightarrow> detail option"
  cd_Prelaunch :: "string \<Rightarrow> error + prelaunch_observation"
  cd_Message :: "api_error \<Rightarrow> string"
  cd_DetailJSON :: "api_error \<Rightarrow> string"

definition CodeRunActionInvalid :: string where "CodeRunActionInvalid = ''RUN_ACTION_INVALID''"
definition CodeRunCustodyUnknown :: string where "CodeRunCustodyUnknown = ''RUN_CUSTODY_UNKNOWN''"

text \<open>\<^verbatim>\<open>errors.As\<close> finds a typed refusal.\<close>

fun asAPIErr :: "api_error \<Rightarrow> string option" where
  "asAPIErr (NotFound c) = Some c"
| "asAPIErr (Invalid c) = Some c"
| "asAPIErr (Conflict c) = Some c"
| "asAPIErr (Failure e) = None"

section \<open>Identities\<close>

definition command_name :: "run_command \<Rightarrow> string" where
  "command_name c = (case c of CmdStart \<Rightarrow> ''start'' | CmdPause \<Rightarrow> ''pause'' | CmdResume \<Rightarrow> ''resume''
     | CmdCancel \<Rightarrow> ''cancel'' | CmdOther x \<Rightarrow> x)"

definition runCommandFingerprint :: "(string \<Rightarrow> string) \<Rightarrow> ident \<Rightarrow> run_command_input \<Rightarrow> string" where
  "runCommandFingerprint sha oid inp = sha (json_marshal (JObj
     [(''OutcomeID'', JStr oid), (''Command'', JStr (command_name (rc_Command inp))),
      (''PlanRevisionID'', JStr (rc_PlanRevisionID inp)),
      (''ExpectedContract'', JNum (rc_ExpectedContractRevision inp)),
      (''ExpectedGeneration'', JNum (rc_ExpectedGeneration inp)),
      (''RequestKey'', JStr (trim_space (rc_RequestKey inp)))]))"

definition correctionHaltRequestKey :: "ident \<Rightarrow> string" where
  "correctionHaltRequestKey did = ''correction:'' @ did"

definition correctionHaltFingerprint :: "(string \<Rightarrow> string) \<Rightarrow> ident \<Rightarrow> ident \<Rightarrow> string" where
  "correctionHaltFingerprint sha oid did = sha (''correction-halt:'' @ oid @ '':'' @ did)"

definition runContinuationKey :: "run_intent \<Rightarrow> ident \<Rightarrow> string" where
  "runContinuationKey i uid = ''run:'' @ ri_OutcomeID i @ '':'' @ decimal (ri_Generation i) @ '':'' @ uid"

section \<open>Transactions of the intents\<close>

definition intents :: "(intent_rows \<Rightarrow> store_error + 'r \<times> intent_rows) \<Rightarrow> control_store \<Rightarrow> 'r transaction" where
  "intents t c = (case t (st_Intents c) of
     Inl e \<Rightarrow> Inl e | Inr (r, rows) \<Rightarrow> Inr (r, c\<lparr>st_Intents := rows\<rparr>))"

definition acknowledge :: "world \<Rightarrow> ident \<Rightarrow> int \<Rightarrow> (api_error + unit) action" where
  "acknowledge w oid g = next_do (clock w) (\<lambda>at.
     control (intents (\<lambda>rows. Inr ((), AcknowledgeRunIntent rows oid g at))))"

section \<open>Stopping\<close>

definition activeAttemptUnderAuthorization :: "attempt list \<Rightarrow> int \<Rightarrow> attempt option" where
  "activeAttemptUnderAuthorization as g = newest_active (\<lambda>a. \<not> a_RunIntentGeneration a > g) None as"

definition applyStopIntent :: "world \<Rightarrow> ident \<Rightarrow> run_intent \<Rightarrow> (api_error + unit) action" where
  "applyStopIntent w oid i =
     (if ri_Desired i \<noteq> RunPaused \<and> ri_Desired i \<noteq> RunCancelled then give (Inr ())
      else next_do (reading (\<lambda>db. activeAttemptUnderAuthorization (ListAttempts (db_Control db) oid) (ri_Generation i)))
        (\<lambda>active. case active of
           None \<Rightarrow> acknowledge w oid (ri_Generation i)
         | Some a \<Rightarrow>
             if ri_Desired i = RunPaused then give (Inr ())
             else next_do (CancelAttempt w oid (a_ID a)) (\<lambda>r. case r of
               Inl e \<Rightarrow> if asAPIErr e \<noteq> None then give (Inr ()) else give (Inl e)
             | Inr _ \<Rightarrow> acknowledge w oid (ri_Generation i))))"

section \<open>What a start or resume authorizes\<close>

definition approvedPlanForRun :: "outcome_db \<Rightarrow> outcome \<Rightarrow> ident \<Rightarrow> api_error + plan_revision" where
  "approvedPlanForRun db r requested =
     (case GetLatestPlanRevision db (o_ID r) of
        None \<Rightarrow> Inl (Conflict CodePlanNotApproved)
      | Some p \<Rightarrow>
          if \<not> blank requested \<and> pr_ID p \<noteq> requested then Inl (Conflict CodeRunIntentStale)
          else if pr_Status p \<noteq> PlanApproved then Inl (Conflict CodePlanNotApproved)
          else if \<not> BindsCurrentContract p (o_CurrentRevisionNumber r) then Inl (Conflict CodePlanBriefInvalidated)
          else Inr p)"

fun accounted :: "world \<Rightarrow> outcome_db \<Rightarrow> attempt list \<Rightarrow> api_error + unit" where
  "accounted w db [] = Inr ()"
| "accounted w db (a # as) =
     (if a_Status a \<noteq> AttemptRunning \<and> a_Status a \<noteq> AttemptQueued then accounted w db as
      else and_then (heartbeatFacts w (a_ID a) db) (\<lambda>f.
        if terminated f \<or> alive w f then accounted w db as else Inl (Conflict CodeRunCustodyUnknown)))"

definition refuseUnknownSurvivingWork :: "world \<Rightarrow> outcome_db \<Rightarrow> ident \<Rightarrow> api_error + unit" where
  "refuseUnknownSurvivingWork w db oid = accounted w db (ListAttempts (db_Control db) oid)"

definition authorized_run ::
  "world \<Rightarrow> outcome_db \<Rightarrow> outcome \<Rightarrow> run_command_input \<Rightarrow> api_error + ident \<times> int" where
  "authorized_run w db r inp =
     and_then (require (\<not> (rc_ExpectedContractRevision inp < 1) \<and>
                 rc_ExpectedContractRevision inp = o_CurrentRevisionNumber r) (Conflict CodeRunIntentStale)) (\<lambda>_.
     and_then (require (\<not> blank (rc_PlanRevisionID inp)) (Conflict CodeRunIntentStale)) (\<lambda>_.
     and_then (approvedPlanForRun db r (rc_PlanRevisionID inp)) (\<lambda>p.
     and_then (refuseExecutionAgainstCorrection db (o_ID r)) (\<lambda>_.
     and_then (refuseUnknownSurvivingWork w db (o_ID r)) (\<lambda>_.
     Inr (pr_ID p, pr_ContractRevisionNumber p))))))"

text \<open>The intent a command asks for: the desired state, what it applies to, and the generation it
  replaces.\<close>

definition run_transition ::
  "world \<Rightarrow> outcome_db \<Rightarrow> outcome \<Rightarrow> run_command_input \<Rightarrow> api_error + run_desired \<times> ident \<times> int \<times> int" where
  "run_transition w db r inp =
     (let current = CurrentRunIntent (st_Intents (db_Control db)) (o_ID r);
          expected = rc_ExpectedGeneration inp;
          at = (case current of None \<Rightarrow> 0 | Some c \<Rightarrow> ri_Generation c);
          replaced = (if expected = 0 then at else expected);
          desired_now = (case current of None \<Rightarrow> RunIdle | Some c \<Rightarrow> ri_Desired c) in
      if expected > 0 \<and> (current = None \<or> at \<noteq> expected) then Inl (Conflict CodeRunIntentStale)
      else case NextRunIntent desired_now (rc_Command inp) of
        None \<Rightarrow> Inl (Conflict CodeRunActionUnavailable)
      | Some RunRunning \<Rightarrow>
          and_then (authorized_run w db r inp) (\<lambda>(pid, n). Inr (RunRunning, pid, n, replaced))
      | Some d \<Rightarrow>
          (case current of
             None \<Rightarrow> Inr (d, rc_PlanRevisionID inp, rc_ExpectedContractRevision inp, replaced)
           | Some c \<Rightarrow> Inr (d, ri_PlanRevisionID c, ri_ContractRevisionNumber c, replaced)))"

section \<open>Commands\<close>

definition run_intent_of ::
  "ident \<Rightarrow> string \<Rightarrow> run_desired \<Rightarrow> run_command \<Rightarrow> ident \<Rightarrow> int \<Rightarrow> int \<Rightarrow> string \<Rightarrow> string \<Rightarrow> instant \<Rightarrow> run_intent"
where
  "run_intent_of oid u desired command pid n replaced fingerprint key at =
     \<lparr>ri_ID = ''ri-'' @ u, ri_OutcomeID = oid, ri_Generation = 0, ri_Desired = desired, ri_Command = command,
      ri_ExpectedGeneration = replaced, ri_ExpectedGenerationSet = True, ri_RequestFingerprint = fingerprint,
      ri_PlanRevisionID = pid, ri_ContractRevisionNumber = n, ri_RequestKey = key, ri_RequestedAt = at,
      ri_AcknowledgedAt = None, ri_AdmissionFailure = None\<rparr>"

definition append_intent :: "run_intent \<Rightarrow> (store_error + run_intent) action" where
  "append_intent i = control_commit (intents (\<lambda>rows. AppendRunIntent rows i))"

definition append_refused :: "store_error \<Rightarrow> api_error" where
  "append_refused e = (case e of
     RunIntentGenerationConflict _ _ _ _ \<Rightarrow> Conflict CodeRunIntentStale
   | RunIntentReplayConflict _ \<Rightarrow> Conflict CodeRunActionInvalid
   | _ \<Rightarrow> Failure (store_error_text e))"

definition record_command ::
  "world \<Rightarrow> codec \<Rightarrow> ident \<Rightarrow> run_command_input \<Rightarrow> run_desired \<times> ident \<times> int \<times> int \<Rightarrow> (api_error + run_state_view) action"
where
  "record_command w d oid inp = (\<lambda>(desired, pid, n, replaced).
     next_do (fresh w) (\<lambda>u. next_do (clock w) (\<lambda>at.
     next_do (append_intent (run_intent_of oid u desired (rc_Command inp) pid n replaced
       (runCommandFingerprint (wo_Sha w) oid inp) (trim_space (rc_RequestKey inp)) at)) (\<lambda>r.
     case r of
       Inl e \<Rightarrow> give (Inl (append_refused e))
     | Inr i \<Rightarrow> try_do (applyStopIntent w oid i) (\<lambda>_. GetRunState w (cd_Detail d) oid)))))"

definition replayed_command ::
  "world \<Rightarrow> codec \<Rightarrow> ident \<Rightarrow> run_command_input \<Rightarrow> run_intent \<Rightarrow> (api_error + run_state_view) action" where
  "replayed_command w d oid inp replay =
     (if ri_OutcomeID replay \<noteq> oid \<or> ri_RequestFingerprint replay = [] \<or>
         ri_RequestFingerprint replay \<noteq> runCommandFingerprint (wo_Sha w) oid inp
      then give (Inl (Conflict CodeRunActionInvalid)) else GetRunState w (cd_Detail d) oid)"

definition find_intent :: "string \<Rightarrow> run_intent option action" where
  "find_intent key = reading (\<lambda>db. FindRunIntentByRequestKey (st_Intents (db_Control db)) key)"

definition CommandRun :: "world \<Rightarrow> codec \<Rightarrow> ident \<Rightarrow> run_command_input \<Rightarrow> (api_error + run_state_view) action" where
  "CommandRun w d oid inp =
     (if \<not> RunCommand_Valid (rc_Command inp) then give (Inl (Invalid CodeRunActionInvalid))
      else if blank (rc_RequestKey inp) then give (Inl (Invalid CodeRunActionInvalid))
      else try_do (reading (\<lambda>db. outcome_or_missing db oid)) (\<lambda>r.
        next_do (find_intent (trim_space (rc_RequestKey inp))) (\<lambda>existing.
        case existing of
          Some replay \<Rightarrow> replayed_command w d oid inp replay
        | None \<Rightarrow> try_do (reading (\<lambda>db. run_transition w db r inp)) (record_command w d oid inp))))"

text \<open>A correction ends the authorization it invalidates, once, and never one the owner gave later.\<close>

definition halt_effect :: "world \<Rightarrow> ident \<Rightarrow> run_intent \<Rightarrow> (api_error + unit) action" where
  "halt_effect w oid i =
     next_do (reading (\<lambda>db. CurrentRunIntent (st_Intents (db_Control db)) oid)) (\<lambda>current.
     case current of
       None \<Rightarrow> give (Inr ())
     | Some c \<Rightarrow> if ri_Generation c \<noteq> ri_Generation i then give (Inr ()) else applyStopIntent w oid i)"

definition append_halt :: "world \<Rightarrow> ident \<Rightarrow> ident \<Rightarrow> run_intent \<Rightarrow> run_desired \<Rightarrow> (api_error + unit) action" where
  "append_halt w oid did current desired =
     next_do (fresh w) (\<lambda>u. next_do (clock w) (\<lambda>at.
     next_do (append_intent (run_intent_of oid u desired CmdCancel (ri_PlanRevisionID current)
       (ri_ContractRevisionNumber current) (ri_Generation current)
       (correctionHaltFingerprint (wo_Sha w) oid did) (correctionHaltRequestKey did) at)) (\<lambda>r.
     case r of
       Inl (RunIntentGenerationConflict _ _ _ _) \<Rightarrow> give (Inr ())
     | Inl e \<Rightarrow> give (Inl (Failure (store_error_text e)))
     | Inr i \<Rightarrow> halt_effect w oid i)))"

definition HaltRunForCorrection :: "world \<Rightarrow> ident \<Rightarrow> ident \<Rightarrow> (api_error + unit) action" where
  "HaltRunForCorrection w oid did =
     next_do (reading (\<lambda>db. CurrentRunIntent (st_Intents (db_Control db)) oid)) (\<lambda>found.
     case found of
       None \<Rightarrow> give (Inr ())
     | Some current \<Rightarrow>
         next_do (find_intent (correctionHaltRequestKey did)) (\<lambda>recorded.
         case recorded of
           Some i \<Rightarrow>
             if ri_OutcomeID i \<noteq> oid \<or> ri_Generation i \<noteq> ri_Generation current then give (Inr ())
             else applyStopIntent w oid i
         | None \<Rightarrow>
             (case NextRunIntent (ri_Desired current) CmdCancel of
                None \<Rightarrow> give (Inr ())
              | Some desired \<Rightarrow> append_halt w oid did current desired)))"

section \<open>The ticks\<close>

definition listed_intents :: "run_desired \<Rightarrow> run_intent list action" where
  "listed_intents desired = reading (\<lambda>db.
     ListOutcomesWithRunIntent (\<lambda>oid. oid \<in> set (db_Trash db)) (st_Intents (db_Control db)) desired)"

fun collected :: "('a \<Rightarrow> (api_error + unit) action) \<Rightarrow> 'a list \<Rightarrow> api_error list action" where
  "collected f [] = give []"
| "collected f (x # xs) = next_do (f x) (\<lambda>r. next_do (collected f xs) (\<lambda>es.
     give (case r of Inl e \<Rightarrow> e # es | Inr _ \<Rightarrow> es)))"

definition owed_stop :: "world \<Rightarrow> run_intent \<Rightarrow> (api_error + unit) action" where
  "owed_stop w i = (if Acknowledged i then give (Inr ()) else applyStopIntent w (ri_OutcomeID i) i)"

definition ReconcileRunIntents :: "world \<Rightarrow> (api_error + unit) action" where
  "ReconcileRunIntents w =
     next_do (listed_intents RunPaused) (\<lambda>paused. next_do (collected (owed_stop w) paused) (\<lambda>es.
     next_do (listed_intents RunCancelled) (\<lambda>cancelled. next_do (collected (owed_stop w) cancelled) (\<lambda>fs.
     give (joined_failures ''run intent reconciliation: %w'' (es @ fs))))))"

text \<open>The typed refusal that a prelaunch observation carries.\<close>

definition typed_failure :: "codec \<Rightarrow> ident \<Rightarrow> observation \<Rightarrow> api_error + run_admission_failure option" where
  "typed_failure d uid x =
     (case cd_Prelaunch d (ob_Payload x) of
        Inl e \<Rightarrow> Inl (Failure (Wrapf ''decode typed prelaunch observation %s: %w'' [Str (ob_ID x)] e))
      | Inr po \<Rightarrow>
          (case po_AdmissionFailure po of
             None \<Rightarrow> Inr None
           | Some f \<Rightarrow>
               if po_ProviderLaunched po \<noteq> Some False
               then Inl (Failure (Errorf ''prelaunch observation %s does not prove providerLaunched=false'' [Str (ob_ID x)]))
               else case RunAdmissionFailure_Validate f of
                 Some e \<Rightarrow> Inl (Failure (Wrapf ''validate prelaunch observation %s: %w'' [Str (ob_ID x)] e))
               | None \<Rightarrow>
                   if rf_WorkUnitID f \<noteq> uid \<or> po_WorkUnitID po \<noteq> uid
                   then Inl (Failure (Errorf ''prelaunch observation %s belongs to work unit %s/%s, expected %s''
                     [Str (ob_ID x), Str (po_WorkUnitID po), Str (rf_WorkUnitID f), Str uid]))
                   else Inr (Some f)))"

fun first_failure :: "codec \<Rightarrow> ident \<Rightarrow> observation list \<Rightarrow> api_error + run_admission_failure option" where
  "first_failure d uid [] = Inr None"
| "first_failure d uid (x # xs) =
     (if \<not> systemOwnedPrelaunchObservationKind (ob_Kind x) then first_failure d uid xs
      else and_then (typed_failure d uid x) (\<lambda>f. case f of
        None \<Rightarrow> first_failure d uid xs | Some y \<Rightarrow> Inr (Some y)))"

definition prelaunchFailureFromAttempt ::
  "codec \<Rightarrow> attempt_view \<Rightarrow> ident \<Rightarrow> api_error + run_admission_failure option" where
  "prelaunchFailureFromAttempt d v uid =
     (if a_Status (av_Attempt v) \<noteq> AttemptFailed then Inr None
      else if a_WorkUnitID (av_Attempt v) \<noteq> uid
      then Inl (Failure (Errorf ''prelaunch replay attempt %s belongs to work unit %s, expected %s''
        [Str (a_ID (av_Attempt v)), Str (a_WorkUnitID (av_Attempt v)), Str uid]))
      else first_failure d uid (rev (av_Observations v)))"

definition record_failure :: "run_intent \<Rightarrow> run_admission_failure \<Rightarrow> (api_error + bool) action" where
  "record_failure i f = control (intents (\<lambda>rows.
     RecordRunAdmissionFailure rows (ri_OutcomeID i) (ri_Generation i) f))"

definition recordRecoveredPrelaunchFailure ::
  "codec \<Rightarrow> run_intent \<Rightarrow> ident \<Rightarrow> attempt_view \<Rightarrow> (api_error + bool) action" where
  "recordRecoveredPrelaunchFailure d i uid v =
     (case prelaunchFailureFromAttempt d v uid of
        Inl e \<Rightarrow> give (Inl e)
      | Inr None \<Rightarrow> give (Inr False)
      | Inr (Some f) \<Rightarrow> try_do (record_failure i f) (\<lambda>_. give (Inr True)))"

definition runContinuationRequestKey ::
  "world \<Rightarrow> run_intent \<Rightarrow> schedule_view \<Rightarrow> (api_error + string option) action" where
  "runContinuationRequestKey w i v =
     try_do (replacementAdmission w (ri_OutcomeID i) i v) (\<lambda>(latest, required).
     let base = runContinuationKey i (sv_NextRunnableID v) in
     give (Inr (case latest of
       None \<Rightarrow> Some base
     | Some a \<Rightarrow> if required then None else Some (base @ '':replacement:'' @ a_ID a))))"

definition continuation_start :: "run_intent \<Rightarrow> ident \<Rightarrow> string \<Rightarrow> start_input" where
  "continuation_start i uid key =
     \<lparr>sa_PlanRevisionID = ri_PlanRevisionID i, sa_WorkUnitID = uid, sa_Harness = [], sa_RequestKey = key\<rparr>"

definition refusal_failure :: "codec \<Rightarrow> ident \<Rightarrow> api_error \<Rightarrow> string \<Rightarrow> instant \<Rightarrow> run_admission_failure" where
  "refusal_failure d uid e code at = \<lparr>rf_Code = code, rf_Message = cd_Message d e,
     rf_DetailJSON = (if cd_DetailJSON d e = ''null'' then ''{}'' else cd_DetailJSON d e),
     rf_WorkUnitID = uid, rf_OccurredAt = at\<rparr>"

text \<open>A refusal becomes the durable failure of this authorization, unless the attempt crossed, or may
  have crossed, the provider boundary, or its own observation already says what failed.\<close>

definition record_refusal ::
  "world \<Rightarrow> codec \<Rightarrow> run_intent \<Rightarrow> ident \<Rightarrow> string \<Rightarrow> api_error \<Rightarrow> string \<Rightarrow> (api_error + unit) action" where
  "record_refusal w d i uid key e code =
     (let recorded = next_do (clock w) (\<lambda>at.
            try_do (record_failure i (refusal_failure d uid e code at)) (\<lambda>_. give (Inr ()))) in
      next_do (reading (\<lambda>db. FindAttemptByIdempotencyKey (db_Control db) key)) (\<lambda>found.
      case found of
        None \<Rightarrow> recorded
      | Some a \<Rightarrow>
          if attemptActiveForScheduling (a_Status a) then give (Inr ())
          else try_do (AttemptView w (a_OutcomeID a) (a_ID a)) (\<lambda>v.
               try_do (recordRecoveredPrelaunchFailure d i uid v) (\<lambda>recovered.
               if recovered then give (Inr ()) else recorded))))"

definition continueOneRun :: "world \<Rightarrow> provider \<Rightarrow> codec \<Rightarrow> run_intent \<Rightarrow> (api_error + unit) action" where
  "continueOneRun w p d i =
     next_do (reading (\<lambda>db. GetSchedule (wo_Sha w) db (ri_OutcomeID i) (ri_PlanRevisionID i))) (\<lambda>schedule.
     case schedule of
       Inl e \<Rightarrow> if asAPIErr e \<noteq> None then give (Inr ()) else give (Inl e)
     | Inr v \<Rightarrow>
         let uid = sv_NextRunnableID v in
         if blank uid then give (Inr ())
         else try_do (runContinuationRequestKey w i v) (\<lambda>authorized. case authorized of
           None \<Rightarrow> give (Inr ())
         | Some key \<Rightarrow>
             next_do (StartAttempt w p (ri_OutcomeID i) (continuation_start i uid key)) (\<lambda>r. case r of
               Inr view \<Rightarrow> try_do (recordRecoveredPrelaunchFailure d i uid view) (\<lambda>_. give (Inr ()))
             | Inl e \<Rightarrow> (case asAPIErr e of
                 Some code \<Rightarrow> record_refusal w d i uid key e code
               | None \<Rightarrow> give (Inl e)))))"

text \<open>A failure is reported under the outcome it belongs to; a typed refusal stays what it is.\<close>

fun about_outcome :: "ident \<Rightarrow> api_error \<Rightarrow> api_error" where
  "about_outcome oid (Failure e) = Failure (Wrapf ''outcome %s: %w'' [Str oid] e)"
| "about_outcome oid e = e"

definition continue_authorized :: "world \<Rightarrow> provider \<Rightarrow> codec \<Rightarrow> run_intent \<Rightarrow> (api_error + unit) action" where
  "continue_authorized w p d i =
     (if ri_AdmissionFailure i \<noteq> None then give (Inr ())
      else next_do (continueOneRun w p d i) (\<lambda>r. give (case r of
        Inl e \<Rightarrow> Inl (about_outcome (ri_OutcomeID i) e) | Inr _ \<Rightarrow> Inr ())))"

definition ContinueAuthorizedRuns :: "world \<Rightarrow> provider \<Rightarrow> codec \<Rightarrow> (api_error + unit) action" where
  "ContinueAuthorizedRuns w p d =
     next_do (listed_intents RunRunning) (\<lambda>is. next_do (collected (continue_authorized w p d) is) (\<lambda>es.
     give (joined_failures ''authorized run continuation: %w'' es)))"

end
