(* ===== verification/Run_Laws.thy ===== *)
theory Run_Laws
  imports Single_Writer Run_Service
begin

text \<open>
  The run commands keep the custody invariant and the truth of acknowledged stops: an
  acknowledgement is written only when nothing that the stop covers is live.
\<close>

section \<open>Readings\<close>

context service_law begin

lemma keeps_replacement: "keeps (replacementAdmission w oid i v)"
  unfolding replacementAdmission_def Let_def by (auto intro!: keeps_try keeps_view split: list.split)

lemma keeps_GetRunState: "keeps (GetRunState w decode oid)"
  unfolding GetRunState_def runStateFor_def replacementRequired_def
  by (auto intro!: keeps_try keeps_next keeps_replacement split: option.split)

end

section \<open>Intents\<close>

lemma custodial_rows:
  assumes "custodial sha db" "store_step sha (control_view db) ((control_view db)\<lparr>st_Intents := rows\<rparr>)"
    and "honoured ((control_view db)\<lparr>st_Intents := rows\<rparr>)"
  shows "custodial sha (db\<lparr>db_Control := (control_view db)\<lparr>st_Intents := rows\<rparr>\<rparr>)"
proof -
  have "fenced_rows (home db) ((control_view db)\<lparr>st_Intents := rows\<rparr>)"
    using assms(1) rows_same(1) [of "(control_view db)\<lparr>st_Intents := rows\<rparr>" "db_Control db" "home db"]
    by (simp add: custodial_def)
  moreover have "db_step sha db (db\<lparr>db_Control := (control_view db)\<lparr>st_Intents := rows\<rparr>\<rparr>)"
    using assms(2) by (rule db_step.control)
  ultimately show ?thesis using assms(1,3) by (auto simp: custodial_def intro: db_reachable.committed)
qed

lemma stopped_intents [simp]: "stopped (s\<lparr>st_Intents := rows\<rparr>) oid g = stopped s oid g"
  by (simp add: stopped_def)

lemma stopped_view [simp]: "stopped (control_view db) oid g = stopped (db_Control db) oid g"
  by (simp add: stopped_def)

lemma honoured_append:
  assumes "AppendRunIntent (st_Intents s) i = Inr (j, rows)" "honoured s"
  shows "honoured (s\<lparr>st_Intents := rows\<rparr>)"
  using assms(1)
proof (cases rule: append_cases)
  case fresh
  then show ?thesis using assms(2) by (auto simp: honoured_def stop_done_def persisted_def)
qed (use assms(2) in simp)

lemma honoured_failure:
  assumes "RecordRunAdmissionFailure (st_Intents s) oid g f = Inr (b, rows)" "honoured s"
  shows "honoured (s\<lparr>st_Intents := rows\<rparr>)"
  using assms by (auto simp: RecordRunAdmissionFailure_def Let_def honoured_def stop_done_def split: option.splits if_splits)

lemma honoured_acknowledge:
  assumes "honoured s" "stopped s oid g"
  shows "honoured (s\<lparr>st_Intents := AcknowledgeRunIntent (st_Intents s) oid g at\<rparr>)"
  using assms by (auto simp: AcknowledgeRunIntent_def honoured_def stop_done_def)

lemma custodial_append: "triple (custodial sha) (append_intent i) (\<lambda>_. custodial sha)"
  unfolding append_intent_def
proof (rule triple_control)
  fix db r c assume ok: "custodial sha db" and t: "intents (\<lambda>rows. AppendRunIntent rows i) (control_view db) = Inr (r, c)"
  then obtain rows where a: "AppendRunIntent (st_Intents (control_view db)) i = Inr (r, rows)"
      "c = (control_view db)\<lparr>st_Intents := rows\<rparr>" by (auto simp: intents_def split: sum.splits)
  then show "custodial sha (db\<lparr>db_Control := c\<rparr>)"
    using custodial_rows [OF ok store_step.intent [OF a(1)] honoured_append [OF a(1)]] ok by (simp add: custodial_def)
qed

lemma custodial_failure: "triple (custodial sha) (record_failure i f) (\<lambda>_. custodial sha)"
  unfolding record_failure_def passing_def
proof (rule triple_next [OF triple_control triple_give])
  fix db r c assume ok: "custodial sha db"
    and t: "intents (\<lambda>rows. RecordRunAdmissionFailure rows (ri_OutcomeID i) (ri_Generation i) f) (control_view db) = Inr (r, c)"
  then obtain rows where a: "RecordRunAdmissionFailure (st_Intents (control_view db)) (ri_OutcomeID i) (ri_Generation i) f = Inr (r, rows)"
      "c = (control_view db)\<lparr>st_Intents := rows\<rparr>" by (auto simp: intents_def split: sum.splits)
  then show "custodial sha (db\<lparr>db_Control := c\<rparr>)"
    using custodial_rows [OF ok store_step.admission_failure [OF a(1)] honoured_failure [OF a(1)]] ok
    by (simp add: custodial_def)
qed

definition quiet :: "(string \<Rightarrow> string) \<Rightarrow> ident \<Rightarrow> int \<Rightarrow> outcome_db \<Rightarrow> bool" where
  "quiet sha oid g db \<longleftrightarrow> custodial sha db \<and> stopped (db_Control db) oid g"

lemma custodial_acknowledge: "triple (quiet sha oid g) (acknowledge w oid g) (\<lambda>_. custodial sha)"
  unfolding acknowledge_def passing_def
proof (rule triple_next [OF triple_clock(1)], rule triple_next [OF triple_control triple_give])
  fix at db r c assume ok: "quiet sha oid g db"
    and t: "intents (\<lambda>rows. Inr ((), AcknowledgeRunIntent rows oid g at)) (control_view db) = Inr (r, c)"
  have "honoured ((control_view db)\<lparr>st_Intents := AcknowledgeRunIntent (st_Intents (control_view db)) oid g at\<rparr>)"
    using ok by (intro honoured_acknowledge) (simp_all add: quiet_def custodial_def)
  then show "custodial sha (db\<lparr>db_Control := c\<rparr>)"
    using t ok custodial_rows [OF _ store_step.acknowledge] by (auto simp: intents_def quiet_def)
qed (auto simp: quiet_def)

section \<open>A cancelled attempt is not live\<close>

lemma update_rows_others:
  assumes "update_status s oid aid e n at = Inr (k, s')" "x \<noteq> aid"
  shows "filter (\<lambda>a. a_ID a = x) (st_Attempts s') = filter (\<lambda>a. a_ID a = x) (st_Attempts s)"
proof -
  have "filter (\<lambda>a. a_ID a = x) (map (\<lambda>a. if a_ID a = aid \<and> a_OutcomeID a = oid \<and> a_Status a = e
      then a\<lparr>a_Status := n, a_UpdatedAt := at\<rparr> else a) rows) = filter (\<lambda>a. a_ID a = x) rows" for rows
    using assms(2) by (induction rows) auto
  then show ?thesis using assms(1) by (auto simp: update_status_def Let_def split: if_splits)
qed

lemma alone_cancel: "x \<noteq> aid \<Longrightarrow> alone.keeps x (CancelAttempt w oid aid)"
proof -
  assume x: "x \<noteq> aid"
  have "alone.keeps x (control_commit (\<lambda>c. TransitionAttemptStatus c oid aid e n at))" for e n at
    by (intro alone.keeps_control)
      (auto simp: left_alone_def holds_custody_def attempt_rows_def TransitionAttemptStatus_def update_rows_others [OF _ x]
        dest: update_status_effect(2))
  then show ?thesis unfolding CancelAttempt_def stop_refused_def refused_after_def Let_def
    by (auto intro!: alone.keeps_next alone.keeps_try alone.keeps_passing alone_observe alone_recordReceipt alone.keeps_view
        split: if_split prod.split option.split sum.split)
qed

lemma cancel_settles:
  "triple (custodial sha) (CancelAttempt w oid aid) (\<lambda>r db. custodial sha db \<and> (\<not> isl r \<longrightarrow> settled_row aid (db_Control db)))"
proof -
  let ?Q = "\<lambda>(r :: api_error + attempt_view) db. custodial sha db \<and> (\<not> isl r \<longrightarrow> settled_row aid (db_Control db))"
  have refused: "triple (custodial sha) (give (Inl e)) ?Q" for e by (rule triple_give) simp
  have unproven: "triple (custodial sha) (stop_refused w aid e sid) ?Q" for e sid
    unfolding stop_refused_def refused_after_def Let_def
    by (rule triple_next [OF triple_custodial [OF resting_observe]],
        rule triple_next [OF triple_custodial [OF resting_recordReceipt] triple_give]) simp
  have settled: "triple (rested sha {aid}) (try_do (observe w aid kind body) (\<lambda>_. AttemptView w oid aid)) ?Q" for kind body
  proof -
    have "resting.keeps sha {aid} (try_do (observe w aid kind body) (\<lambda>_. AttemptView w oid aid))"
      by (intro resting.keeps_try resting_observe resting.keeps_view)
    from triple_rested [OF this] show ?thesis by (rule triple_weaken) (simp_all add: rested_def)
  qed
  have moved: "triple (custodial sha) (control (\<lambda>c. TransitionAttemptStatus c oid aid e AttemptCancelled at))
      (\<lambda>y db. custodial sha db \<and> (case y of Inl _ \<Rightarrow> True | Inr k \<Rightarrow> k \<noteq> 0 \<longrightarrow> rested sha {aid} db))" for e at
    unfolding passing_def
  proof (rule triple_next [OF _ triple_give])
    show "triple (custodial sha) (control_commit (\<lambda>c. TransitionAttemptStatus c oid aid e AttemptCancelled at))
      (\<lambda>y db. custodial sha db \<and> (case y of Inl _ \<Rightarrow> True | Inr k \<Rightarrow> k \<noteq> 0 \<longrightarrow> rested sha {aid} db))"
      unfolding triple_def
    proof (intro allI impI)
      fix s y s' assume ok: "custodial sha (sv_DB s)"
        and run: "control_commit (\<lambda>c. TransitionAttemptStatus c oid aid e AttemptCancelled at) s = (y, s')"
      have kept: "custodial sha (sv_DB s')" by (rule tripleD [OF triple_custodial [OF resting_transition] ok run])
      have "settled_row aid (db_Control (sv_DB s'))" if "y = Inr k" "k \<noteq> 0" for k
      proof -
        have u: "update_status (control_view (sv_DB s)) oid aid e AttemptCancelled at = Inr (k, db_Control (sv_DB s'))"
          using run that(1) by (auto simp: control_commit_def TransitionAttemptStatus_def split: sum.splits)
        show ?thesis
          using settled_transition [OF u that(2)] custodial_ok [OF ok] by (simp add: live_def store_ok_def)
      qed
      then show "custodial sha (sv_DB s') \<and> (case y of Inl _ \<Rightarrow> True | Inr k \<Rightarrow> k \<noteq> 0 \<longrightarrow> rested sha {aid} (sv_DB s'))"
        using kept by (auto simp: rested_def split: sum.split)
    qed
  qed (auto split: sum.splits)
  have recorded: "triple (custodial sha) (try_do (control (\<lambda>c. TransitionAttemptStatus c oid aid e AttemptCancelled at)) (\<lambda>rows.
      if rows = 0 then give (Inl x) else try_do (observe w aid kind body) (\<lambda>_. AttemptView w oid aid))) ?Q" for e at x kind body
    unfolding try_do_def [of "control t" for t]
    by (rule triple_next [OF moved])
      (auto intro: triple_give triple_weaken [OF refused] triple_weaken [OF settled] split: sum.split)
  have reading: "triple (custodial sha) (reading f) (\<lambda>_. custodial sha)" for f :: "outcome_db \<Rightarrow> 'x"
    by (rule triple_reading)
  show ?thesis unfolding CancelAttempt_def try_do_def [of "reading f" for f] Let_def
    by (auto intro!: triple_next [OF reading] triple_next [OF triple_clock(1)] refused unproven recorded
        split: sum.split prod.split option.split)
qed

section \<open>A stop\<close>

lemma one_live:
  assumes "custodial sha db" "a \<in> set (st_Attempts (db_Control db))" "b \<in> set (st_Attempts (db_Control db))"
    "live (a_Status a)" "live (a_Status b)" "a_OutcomeID a = a_OutcomeID b"
  shows "a_ID a = a_ID b"
proof -
  have rows: "fenced_rows (home db) (db_Control db)" using assms(1) by (simp add: custodial_def)
  then obtain t where "home db (a_OutcomeID a) = Some t" "fence_holder (db_Control db) t = Some (a_ID a)"
    using assms(2,4) unfolding fenced_rows_def by blast
  moreover obtain u where "home db (a_OutcomeID b) = Some u" "fence_holder (db_Control db) u = Some (a_ID b)"
    using rows assms(3,5) unfolding fenced_rows_def by blast
  ultimately show ?thesis using assms(6) by simp
qed

lemma listed_attempts: "a \<in> set (ListAttempts c oid) \<longleftrightarrow> a \<in> set (st_Attempts c) \<and> a_OutcomeID a = oid"
  by (simp add: ListAttempts_def)

lemma active_live: "attemptActiveForScheduling s \<longleftrightarrow> live s"
  by (simp add: attemptActiveForScheduling_def live_def)

text \<open>Cancelling the one live attempt of an outcome leaves nothing of it live.\<close>

lemma cancel_quiets:
  assumes "custodial sha (sv_DB s)" "a \<in> set (st_Attempts (db_Control (sv_DB s)))" "live (a_Status a)" "a_OutcomeID a = oid"
    and run: "CancelAttempt w oid (a_ID a) s = (Inr v, s')"
  shows "quiet sha oid g (sv_DB s')"
proof -
  have after: "custodial sha (sv_DB s')" "settled_row (a_ID a) (db_Control (sv_DB s'))"
    using tripleD [OF cancel_settles assms(1) run] by simp_all
  have False if b: "b \<in> set (st_Attempts (db_Control (sv_DB s')))" "a_OutcomeID b = oid" "live (a_Status b)" for b
  proof (cases "a_ID b = a_ID a")
    case True
    then show False using after(2) b by (simp add: settled_row_def)
  next
    case other: False
    have "attempt_rows (sv_DB s') (a_ID b) = attempt_rows (sv_DB s) (a_ID b)"
      using alone.keepsD [OF alone_cancel [OF other] run] by (simp add: left_alone_def)
    moreover have "b \<in> set (attempt_rows (sv_DB s') (a_ID b))" using b(1) by (simp add: attempt_rows_def)
    ultimately have "b \<in> set (attempt_rows (sv_DB s) (a_ID b))" by metis
    then show False using one_live [OF assms(1) _ assms(2) b(3) assms(3)] b(2) assms(4) other by (simp add: attempt_rows_def)
  qed
  then show ?thesis using after(1) unfolding quiet_def stopped_def by blast
qed

text \<open>What an intent covers: the newest live attempt not started under a later generation.\<close>

definition covered :: "(string \<Rightarrow> string) \<Rightarrow> ident \<Rightarrow> int \<Rightarrow> attempt option \<Rightarrow> outcome_db \<Rightarrow> bool" where
  "covered sha oid g active db \<longleftrightarrow> custodial sha db \<and>
    active = activeAttemptUnderAuthorization (ListAttempts (db_Control db) oid) g"

lemma covered_none:
  assumes "covered sha oid g None db"
  shows "quiet sha oid g db"
proof -
  have "newest_active (\<lambda>a. \<not> a_RunIntentGeneration a > g) None (ListAttempts (db_Control db) oid) = None"
    using assms by (simp add: covered_def activeAttemptUnderAuthorization_def)
  then show ?thesis using assms unfolding newest_active_None
    by (auto simp: covered_def quiet_def stopped_def listed_attempts active_live)
qed

lemma covered_some:
  assumes "covered sha oid g (Some a) db"
  shows "a \<in> set (st_Attempts (db_Control db))" "a_OutcomeID a = oid" "live (a_Status a)"
proof -
  have "a \<in> set (ListAttempts (db_Control db) oid) \<and> attemptActiveForScheduling (a_Status a)"
    using assms newest_active_Some [of _ None _ a] unfolding covered_def activeAttemptUnderAuthorization_def by fastforce
  then show "a \<in> set (st_Attempts (db_Control db))" "a_OutcomeID a = oid" "live (a_Status a)"
    by (simp_all add: listed_attempts active_live)
qed

lemma covered_cancelled:
  "triple (covered sha oid g (Some a)) (CancelAttempt w oid (a_ID a))
    (\<lambda>r db. case r of Inl _ \<Rightarrow> custodial sha db | Inr _ \<Rightarrow> quiet sha oid g db)"
  unfolding triple_def
proof (intro allI impI)
  fix s r s' assume pre: "covered sha oid g (Some a) (sv_DB s)" and run: "CancelAttempt w oid (a_ID a) s = (r, s')"
  have ok: "custodial sha (sv_DB s)" using pre by (simp add: covered_def)
  show "case r of Inl _ \<Rightarrow> custodial sha (sv_DB s') | Inr _ \<Rightarrow> quiet sha oid g (sv_DB s')"
  proof (cases r)
    case Inl
    then show ?thesis using tripleD [OF custodial_CancelAttempt ok run] by simp
  next
    case (Inr v)
    then show ?thesis using cancel_quiets [OF ok covered_some(1) [OF pre] covered_some(3) [OF pre] covered_some(2) [OF pre]] run
      by simp
  qed
qed

lemma custodial_stop: "triple (custodial sha) (applyStopIntent w oid i) (\<lambda>_. custodial sha)"
proof -
  let ?g = "ri_Generation i"
  have read: "triple (custodial sha) (reading (\<lambda>db. activeAttemptUnderAuthorization (ListAttempts (db_Control db) oid) ?g))
      (covered sha oid ?g)"
    by (rule triple_reading) (simp add: covered_def)
  have acked: "triple (covered sha oid ?g None) (acknowledge w oid ?g) (\<lambda>_. custodial sha)"
    by (rule triple_weaken [OF custodial_acknowledge]) (erule covered_none)
  have idle: "triple (covered sha oid ?g active) (give (Inr ())) (\<lambda>_. custodial sha)" for active
    by (rule triple_give) (simp add: covered_def)
  show ?thesis unfolding applyStopIntent_def
    by (auto intro!: triple_give triple_next [OF read] acked idle triple_next [OF covered_cancelled] custodial_acknowledge
        split: option.split sum.split)
qed

section \<open>The commands\<close>

lemma custodial_state: "triple (custodial sha) (GetRunState w decode oid) (\<lambda>_. custodial sha)"
  by (rule triple_custodial [OF resting.keeps_GetRunState])

lemma triple_try_plain:
  "triple P m (\<lambda>_. P) \<Longrightarrow> (\<And>x. triple P (f x) (\<lambda>_. P)) \<Longrightarrow> triple P (try_do m f) (\<lambda>_. P)"
  by (rule triple_try [where R = "\<lambda>_. P"]) simp_all

lemma reading_plain: "triple P (reading f) (\<lambda>_. P)"
  by (rule triple_reading)

lemma custodial_CommandRun: "triple (custodial sha) (CommandRun w d oid inp) (\<lambda>_. custodial sha)"
proof -
  have "triple (custodial sha) (record_command w d oid inp x) (\<lambda>_. custodial sha)" for x
    unfolding record_command_def
    by (auto intro!: triple_next [OF triple_clock(1)] triple_next [OF triple_clock(2)] triple_next [OF custodial_append]
        triple_give triple_try_plain [OF custodial_stop] custodial_state split: prod.split sum.split)
  then show ?thesis unfolding CommandRun_def replayed_command_def find_intent_def
    by (auto intro!: triple_give triple_try_plain [OF reading_plain] triple_next [OF reading_plain] custodial_state
        split: option.split)
qed

lemma custodial_Halt: "triple (custodial sha) (HaltRunForCorrection w oid did) (\<lambda>_. custodial sha)"
proof -
  have "triple (custodial sha) (append_halt w oid did c desired) (\<lambda>_. custodial sha)" for c desired
    unfolding append_halt_def halt_effect_def
    by (auto intro!: triple_next [OF triple_clock(1)] triple_next [OF triple_clock(2)] triple_next [OF custodial_append]
        triple_next [OF reading_plain] triple_give custodial_stop split: sum.split store_error.split option.split)
  then show ?thesis unfolding HaltRunForCorrection_def find_intent_def
    by (auto intro!: triple_give triple_next [OF reading_plain] custodial_stop split: option.split)
qed

lemma triple_collected: "(\<And>x. triple P (f x) (\<lambda>_. P)) \<Longrightarrow> triple P (collected f xs) (\<lambda>_. P)"
proof (induction xs)
  case Nil
  show ?case by (simp add: triple_give)
next
  case (Cons x xs)
  have "triple P (collected f xs) (\<lambda>_. P)" by (rule Cons.IH [OF Cons.prems])
  then show ?case using Cons.prems by (auto intro!: triple_next [OF Cons.prems] triple_next triple_give)
qed

lemma custodial_Reconcile: "triple (custodial sha) (ReconcileRunIntents w) (\<lambda>_. custodial sha)"
proof -
  have "triple (custodial sha) (owed_stop w i) (\<lambda>_. custodial sha)" for i
    unfolding owed_stop_def by (auto intro: triple_give custodial_stop)
  then have each: "triple (custodial sha) (collected (owed_stop w) is) (\<lambda>_. custodial sha)" for "is"
    by (rule triple_collected)
  show ?thesis unfolding ReconcileRunIntents_def listed_intents_def
    by (intro triple_next [OF reading_plain] triple_next [OF each] triple_give)
qed

lemma custodial_Continue: "triple (custodial sha) (ContinueAuthorizedRuns w p d) (\<lambda>_. custodial sha)"
proof -
  have view: "triple (custodial sha) (AttemptView w oid aid) (\<lambda>_. custodial sha)" for oid aid
    by (rule triple_custodial [OF resting.keeps_view])
  have recovered: "triple (custodial sha) (recordRecoveredPrelaunchFailure d i uid v) (\<lambda>_. custodial sha)" for i uid v
    unfolding recordRecoveredPrelaunchFailure_def
    by (auto intro!: triple_give triple_try_plain [OF custodial_failure] split: sum.split option.split)
  have refusal: "triple (custodial sha) (record_refusal w d i uid key e code) (\<lambda>_. custodial sha)" for i uid key e code
    unfolding record_refusal_def Let_def
    by (auto intro!: triple_next [OF reading_plain] triple_give triple_next [OF triple_clock(1)]
        triple_try_plain [OF custodial_failure] triple_try_plain [OF view] triple_try_plain [OF recovered] split: option.split)
  have key: "triple (custodial sha) (runContinuationRequestKey w i v) (\<lambda>_. custodial sha)" for i v
    unfolding runContinuationRequestKey_def Let_def
    by (auto intro!: triple_try_plain [OF triple_custodial [OF resting.keeps_replacement]] triple_give)
  have "triple (custodial sha) (continueOneRun w p d i) (\<lambda>_. custodial sha)" for i
    unfolding continueOneRun_def Let_def
    by (auto intro!: triple_next [OF reading_plain] triple_give triple_try_plain [OF key] triple_next [OF custodial_StartAttempt]
        triple_try_plain [OF recovered] refusal split: sum.split option.split)
  then have "triple (custodial sha) (continue_authorized w p d i) (\<lambda>_. custodial sha)" for i
    unfolding continue_authorized_def by (auto intro: triple_give triple_next)
  then have each: "triple (custodial sha) (collected (continue_authorized w p d) is) (\<lambda>_. custodial sha)" for "is"
    by (rule triple_collected)
  show ?thesis unfolding ContinueAuthorizedRuns_def listed_intents_def
    by (intro triple_next [OF reading_plain] triple_next [OF each] triple_give)
qed

lemmas run_commands = custodial_CommandRun custodial_Halt custodial_Reconcile custodial_Continue

end
