(* ===== verification/Service_System.thy ===== *)
theory Service_System
  imports Run_Laws
begin

text \<open>
  The service as a transition system: one step is one whole command, with whatever the world and
  the providers answer, or one transaction of the commands around outcomes and artifact
  receipts. The invariant of custody holds in every state any sequence of them reaches.
\<close>

inductive service_step :: "(string \<Rightarrow> string) \<Rightarrow> outcome_db \<Rightarrow> outcome_db \<Rightarrow> bool" for sha where
  start: "StartAttempt w p oid inp s = (r, s') \<Longrightarrow> service_step sha (sv_DB s) (sv_DB s')"
| cancel: "CancelAttempt w oid aid s = (r, s') \<Longrightarrow> service_step sha (sv_DB s) (sv_DB s')"
| recover: "RecoverAttempt w oid aid verb confirmed s = (r', s') \<Longrightarrow> service_step sha (sv_DB s) (sv_DB s')"
| evaluate: "EvaluateAttemptLiveness w s = (u, s') \<Longrightarrow> service_step sha (sv_DB s) (sv_DB s')"
| observe: "RecordObservation w oid aid kind detail s = (x, s') \<Longrightarrow> service_step sha (sv_DB s) (sv_DB s')"
| outcomes: "db_step sha db db' \<Longrightarrow> same_control db db' \<Longrightarrow> service_step sha db db'"
| command: "CommandRun w d oid c s = (v, s') \<Longrightarrow> service_step sha (sv_DB s) (sv_DB s')"
| halt: "HaltRunForCorrection w oid did s = (h, s') \<Longrightarrow> service_step sha (sv_DB s) (sv_DB s')"
| reconcile: "ReconcileRunIntents w s = (u, s') \<Longrightarrow> service_step sha (sv_DB s) (sv_DB s')"
| continue_runs: "ContinueAuthorizedRuns w p d s = (u, s') \<Longrightarrow> service_step sha (sv_DB s) (sv_DB s')"
| save: "SaveAttemptReceipt sha (control_view db) p = Inr (v, c) \<Longrightarrow> service_step sha db (db\<lparr>db_Control := c\<rparr>)"
| freeze: "FreezeAttemptReceipt (control_view db) aid at = Inr (v, c) \<Longrightarrow> service_step sha db (db\<lparr>db_Control := c\<rparr>)"
| classify: "ClassifyAttemptSucceeded (control_view db) obs cl = Inr (v, c) \<Longrightarrow>
    service_step sha db (db\<lparr>db_Control := c\<rparr>)"

inductive service_reachable :: "(string \<Rightarrow> string) \<Rightarrow> outcome_db \<Rightarrow> bool" for sha where
  initial: "service_reachable sha (empty_db (\<lambda>_. None))"
| next_state: "service_reachable sha db \<Longrightarrow> service_step sha db db' \<Longrightarrow> service_reachable sha db'"

section \<open>Transactions outside the attempt commands\<close>

lemma custodial_db_step:
  assumes "custodial sha db" "store_step sha (control_view db) c" "fenced_rows (home db) c" "honoured c"
  shows "custodial sha (db\<lparr>db_Control := c\<rparr>)"
proof -
  have "db_step sha db (db\<lparr>db_Control := c\<rparr>)" using assms(2) by (rule db_step.control)
  then show ?thesis using assms(1,3,4) by (auto simp: custodial_def intro: db_reachable.committed)
qed

lemma custodial_unmoved:
  assumes "custodial sha db" "store_step sha (control_view db) c"
    "st_Attempts c = st_Attempts (db_Control db)" "st_Fences c = st_Fences (db_Control db)"
    "st_Intents c = st_Intents (db_Control db)"
  shows "custodial sha (db\<lparr>db_Control := c\<rparr>)"
  using custodial_db_step [OF assms(1,2)] rows_same(1) [OF assms(3,4)] honoured_same [OF assms(3,5)] assms(1)
  by (simp add: custodial_def)

lemma honoured_classify:
  assumes "ClassifyAttemptSucceeded s obs c = Inr (u, s')" "honoured s"
  shows "honoured s'"
  using assms(1)
proof (cases rule: classify_cases)
  case (written a r k s1 s3 k')
  have "no_revival s s1" by (rule rows_transition(1) [OF written(4)])
  moreover have "st_Attempts s3 = st_Attempts s1" using insert_observation_effect [OF written(6)] by simp
  moreover have "st_Attempts s' = st_Attempts s3" using release_fences_effect(3) [OF written(7)] .
  moreover have "st_Intents s1 = st_Intents s" by (rule intents_kept(1) [OF written(4)])
  moreover have "st_Intents s3 = st_Intents s1" using intents_kept(4) [OF written(6)] by (simp add: freeze_rows_def)
  moreover have "st_Intents s' = st_Intents s3" by (rule intents_kept(2) [OF written(7)])
  ultimately show ?thesis using honoured_no_revival [of s s'] no_revival_same no_revival_trans assms(2) by metis
qed (use assms(2) in simp)

lemma fenced_home_mono:
  assumes "fenced_rows h s" "\<And>oid t. h oid = Some t \<Longrightarrow> h' oid = Some t" shows "fenced_rows h' s"
  unfolding fenced_rows_def
proof (intro ballI impI)
  fix a assume "a \<in> set (st_Attempts s)" "live (a_Status a)"
  then obtain t where "h (a_OutcomeID a) = Some t" "fence_holder s t = Some (a_ID a)"
    using assms(1) unfolding fenced_rows_def by blast
  then show "\<exists>t. h' (a_OutcomeID a) = Some t \<and> fence_holder s t = Some (a_ID a)" using assms(2) by blast
qed

lemma custodial_outcomes:
  assumes "custodial sha db" "db_step sha db db'" "same_control db db'"
  shows "custodial sha db'"
proof -
  have "home db' oid = Some t" if "home db oid = Some t" for oid t
    using that project_stays [OF placed_step [OF assms(2)]] by (auto simp: home_def)
  then have "fenced_rows (home db') (db_Control db)"
    using assms(1) fenced_home_mono unfolding custodial_def by blast
  then show ?thesis
    using assms by (auto simp: custodial_def same_control_def intro: db_reachable.committed)
qed

lemma custodial_service_step: "service_step sha db db' \<Longrightarrow> custodial sha db \<Longrightarrow> custodial sha db'"
proof (induction rule: service_step.induct)
  case (outcomes db db')
  then show ?case by (blast intro: custodial_outcomes)
next
  case (save db p v c)
  then show ?case
    by (intro custodial_unmoved store_step.save)
      (auto dest!: save_receipt_effect(1))
next
  case (freeze db aid at v c)
  then show ?case
    by (intro custodial_unmoved store_step.freeze)
      (auto simp: FreezeAttemptReceipt_def freeze_rows_def split: option.splits if_splits)
next
  case (classify db obs cl v c)
  have "fenced_rows (home db) c"
    using rows_classify [OF classify(1) custodial_ok [OF classify(2)]] classify(2) by (simp add: custodial_def)
  moreover have "honoured c" using honoured_classify [OF classify(1)] classify(2) by (simp add: custodial_def)
  ultimately show ?case by (rule custodial_db_step [OF classify(2) store_step.classify [OF classify(1)]])
qed (erule (1) custodial_commands [THEN tripleD, rotated] run_commands [THEN tripleD, rotated])+

lemma service_custodial: "service_reachable sha db \<Longrightarrow> custodial sha db"
proof (induction rule: service_reachable.induct)
  case initial
  show ?case
    using db_reachable.initial by (simp add: custodial_def fenced_rows_def honoured_def) (simp add: empty_db_def empty_store_def)
qed (rule custodial_service_step)

lemma service_db_reachable: "service_reachable sha db \<Longrightarrow> db_reachable sha db"
  using service_custodial by (simp add: custodial_def)

end
