(* ===== verification/Start_Effects.thy ===== *)
theory Start_Effects
  imports Service_System
begin

text \<open>
  What one admission changes: it touches no attempt but the one it creates, and it leaves that one
  running with a bound session, queued under custody with an error, or failed without custody.
\<close>

section \<open>Other attempts\<close>

lemma holds_custody_control [simp]:
  "holds_custody (db\<lparr>db_Control := c\<rparr>) x = list_ex (\<lambda>f. af_AttemptID f = x \<and> \<not> fr_Released f) (st_Fences c)"
  "attempt_rows (db\<lparr>db_Control := c\<rparr>) x = filter (\<lambda>a. a_ID a = x) (st_Attempts c)"
  by (simp_all add: holds_custody_def attempt_rows_def)

lemma left_alone_control:
  assumes "list_ex (\<lambda>f. af_AttemptID f = x \<and> \<not> fr_Released f) (st_Fences c) =
      list_ex (\<lambda>f. af_AttemptID f = x \<and> \<not> fr_Released f) (st_Fences (control_view db))"
    and "filter (\<lambda>a. a_ID a = x) (st_Attempts c) = filter (\<lambda>a. a_ID a = x) (st_Attempts (control_view db))"
  shows "left_alone x db (db\<lparr>db_Control := c\<rparr>)"
  using assms unfolding left_alone_def holds_custody_control by (simp add: holds_custody_def attempt_rows_def)

lemma update_others:
  assumes "update_status s oid aid e n at = Inr (k, s')" "x \<noteq> aid"
  shows "filter (\<lambda>a. a_ID a = x) (st_Attempts s') = filter (\<lambda>a. a_ID a = x) (st_Attempts s)"
proof -
  have "filter (\<lambda>a. a_ID a = x) (map (\<lambda>a. if a_ID a = aid \<and> a_OutcomeID a = oid \<and> a_Status a = e
      then a\<lparr>a_Status := n, a_UpdatedAt := at\<rparr> else a) rows) = filter (\<lambda>a. a_ID a = x) rows" for rows
    using assms(2) by (induction rows) auto
  then show ?thesis using assms(1) by (auto simp: update_status_def Let_def split: if_splits)
qed

lemma release_others:
  assumes "release_fences s aid reason at = Inr (k, s')"
  shows "list_ex (\<lambda>f. af_AttemptID f = x \<and> \<not> fr_Released f) (st_Fences s') \<longleftrightarrow>
         x \<noteq> aid \<and> list_ex (\<lambda>f. af_AttemptID f = x \<and> \<not> fr_Released f) (st_Fences s)"
proof -
  have "list_ex (\<lambda>f. af_AttemptID f = x \<and> \<not> fr_Released f) (map (\<lambda>f. if af_AttemptID f = aid \<and> \<not> fr_Released f
      then f\<lparr>af_ReleasedAt := at, af_ReleaseReason := reason, fr_Released := True\<rparr> else f) fs) \<longleftrightarrow>
      x \<noteq> aid \<and> list_ex (\<lambda>f. af_AttemptID f = x \<and> \<not> fr_Released f) fs" for fs
    by (induction fs) auto
  moreover have "st_Fences s' = map (\<lambda>f. if af_AttemptID f = aid \<and> \<not> fr_Released f
      then f\<lparr>af_ReleasedAt := at, af_ReleaseReason := reason, fr_Released := True\<rparr> else f) (st_Fences s)"
    using assms by (auto simp: release_fences_def Let_def split: if_splits)
  ultimately show ?thesis by simp
qed

lemma alone_transition: "x \<noteq> aid \<Longrightarrow> alone.keeps x (control_commit (\<lambda>c. TransitionAttemptStatus c oid aid e n at))"
  by (intro alone.keeps_control left_alone_control)
    (simp_all add: TransitionAttemptStatus_def update_others update_status_effect(2))

lemma alone_bind: "alone.keeps x (control_commit (\<lambda>c. BindAttemptSession c ref at r))"
  by (intro alone.keeps_control left_alone_control)
    (auto dest!: bind_session_effect(1))

lemma prelaunch_others:
  assumes "FailAttemptBeforeLaunch s obs f = Inr (r, c)" "x \<noteq> pf_AttemptID f"
  shows "list_ex (\<lambda>g. af_AttemptID g = x \<and> \<not> fr_Released g) (st_Fences c) =
      list_ex (\<lambda>g. af_AttemptID g = x \<and> \<not> fr_Released g) (st_Fences s)"
    "filter (\<lambda>a. a_ID a = x) (st_Attempts c) = filter (\<lambda>a. a_ID a = x) (st_Attempts s)"
proof -
  obtain s1 s2 where p:
      "append_validated s (new_observation s obs (pf_AttemptID f) (pf_ObservationKind f)
         (pf_ObservationPayload f) (pf_At f)) = Inr (r, s1)"
      "update_status s1 (pf_OutcomeID f) (pf_AttemptID f) AttemptQueued AttemptFailed (pf_At f) = Inr (1, s2)"
      "release_fences s2 (pf_AttemptID f) (pf_ReleaseReason f) (pf_At f) = Inr (1, c)"
    using assms(1) by (rule prelaunch_parts)
  have "st_Fences s2 = st_Fences s" using append_validated_effect(1) [OF p(1)] update_status_effect(2) [OF p(2)] by simp
  then show "list_ex (\<lambda>g. af_AttemptID g = x \<and> \<not> fr_Released g) (st_Fences c) =
      list_ex (\<lambda>g. af_AttemptID g = x \<and> \<not> fr_Released g) (st_Fences s)"
    using release_others [OF p(3), of x] assms(2) by simp
  show "filter (\<lambda>a. a_ID a = x) (st_Attempts c) = filter (\<lambda>a. a_ID a = x) (st_Attempts s)"
    using append_validated_effect(1) [OF p(1)] update_others [OF p(2) assms(2)] release_fences_effect(3) [OF p(3)] by simp
qed

lemma alone_prelaunch: "x \<noteq> a_ID a \<Longrightarrow> alone.keeps x (admitPrelaunchFailure w oid u a e)"
  unfolding admitPrelaunchFailure_def refused_after_def Let_def
  by (intro alone.keeps_next alone.keeps_passing alone.keeps_clock alone.keeps_give alone.keeps_control
      left_alone_control) (simp_all add: prelaunch_others)

lemma alone_unresolved: "alone.keeps x (admitUnresolved w aid kind cause)" "alone.keeps x (unresolved_activation w a e)"
  unfolding unresolved_activation_def admitUnresolved_def refused_after_def Let_def
  by (intro alone.keeps_next alone_observe alone_recordReceipt alone.keeps_give)+

lemma alone_launch:
  assumes "x \<noteq> a_ID a" shows "alone.keeps x (launch w p oid k now a)"
proof -
  have "alone.keeps x (activate w oid k a sn policy d now)" for sn policy d
    unfolding activate_def Let_def
    by (auto intro!: alone.keeps_next alone_bind alone_unresolved alone_transition assms alone.keeps_view split: sum.split)
  then show ?thesis unfolding launch_def
    by (auto intro!: alone_prelaunch alone_unresolved assms split: sum.split)
qed

section \<open>The new attempt\<close>

lemma view_unchanged: "AttemptView w oid aid s = (r, s') \<Longrightarrow> sv_DB s' = sv_DB s"
  by (auto simp: AttemptView_def readModel_def Let_def clock_def elim!: try_do_split next_do_split split: prod.splits)

lemma admit_created:
  assumes run: "admit w p oid inp s = (r, s')" and moved: "sv_DB s' \<noteq> sv_DB s"
  obtains k now aid fid a0 c t where "prepareAdmission w p oid inp (sv_DB s) = Inr k"
    "CreateAttemptWithFence (control_view (sv_DB s)) aid fid (admission_of oid k (sa_RequestKey inp) now) = Inr (a0, c)"
    "sv_DB t = (sv_DB s)\<lparr>db_Control := c\<rparr>" "launch w p oid k now a0 t = (r, s')"
proof -
  obtain k where k: "prepareAdmission w p oid inp (sv_DB s) = Inr k"
    and body: "next_do (clock w) (\<lambda>now. next_do (fresh w) (\<lambda>aid. next_do (fresh w) (\<lambda>fid.
      next_do (control_commit (\<lambda>c. CreateAttemptWithFence c aid fid (admission_of oid k (sa_RequestKey inp) now))) (\<lambda>r.
      case r of Inl e \<Rightarrow> refused_creation w e | Inr a \<Rightarrow> launch w p oid k now a)))) s = (r, s')"
    using run moved unfolding admit_def by (auto elim!: try_do_split)
  have "\<exists>now aid fid t. sv_DB t = sv_DB s \<and> next_do (control_commit (\<lambda>c. CreateAttemptWithFence c aid fid
      (admission_of oid k (sa_RequestKey inp) now)))
      (\<lambda>r. case r of Inl e \<Rightarrow> refused_creation w e | Inr a \<Rightarrow> launch w p oid k now a) t = (r, s')"
    by (rule exI [of _ "wo_Clock w (sv_Draws s)"], rule exI [of _ "wo_ID w (sv_Draws s + 1)"], rule exI [of _ "wo_ID w (sv_Draws s + 2)"],
        rule exI [of _ "s\<lparr>sv_Draws := sv_Draws s + 3\<rparr>"])
      (use body in \<open>simp add: next_do_def [of "clock w"] next_do_def [of "fresh w"] clock_def fresh_def numeral_eq_Suc\<close>)
  then obtain now aid fid t where same: "sv_DB t = sv_DB s"
    and rest: "next_do (control_commit (\<lambda>c. CreateAttemptWithFence c aid fid (admission_of oid k (sa_RequestKey inp) now)))
      (\<lambda>r. case r of Inl e \<Rightarrow> refused_creation w e | Inr a \<Rightarrow> launch w p oid k now a) t = (r, s')"
    by blast
  show thesis
  proof (cases "CreateAttemptWithFence (control_view (sv_DB s)) aid fid (admission_of oid k (sa_RequestKey inp) now)")
    case (Inl e)
    then have "refused_creation w e t = (r, s')" using rest same by (simp add: next_do_def control_commit_def)
    then have "sv_DB s' = sv_DB t"
      by (auto simp: refused_creation_def dest: view_unchanged split: store_error.splits)
    then show thesis using moved same by simp
  next
    case (Inr ac)
    then show thesis using that [of k aid fid now "fst ac" "snd ac" "t\<lparr>sv_DB := (sv_DB s)\<lparr>db_Control := snd ac\<rparr>\<rparr>"] k rest same
      by (simp add: next_do_def control_commit_def case_prod_unfold)
  qed
qed

lemma start_admits:
  assumes run: "StartAttempt w p oid inp s = (r, s')" and moved: "sv_DB s' \<noteq> sv_DB s"
  shows "admit w p oid inp s = (r, s')"
  using assms by (auto simp: StartAttempt_def replayed_start_def next_do_def reading_def
        dest: view_unchanged split: if_splits option.splits)

text \<open>A lineage, once there, stays.\<close>

definition lineages_kept :: "outcome_db \<Rightarrow> outcome_db \<Rightarrow> bool" where
  "lineages_kept db db' \<longleftrightarrow>
     lineage ` set (st_Attempts (db_Control db)) \<subseteq> lineage ` set (st_Attempts (db_Control db'))"

interpretation lineages: control_law lineages_kept sha for sha
proof unfold_locales
  fix db c assume "store_step sha (control_view db) c"
  then have "moved (control_view db) c" by (rule moved_step)
  then have "lineage a \<in> lineage ` set (st_Attempts c)" if "a \<in> set (st_Attempts (db_Control db))" for a
    using that unfolding moved_def by (metis image_eqI control_rows(2))
  then show "lineages_kept db (db\<lparr>db_Control := c\<rparr>)" by (auto simp: lineages_kept_def)
qed (auto simp: lineages_kept_def)

lemma start_created:
  assumes reach: "service_reachable sha (sv_DB s)" and run: "StartAttempt w p oid inp s = (r, s')"
    and new: "a \<in> set (st_Attempts (db_Control (sv_DB s')))" "a_ID a \<notin> a_ID ` set (st_Attempts (db_Control (sv_DB s)))"
  obtains k now aid fid a0 c t where "prepareAdmission w p oid inp (sv_DB s) = Inr k"
    "CreateAttemptWithFence (control_view (sv_DB s)) aid fid (admission_of oid k (sa_RequestKey inp) now) = Inr (a0, c)"
    "sv_DB t = (sv_DB s)\<lparr>db_Control := c\<rparr>" "launch w p oid k now a0 t = (r, s')" "lineage a = lineage a0"
proof -
  have moved: "sv_DB s' \<noteq> sv_DB s" using new by auto
  obtain k now aid fid a0 c t where k: "prepareAdmission w p oid inp (sv_DB s) = Inr k"
    "CreateAttemptWithFence (control_view (sv_DB s)) aid fid (admission_of oid k (sa_RequestKey inp) now) = Inr (a0, c)"
    "sv_DB t = (sv_DB s)\<lparr>db_Control := c\<rparr>" "launch w p oid k now a0 t = (r, s')"
    using start_admits [OF run moved] moved by (rule admit_created)
  have created: "st_Attempts c = st_Attempts (db_Control (sv_DB s)) @ [a0]"
    by (rule create_effect [OF k(2)]) simp
  have same: "a_ID a = a_ID a0"
  proof (rule ccontr)
    assume other: "a_ID a \<noteq> a_ID a0"
    have "attempt_rows (sv_DB s') (a_ID a) = attempt_rows (sv_DB t) (a_ID a)"
      using alone.keepsD [OF alone_launch [OF other] k(4)] by (simp add: left_alone_def)
    moreover have "a \<in> set (attempt_rows (sv_DB s') (a_ID a))" using new(1) by (simp add: attempt_rows_def)
    ultimately have "a \<in> set (attempt_rows (sv_DB t) (a_ID a))" by metis
    then show False using new(2) other created k(3) by (auto simp: attempt_rows_def)
  qed
  have "lineages_kept (sv_DB t) (sv_DB s')" by (rule lineages.keepsD [OF lineages.keeps_launch k(4)])
  then obtain b where b: "b \<in> set (st_Attempts (db_Control (sv_DB s')))" "lineage b = lineage a0"
    using created k(3) unfolding lineages_kept_def by fastforce
  have "service_reachable sha (sv_DB s')" using reach service_step.start [OF run] by (rule service_reachable.next_state)
  then have "lineage_ok (control_view (sv_DB s'))"
    using custodial_ok [OF service_custodial] by (simp add: store_ok_def)
  then have "b = a"
    using distinct_map_unique [of a_ID "st_Attempts (db_Control (sv_DB s'))" b a] b new(1) same lineage_fields
    by (metis (no_types, lifting) lineage_ok_def control_rows(2))
  then show thesis using that k b(2) by simp
qed

section \<open>How an admission ends\<close>

text \<open>The state of an attempt that a launch has to settle: queued, under custody.\<close>

definition standing :: "attempt_status \<Rightarrow> bool \<Rightarrow> ident \<Rightarrow> ident \<Rightarrow> outcome_db \<Rightarrow> bool" where
  "standing st held oid x db \<longleftrightarrow> holds_custody db x = held \<and>
     (\<exists>a. attempt_rows db x = [a] \<and> a_Status a = st \<and> a_OutcomeID a = oid)"

definition bound_session :: "ident \<Rightarrow> outcome_db \<Rightarrow> bool" where
  "bound_session x db \<longleftrightarrow> x \<in> sr_AttemptID ` set (st_Sessions (db_Control db))"

definition launch_settled :: "ident \<Rightarrow> ident \<Rightarrow> (api_error + attempt_view) \<Rightarrow> outcome_db \<Rightarrow> bool" where
  "launch_settled oid x r db \<longleftrightarrow> standing AttemptRunning True oid x db \<and> bound_session x db \<or>
     isl r \<and> (standing AttemptQueued True oid x db \<or> standing AttemptFailed False oid x db)"

lemma triple_standing: "alone.keeps x m \<Longrightarrow> triple (standing st held oid x) m (\<lambda>_. standing st held oid x)"
  unfolding triple_def by (auto simp: standing_def left_alone_def dest: alone.keepsD)

lemma update_hit:
  assumes "update_status s oid x e n at = Inr (k, s')" "filter (\<lambda>a. a_ID a = x) (st_Attempts s) = [a]"
    "a_Status a = e" "a_OutcomeID a = oid"
  shows "k = 1" "filter (\<lambda>a. a_ID a = x) (st_Attempts s') = [a\<lparr>a_Status := n, a_UpdatedAt := at\<rparr>]"
proof -
  let ?hit = "\<lambda>a. a_ID a = x \<and> a_OutcomeID a = oid \<and> a_Status a = e"
  let ?set = "\<lambda>a. if ?hit a then a\<lparr>a_Status := n, a_UpdatedAt := at\<rparr> else a"
  have s': "st_Attempts s' = map ?set (st_Attempts s)" and k: "k = length (filter ?hit (st_Attempts s))"
    using assms(1) by (auto simp: update_status_def Let_def split: if_splits)
  have hit: "?hit a" using assms(2-4) by (metis (mono_tags, lifting) filter_eq_Cons_iff)
  have "filter ?hit rows = filter ?hit (filter (\<lambda>a. a_ID a = x) rows)" for rows by (induction rows) auto
  from this [of "st_Attempts s"] have "filter ?hit (st_Attempts s) = filter ?hit [a]" unfolding assms(2) .
  then show "k = 1" using k hit by simp
  have "filter (\<lambda>a. a_ID a = x) (map ?set rows) = map ?set (filter (\<lambda>a. a_ID a = x) rows)" for rows
    by (induction rows) auto
  from this [of "st_Attempts s"] have "filter (\<lambda>a. a_ID a = x) (st_Attempts s') = map ?set [a]"
    unfolding s' assms(2) .
  then show "filter (\<lambda>a. a_ID a = x) (st_Attempts s') = [a\<lparr>a_Status := n, a_UpdatedAt := at\<rparr>]"
    using hit by simp
qed

lemma settled_unresolved:
  "triple (standing AttemptQueued True oid x) (admitUnresolved w x kind cause) (launch_settled oid x)"
proof -
  have "triple (standing AttemptQueued True oid x) (refused_after m e) (launch_settled oid x)"
    if "alone.keeps x m" for m :: "(api_error + recovery_receipt) action" and e
    unfolding refused_after_def
    by (rule triple_next [OF triple_standing [OF that]], rule triple_give) (simp add: launch_settled_def)
  from this [OF alone_recordReceipt] show ?thesis unfolding admitUnresolved_def Let_def
    by (intro triple_next [OF triple_standing [OF alone_observe]])
qed

lemma settled_prelaunch:
  "triple (standing AttemptQueued True oid (a_ID a)) (admitPrelaunchFailure w oid u a e) (launch_settled oid (a_ID a))"
proof -
  let ?x = "a_ID a"
  have written: "triple (standing AttemptQueued True oid ?x) (control_commit (\<lambda>c. FailAttemptBeforeLaunch c obs f))
      (\<lambda>_ db. standing AttemptQueued True oid ?x db \<or> standing AttemptFailed False oid ?x db)"
    if f: "pf_AttemptID f = ?x" "pf_OutcomeID f = oid" for obs f
  proof (rule triple_control)
    fix db r c assume pre: "standing AttemptQueued True oid ?x db"
      and t: "FailAttemptBeforeLaunch (control_view db) obs f = Inr (r, c)"
    obtain s1 s2 where p:
        "append_validated (control_view db) (new_observation (control_view db) obs ?x (pf_ObservationKind f)
           (pf_ObservationPayload f) (pf_At f)) = Inr (r, s1)"
        "update_status s1 oid ?x AttemptQueued AttemptFailed (pf_At f) = Inr (1, s2)"
        "release_fences s2 ?x (pf_ReleaseReason f) (pf_At f) = Inr (1, c)"
      using prelaunch_parts [OF t] unfolding f by metis
    obtain b where b: "filter (\<lambda>a. a_ID a = ?x) (st_Attempts s1) = [b]" "a_Status b = AttemptQueued" "a_OutcomeID b = oid"
      using pre append_validated_effect(1) [OF p(1)] by (auto simp: standing_def attempt_rows_def)
    have "standing AttemptFailed False oid ?x (db\<lparr>db_Control := c\<rparr>)"
      using update_hit(2) [OF p(2) b] b(3) release_others [OF p(3), of ?x] release_fences_effect(3) [OF p(3)]
      by (simp add: standing_def)
    then show "standing AttemptQueued True oid ?x (db\<lparr>db_Control := c\<rparr>) \<or>
        standing AttemptFailed False oid ?x (db\<lparr>db_Control := c\<rparr>)" ..
  qed simp
  have passed: "triple P (refused_after (passing g m) e) (launch_settled oid ?x)"
    if "triple P m (\<lambda>_ db. standing AttemptQueued True oid ?x db \<or> standing AttemptFailed False oid ?x db)"
    for P g e and m :: "(store_error + observation) action"
    unfolding refused_after_def passing_def
    by (rule triple_next [OF triple_next [OF that triple_give] triple_give]) (auto simp: launch_settled_def)
  show ?thesis unfolding admitPrelaunchFailure_def Let_def
    by (rule triple_next [OF triple_clock(1)], rule triple_next [OF triple_clock(2)], rule passed, rule written) simp_all
qed

lemma settled_activate:
  "triple (standing AttemptQueued True oid (a_ID a)) (activate w oid k a sn policy d now) (launch_settled oid (a_ID a))"
proof -
  let ?x = "a_ID a"
  let ?P = "standing AttemptQueued True oid ?x"
  let ?B = "\<lambda>db. ?P db \<and> bound_session ?x db"
  have bound: "triple ?P (control_commit (\<lambda>c. BindAttemptSession c ref at r))
      (\<lambda>y db. ?P db \<and> (\<not> isl y \<longrightarrow> bound_session ?x db))" if "sr_AttemptID r = ?x" for ref at r
  proof (rule triple_control)
    fix db y c assume pre: "?P db" and bind: "BindAttemptSession (control_view db) ref at r = Inr (y, c)"
    show "?P (db\<lparr>db_Control := c\<rparr>) \<and> (\<not> isl (Inr y) \<longrightarrow> bound_session ?x (db\<lparr>db_Control := c\<rparr>))"
      using pre that bind_session_effect [OF bind]
      by (auto simp: standing_def bound_session_def holds_custody_def attempt_rows_def)
  qed auto
  have running: "triple ?B (control_commit (\<lambda>c. TransitionAttemptStatus c oid ?x AttemptQueued AttemptRunning at))
      (\<lambda>y db. (case y of Inl _ \<Rightarrow> ?P db | Inr rows \<Rightarrow> rows = 1 \<and>
        standing AttemptRunning True oid ?x db \<and> bound_session ?x db))" for at
  proof (rule triple_control)
    fix db r c assume pre: "?B db"
      and t: "TransitionAttemptStatus (control_view db) oid ?x AttemptQueued AttemptRunning at = Inr (r, c)"
    have u: "update_status (control_view db) oid ?x AttemptQueued AttemptRunning at = Inr (r, c)"
      using t by (simp add: TransitionAttemptStatus_def)
    obtain b where b: "filter (\<lambda>a. a_ID a = ?x) (st_Attempts (control_view db)) = [b]" "a_Status b = AttemptQueued"
        "a_OutcomeID b = oid" using pre by (auto simp: standing_def attempt_rows_def)
    have "st_Sessions c = st_Sessions (control_view db)" using u by (auto simp: update_status_def Let_def split: if_splits)
    then show "case Inr r of Inl _ \<Rightarrow> ?P (db\<lparr>db_Control := c\<rparr>) | Inr rows \<Rightarrow> rows = 1 \<and>
        standing AttemptRunning True oid ?x (db\<lparr>db_Control := c\<rparr>) \<and> bound_session ?x (db\<lparr>db_Control := c\<rparr>)"
      using update_hit [OF u b] pre b(3) update_status_effect(2) [OF u]
      by (simp add: standing_def bound_session_def holds_custody_def)
  qed simp
  have lost: "triple ?P (unresolved_activation w a e) (launch_settled oid ?x)" for e
    unfolding unresolved_activation_def by (rule settled_unresolved)
  have shown: "triple (\<lambda>db. standing AttemptRunning True oid ?x db \<and> bound_session ?x db) (AttemptView w oid ?x)
      (launch_settled oid ?x)"
    unfolding triple_def by (auto simp: launch_settled_def dest: view_unchanged)
  have moved: "triple ?B (next_do (clock w) (\<lambda>at. next_do (control_commit (\<lambda>c.
      TransitionAttemptStatus c oid ?x AttemptQueued AttemptRunning at)) (\<lambda>r. case r of
        Inl e \<Rightarrow> unresolved_activation w a (f e)
      | Inr rows \<Rightarrow> if rows \<noteq> 1 then unresolved_activation w a (g rows) else AttemptView w oid ?x)))
      (launch_settled oid ?x)" for f g
    by (rule triple_next [OF triple_clock(1)], rule triple_next [OF running])
      (auto intro: triple_weaken [OF lost] triple_weaken [OF shown] simp del: One_nat_def split: sum.split)
  show ?thesis unfolding activate_def Let_def
    by (rule triple_next [OF triple_clock(1)], rule triple_next [OF triple_clock(2)], rule triple_next [OF bound])
      (auto intro: triple_weaken [OF lost] triple_weaken [OF moved] simp del: One_nat_def split: sum.split)
qed

lemma settled_launch:
  "triple (standing AttemptQueued True oid (a_ID a)) (launch w p oid k now a) (launch_settled oid (a_ID a))"
  unfolding launch_def unresolved_activation_def
  by (auto intro: settled_prelaunch settled_unresolved settled_activate split: sum.split)

lemma created_standing:
  assumes "CreateAttemptWithFence (control_view db) aid fid d = Inr (a, c)"
  shows "standing AttemptQueued True (ad_OutcomeID d) (a_ID a) (db\<lparr>db_Control := c\<rparr>)"
proof -
  obtain g where "a = admitted_attempt (control_view db) aid d g" "aid \<notin> a_ID ` set (st_Attempts (db_Control db))"
      "st_Attempts c = st_Attempts (db_Control db) @ [a]"
      "issued_fence fid (ad_FenceSubject d) aid (ad_At d) \<in> set (st_Fences c)"
    by (rule create_effect [OF assms]) auto
  moreover have "filter (\<lambda>b. a_ID b = aid) (st_Attempts (db_Control db)) = []"
    using calculation(2) by (auto simp: filter_empty_conv)
  ultimately show ?thesis
    by (auto simp: standing_def list_ex_iff intro!: bexI [of _ "issued_fence fid (ad_FenceSubject d) aid (ad_At d)"])
qed

end
