(* ===== verification/Service_Samples.thy ===== *)
theory Service_Samples
  imports Outcome_Properties Service_Properties Start_Effects
begin

text \<open>
  A sample run of the service: an outcome with an approved plan, and an admission whose provider
  did not answer, evaluated step by step.
\<close>

section \<open>Reaching the approved plan\<close>

lemma sample_service_reachable: "service_reachable sha sample_approved_db"
proof -
  have "service_step sha (empty_db (\<lambda>_. None)) ((empty_db (\<lambda>_. None))\<lparr>db_Spaces := sample_spaces\<rparr>)"
    by (rule service_step.outcomes [OF db_step.spaces]) (simp_all add: empty_db_def same_control_def)
  then have "service_reachable sha (empty_db sample_spaces)"
    using service_reachable.next_state [OF service_reachable.initial] by (simp add: empty_db_def)
  moreover have "service_step sha (empty_db sample_spaces) sample_db"
    by (rule service_step.outcomes [OF db_step.start [OF sample_db_created]])
      (simp_all add: sample_contract_def sample_outcome_def sample_db_def same_control_def)
  moreover have "service_step sha sample_db sample_proposed_db" "service_step sha sample_proposed_db sample_approved_db"
    by (rule service_step.outcomes [OF sample_db_steps(1)] service_step.outcomes [OF sample_db_steps(2)],
        simp add: same_control_def sample_proposed_db_def sample_approved_db_def)+
  ultimately show ?thesis by (blast intro: service_reachable.next_state)
qed

section \<open>The admission\<close>

definition sample_provider :: provider where
  "sample_provider = \<lparr>pd_BriefDigest = (\<lambda>_. replicate 64 (CHR ''0'')), pd_PolicyLayers = [], pd_Resolve = Some,
     pd_Documents = None, pd_SourcesChanged = (\<lambda>_. False), pd_ProfileReadiness = (\<lambda>_ _ _. Inr True),
     pd_Spawn = (\<lambda>_. Inl \<lparr>xe_InputProvisioning = False, xe_WorkspacePreparation = False, xe_BinaryNotFound = False,
        xe_PrelaunchStage = None, xe_Text = ''timeout''\<rparr>)\<rparr>"

definition sample_start :: start_input where
  "sample_start = \<lparr>sa_PlanRevisionID = ''p1'', sa_WorkUnitID = [], sa_Harness = [], sa_RequestKey = ''key''\<rparr>"

definition sample_stored_contract :: contract_revision where
  "sample_stored_contract = sample_contract\<lparr>cr_CreatedAt := 5\<rparr>"

definition sample_row :: outcome where
  "sample_row = \<lparr>o_ID = ''o1'', o_SpaceID = ''s1'', o_ParentID = [], o_Title = ''t'',
        o_CurrentRevisionNumber = 1, o_CreatedAt = 5, o_UpdatedAt = 1\<rparr>"

lemma sample_authority:
  "outcome_or_missing sample_approved_db ''o1'' = Inr sample_row"
  "Clear (startGateFor sample_approved_db sample_row)"
  "refuseAdmissionAgainstRunIntent sample_approved_db ''o1'' = Inr 0"
  "refuseExecutionAgainstCorrection sample_approved_db ''o1'' = Inr ()"
  "plan_or_missing sample_approved_db ''o1'' ''p1'' = Inr sample_approved_plan"
  "pr_Status sample_approved_plan = PlanApproved"
  "BindsCurrentContract sample_approved_plan 1"
  "currentRevision sample_approved_db sample_row = Inr sample_stored_contract"
  "ValidateForApproval sample_approved_plan sample_stored_contract = None"
  "authorizeAttemptCapabilities [] sample_stored_contract sample_approved_plan = None"
proof -
  show "pr_Status sample_approved_plan = PlanApproved" by (simp add: sample_approved_plan_def)
  show "BindsCurrentContract sample_approved_plan 1"
    by (simp add: BindsCurrentContract_def sample_approved_plan_def sample_plan_def)
  show "ValidateForApproval sample_approved_plan sample_stored_contract = None"
    unfolding sample_approved_plan_def sample_stored_contract_def
    by (rule approval_survives_stamps [OF sample_plan_approvable])
qed (code_simp+)

lemma sample_authorized_plan:
  "authorized_plan sample_provider sample_approved_db ''o1'' ''p1'' =
     Inr (sample_row, 0, sample_approved_plan, sample_stored_contract)"
proof -
  have "o_CurrentRevisionNumber sample_row = 1" "pd_PolicyLayers sample_provider = []"
    by (simp_all add: sample_row_def sample_provider_def)
  then show ?thesis by (simp add: authorized_plan_def sample_authority require_def)
qed

text \<open>The values a packet carries, each computed on its own.\<close>

definition sample_unit :: work_unit where "sample_unit = hd sample_order"

definition sample_brief :: string where "sample_brief = replicate 64 (CHR ''0'')"

definition sample_policy :: execution_policy where
  "sample_policy = projr (BuildAttemptExecutionPolicy ''o1'' sample_approved_plan sample_unit sample_brief)"

definition sample_binding :: execution_binding where
  "sample_binding = projr (ExecutionBindingForNewWork sample_unit)"

definition sample_prompt :: string where
  "sample_prompt = projr (renderRunBriefPrompt sample_stored_contract sample_unit)"

lemma sample_policy_exists: "\<not> isl (BuildAttemptExecutionPolicy ''o1'' sample_approved_plan sample_unit sample_brief)"
  by code_simp

lemma sample_inputs: "admittedInputsFor sha (db_Control sample_approved_db) sample_approved_plan sample_unit = Inr []"
  by code_simp

lemma sample_selected: "selected_unit sample_approved_db ''o1'' sample_approved_plan [] = Inr sample_unit"
  by code_simp

lemma sample_core: "ComputePlanRunBriefCoreDigest (\<lambda>_. sample_brief) sample_stored_contract sample_units sample_grants = Inr sample_brief"
  by code_simp

lemma sample_computed:
  "selected_unit sample_approved_db ''o1'' sample_approved_plan [] = Inr sample_unit"
  "ComputePlanRunBriefCoreDigest (\<lambda>_. sample_brief) sample_stored_contract sample_units sample_grants = Inr sample_brief"
  "pr_RunBriefCoreDigest sample_approved_plan = sample_brief"
  "pr_WorkUnits sample_approved_plan = sample_units" "pr_Grants sample_approved_plan = sample_grants"
  "\<not> isl (BuildAttemptExecutionPolicy ''o1'' sample_approved_plan sample_unit sample_brief)"
  "\<not> isl (ExecutionBindingForNewWork sample_unit)"
  "\<not> isl (renderRunBriefPrompt sample_stored_contract sample_unit)"
  "GetOutcomeProjectID sample_approved_db ''o1'' = Some ''p1''"
  "admittedInputsFor sha (db_Control sample_approved_db) sample_approved_plan sample_unit = Inr []"
proof (rule sample_selected sample_core sample_policy_exists sample_inputs)+
  show "pr_RunBriefCoreDigest sample_approved_plan = sample_brief" "pr_WorkUnits sample_approved_plan = sample_units"
    "pr_Grants sample_approved_plan = sample_grants"
    by (simp_all add: sample_approved_plan_def sample_plan_def sample_brief_def)
qed (rule sample_selected sample_core sample_policy_exists sample_inputs | code_simp)+

lemma computed: "\<not> isl r \<Longrightarrow> r = Inr (projr r)"
  by simp

lemma sample_authorized_unit:
  "authorized_unit sample_provider sample_approved_db ''o1'' sample_start sample_approved_plan sample_stored_contract =
     Inr (sample_unit, sample_binding, sample_brief, sample_policy, sample_prompt)"
proof -
  have "ExecutionBindingForNewWork sample_unit = Inr sample_binding"
    "BuildAttemptExecutionPolicy ''o1'' sample_approved_plan sample_unit sample_brief = Inr sample_policy"
    "renderRunBriefPrompt sample_stored_contract sample_unit = Inr sample_prompt"
    unfolding sample_binding_def sample_policy_def sample_prompt_def
    by (rule computed; rule sample_computed)+
  moreover have "pd_BriefDigest sample_provider = (\<lambda>_. sample_brief)" "sa_WorkUnitID sample_start = []"
    "trim_space (sa_Harness sample_start) = []"
    by (simp_all add: sample_provider_def sample_start_def sample_brief_def trim_space_def)
  ultimately show ?thesis
    by (simp add: authorized_unit_def sample_computed require_def passing_failure_def)
qed

definition sample_packet :: admission_packet where
  "sample_packet = \<lparr>ap_Outcome = sample_row, ap_Generation = 0, ap_Plan = sample_approved_plan, ap_Unit = sample_unit,
     ap_Binding = sample_binding, ap_Core = sample_brief, ap_Policy = sample_policy, ap_Prompt = sample_prompt,
     ap_ProjectID = ''p1'', ap_Inputs = [], ap_Documents = None\<rparr>"

lemma sample_prepared: "prepareAdmission w sample_provider ''o1'' sample_start sample_approved_db = Inr sample_packet"
proof -
  have "probeReadiness sample_provider ''p1'' b q = Inr ()" "approvedDocumentsForAdmission sample_provider ''o1'' = Inr None"
    "sa_PlanRevisionID sample_start = ''p1''" for b q
    by (simp_all add: probeReadiness_def approvedDocumentsForAdmission_def sample_provider_def require_def sample_start_def)
  then show ?thesis
    by (simp add: prepareAdmission_def sample_authorized_plan sample_authorized_unit sample_computed sample_packet_def)
qed

section \<open>The launch that stayed unresolved\<close>

definition sample_admitting :: service_state where
  "sample_admitting = \<lparr>sv_DB = sample_approved_db, sv_Draws = 0\<rparr>"

definition sample_admission :: attempt_admission where
  "sample_admission = \<lparr>ad_OutcomeID = ''o1'', ad_PlanRevisionID = ''p1'', ad_WorkUnitID = wu_ID sample_unit,
      ad_ContractRevisionNumber = 1, ad_RunIntentGeneration = 0, ad_RequestKey = ''key'',
      ad_FenceSubject = ''project:p1'', ad_At = 10\<rparr>"

definition sample_queued :: "attempt \<times> control_store" where
  "sample_queued = projr (CreateAttemptWithFence (control_view sample_approved_db) ''ii'' ''iii'' sample_admission)"

definition sample_queued_state :: service_state where
  "sample_queued_state = \<lparr>sv_DB = sample_approved_db\<lparr>db_Control := snd sample_queued\<rparr>, sv_Draws = 3\<rparr>"

lemma sample_created: "CreateAttemptWithFence (control_view sample_approved_db) ''ii'' ''iii'' sample_admission =
    Inr (fst sample_queued, snd sample_queued)"
proof -
  have "\<not> isl (CreateAttemptWithFence (control_view sample_approved_db) ''ii'' ''iii'' sample_admission)" by code_simp
  from computed [OF this] show ?thesis by (simp add: sample_queued_def)
qed

lemma sample_launched:
  "StartAttempt (sample_world False) sample_provider ''o1'' sample_start sample_admitting =
     admitUnresolved (sample_world False) (a_ID (fst sample_queued)) ObservationAdmissionAmbiguous ''timeout'' sample_queued_state"
proof -
  have fields: "\<not> blank (sa_RequestKey sample_start)"
    "FindAttemptByIdempotencyKey (db_Control sample_approved_db) (sa_RequestKey sample_start) = None"
    by code_simp+
  have "admission_of ''o1'' sample_packet (sa_RequestKey sample_start) 10 = sample_admission" by code_simp
  moreover have "launch w sample_provider ''o1'' sample_packet now a =
      admitUnresolved w (a_ID a) ObservationAdmissionAmbiguous ''timeout''" for w now a
    by (simp add: launch_def sample_provider_def prelaunch_known_def)
  moreover have "wo_Clock (sample_world b) n = 10 + int n" "wo_ID (sample_world b) = numbered" for b n
    by (simp_all add: sample_world_def)
  ultimately show ?thesis
    by (simp add: StartAttempt_def admit_def fields action_defs sample_admitting_def sample_prepared
        numbered_def sample_created sample_queued_state_def numeral_eq_Suc case_prod_unfold)
qed

lemma sample_launched_rows:
  "map (\<lambda>a. (a_ID a, a_Status a, a_OutcomeID a)) (st_Attempts (db_Control (sv_DB (snd
     (StartAttempt (sample_world False) sample_provider ''o1'' sample_start sample_admitting))))) = [(''ii'', AttemptQueued, ''o1'')]"
  unfolding sample_launched by code_simp

end
