(* ===== verification/System_Properties.thy ===== *)
theory System_Properties
  imports Service_Samples
begin

text \<open>
  The promises of the service as a whole: one writer per project over every interleaving of
  commands, an admission only under the authority in force, and an end that tells the truth for
  every admission.
\<close>

section \<open>One writer\<close>

text \<open>C1: Whatever commands ran, in whatever order and however their calls to the providers ended,
  two live attempts on outcomes of one project are the same attempt, and it holds the project's
  open custody fence.\<close>

theorem single_writer:
  assumes "service_reachable sha db"
    and "a \<in> set (st_Attempts (db_Control db))" "live (a_Status a)"
    and "b \<in> set (st_Attempts (db_Control db))" "live (a_Status b)"
    and "GetOutcomeProjectID db (a_OutcomeID a) = GetOutcomeProjectID db (a_OutcomeID b)"
  shows "a = b \<and> (\<exists>project f. GetOutcomeProjectID db (a_OutcomeID a) = Some project \<and>
     OpenFenceForSubject (db_Control db) (FenceSubjectForProject project) = Some f \<and> af_AttemptID f = a_ID a)"
proof -
  have ok: "custodial sha db" using assms(1) by (rule service_custodial)
  have held: "\<exists>t. home db (a_OutcomeID c) = Some t \<and> fence_holder (db_Control db) t = Some (a_ID c)"
    if "c \<in> set (st_Attempts (db_Control db))" "live (a_Status c)" for c
    using ok that by (simp add: custodial_def fenced_rows_def)
  have "home db (a_OutcomeID a) = home db (a_OutcomeID b)" using assms(6) by (simp add: home_def)
  then have "a_ID a = a_ID b" using held [OF assms(2,3)] held [OF assms(4,5)] by auto
  then have "a = b"
    using custodial_ok [OF ok] assms(2,4) distinct_map_unique [of a_ID "st_Attempts (db_Control db)" a b]
    by (simp add: store_ok_def lineage_ok_def)
  then show ?thesis using held [OF assms(2,3)] by (auto simp: home_def fence_holder_def)
qed

definition sample_launched_state :: service_state where
  "sample_launched_state = snd (StartAttempt (sample_world False) sample_provider ''o1'' sample_start sample_admitting)"

lemma sample_launched_step:
  "StartAttempt (sample_world False) sample_provider ''o1'' sample_start sample_admitting =
     (fst (StartAttempt (sample_world False) sample_provider ''o1'' sample_start sample_admitting), sample_launched_state)"
  by (simp add: sample_launched_state_def)

lemma sample_launched_reachable:
  "service_reachable sha (sv_DB sample_admitting)" "service_reachable sha (sv_DB sample_launched_state)"
proof -
  show first: "service_reachable sha (sv_DB sample_admitting)"
    using sample_service_reachable by (simp add: sample_admitting_def)
  show "service_reachable sha (sv_DB sample_launched_state)"
    by (rule service_reachable.next_state [OF first service_step.start [OF sample_launched_step]])
qed

lemma sample_launched_attempt:
  obtains a where "st_Attempts (db_Control (sv_DB sample_launched_state)) = [a]" "a_ID a = ''ii''"
    "a_Status a = AttemptQueued" "a_OutcomeID a = ''o1''"
  using sample_launched_rows unfolding sample_launched_state_def by auto

lemma single_writer_witness:
  "\<exists>a f. st_Attempts (db_Control (sv_DB sample_launched_state)) = [a] \<and>
     OpenFenceForSubject (db_Control (sv_DB sample_launched_state)) (FenceSubjectForProject ''p1'') = Some f \<and>
     af_AttemptID f = a_ID a"
proof -
  obtain a where a: "st_Attempts (db_Control (sv_DB sample_launched_state)) = [a]" "a_Status a = AttemptQueued"
    "a_OutcomeID a = ''o1''" by (rule sample_launched_attempt)
  have "untouched (sv_DB sample_admitting) (sv_DB sample_launched_state)"
    by (rule outside.keepsD [OF outside.keeps_StartAttempt sample_launched_step])
  then have "GetOutcomeProjectID (sv_DB sample_launched_state) ''o1'' = GetOutcomeProjectID sample_approved_db ''o1''"
    by (simp add: GetOutcomeProjectID_def outcome_row_by_id_def untouched_def same_outcomes_def sample_admitting_def
        cong: option.case_cong)
  then have "GetOutcomeProjectID (sv_DB sample_launched_state) ''o1'' = Some ''p1''" by (simp add: sample_computed)
  then show ?thesis
    using single_writer [OF sample_launched_reachable(2), of a a] a by (auto simp: live_def)
qed

section \<open>Admission\<close>

lemma lineage_same:
  assumes "lineage a = lineage b"
  shows "a_ID a = a_ID b" "a_OutcomeID a = a_OutcomeID b" "a_PlanRevisionID a = a_PlanRevisionID b"
    "a_WorkUnitID a = a_WorkUnitID b" "a_RunIntentGeneration a = a_RunIntentGeneration b"
  using assms lineage_fields by metis+

lemma prepared_parts:
  assumes "prepareAdmission w p oid inp db = Inr k"
  obtains contract where
    "authorized_plan p db oid (sa_PlanRevisionID inp) = Inr (ap_Outcome k, ap_Generation k, ap_Plan k, contract)"
    "authorized_unit p db oid inp (ap_Plan k) contract = Inr (ap_Unit k, ap_Binding k, ap_Core k, ap_Policy k, ap_Prompt k)"
  using assms by (auto simp: prepareAdmission_def and_then_Inr split: option.splits)

lemma authorized_plan_facts:
  assumes "authorized_plan p db oid pid = Inr (r, g, plan, contract)"
  shows "GetOutcome db oid = Some r" "Clear (startGateFor db r)" "GetPlanRevision db oid pid = Some plan"
    "pr_Status plan = PlanApproved" "BindsCurrentContract plan (o_CurrentRevisionNumber r)"
    "currentRevision db r = Inr contract" "ValidateForApproval plan contract = None"
    "authorizeAttemptCapabilities (pd_PolicyLayers p) contract plan = None"
    "\<forall>i. CurrentRunIntent (st_Intents (db_Control db)) oid = Some i \<longrightarrow> ri_Desired i \<notin> {RunPaused, RunCancelled}"
    "refuseExecutionAgainstCorrection db oid = Inr ()"
  using assms by (auto simp: authorized_plan_def and_then_Inr outcome_or_missing_def plan_or_missing_def
      refuseAdmissionAgainstRunIntent_def split: option.splits if_splits)

lemma guarded_Inr: "(case r of Inl e \<Rightarrow> Inl (f e) | Inr x \<Rightarrow> g x) = Inr y \<longleftrightarrow> (\<exists>x. r = Inr x \<and> g x = Inr y)"
  by (cases r) auto

lemma authorized_unit_facts:
  assumes "authorized_unit p db oid inp plan contract = Inr (u, b, core, policy, prompt)"
  obtains v where "GetProof db oid = Inr v"
    "nextRunnableWorkUnit plan (ListAttempts (db_Control db) oid) v = Inr (Some u)"
    "blank (sa_WorkUnitID inp) \<or> sa_WorkUnitID inp = wu_ID u"
    "ComputePlanRunBriefCoreDigest (pd_BriefDigest p) contract (pr_WorkUnits plan) (pr_Grants plan) =
       Inr (pr_RunBriefCoreDigest plan)"
  using assms by (auto simp: authorized_unit_def selected_unit_def and_then_Inr Let_def guarded_Inr passing_failure_Inr
      dest!: selected_is_next)

lemma no_correction:
  assumes "refuseExecutionAgainstCorrection db oid = Inr ()" "GetProof db oid = Inr v"
  shows "correctionRequiringRevision v (GetLatestPlanRevision db oid) = None"
  using assms by (auto simp: refuseExecutionAgainstCorrection_def correctionRequiringRevision_def split: if_splits)

text \<open>C2: An attempt that a start command added carries the authority in force: its plan is approved,
  bound to the current contract, still valid against it and within the ceilings of the contract and
  of the daemon; no contributor it depends on holds it back; no correction asks for a new revision;
  the run was neither paused nor cancelled; its work unit is the one the scheduler runs next and the
  one asked for; and the run brief frozen in the plan is the one of the current contract.\<close>

theorem admission_exact:
  assumes "service_reachable sha (sv_DB s)" "StartAttempt w p oid inp s = (r, s')"
    "a \<in> set (st_Attempts (db_Control (sv_DB s')))"
    "a_ID a \<notin> a_ID ` set (st_Attempts (db_Control (sv_DB s)))"
  shows "\<exists>o' plan contract v u. a_OutcomeID a = oid \<and> GetOutcome (sv_DB s) oid = Some o' \<and>
     GetPlanRevision (sv_DB s) oid (a_PlanRevisionID a) = Some plan \<and> pr_Status plan = PlanApproved \<and>
     BindsCurrentContract plan (o_CurrentRevisionNumber o') \<and>
     currentRevision (sv_DB s) o' = Inr contract \<and> ValidateForApproval plan contract = None \<and>
     authorizeAttemptCapabilities (pd_PolicyLayers p) contract plan = None \<and>
     Clear (startGateFor (sv_DB s) o') \<and> GetProof (sv_DB s) oid = Inr v \<and>
     correctionRequiringRevision v (GetLatestPlanRevision (sv_DB s) oid) = None \<and>
     (\<forall>i. CurrentRunIntent (st_Intents (db_Control (sv_DB s))) oid = Some i \<longrightarrow> ri_Desired i \<notin> {RunPaused, RunCancelled}) \<and>
     nextRunnableWorkUnit plan (ListAttempts (db_Control (sv_DB s)) oid) v = Inr (Some u) \<and>
     a_WorkUnitID a = wu_ID u \<and> (blank (sa_WorkUnitID inp) \<or> sa_WorkUnitID inp = wu_ID u) \<and>
     ComputePlanRunBriefCoreDigest (pd_BriefDigest p) contract (pr_WorkUnits plan) (pr_Grants plan) =
       Inr (pr_RunBriefCoreDigest plan)"
proof -
  obtain k now aid fid a0 c t where k: "prepareAdmission w p oid inp (sv_DB s) = Inr k"
    and created: "CreateAttemptWithFence (control_view (sv_DB s)) aid fid (admission_of oid k (sa_RequestKey inp) now) = Inr (a0, c)"
    and same: "lineage a = lineage a0"
    using start_created [OF assms(1-4)] by metis
  obtain g where "a0 = admitted_attempt (control_view (sv_DB s)) aid (admission_of oid k (sa_RequestKey inp) now) g"
    by (rule create_effect [OF created]) auto
  then have fields: "a_OutcomeID a = oid" "a_PlanRevisionID a = pr_ID (ap_Plan k)" "a_WorkUnitID a = wu_ID (ap_Unit k)"
    using lineage_same [OF same] by (simp_all add: admission_of_def admitted_attempt_def)
  obtain contract where plan: "authorized_plan p (sv_DB s) oid (sa_PlanRevisionID inp) =
        Inr (ap_Outcome k, ap_Generation k, ap_Plan k, contract)"
      "authorized_unit p (sv_DB s) oid inp (ap_Plan k) contract =
        Inr (ap_Unit k, ap_Binding k, ap_Core k, ap_Policy k, ap_Prompt k)"
    using k by (rule prepared_parts)
  have "pr_ID (ap_Plan k) = sa_PlanRevisionID inp"
    using authorized_plan_facts(3) [OF plan(1)] by (auto simp: GetPlanRevision_def dest: find_SomeD)
  obtain v where unit: "GetProof (sv_DB s) oid = Inr v"
      "nextRunnableWorkUnit (ap_Plan k) (ListAttempts (db_Control (sv_DB s)) oid) v = Inr (Some (ap_Unit k))"
      "blank (sa_WorkUnitID inp) \<or> sa_WorkUnitID inp = wu_ID (ap_Unit k)"
      "ComputePlanRunBriefCoreDigest (pd_BriefDigest p) contract (pr_WorkUnits (ap_Plan k)) (pr_Grants (ap_Plan k)) =
         Inr (pr_RunBriefCoreDigest (ap_Plan k))"
    using plan(2) by (rule authorized_unit_facts)
  show ?thesis unfolding fields
    using authorized_plan_facts [OF plan(1)] unit no_correction [OF authorized_plan_facts(10) [OF plan(1)] unit(1)]
      \<open>pr_ID (ap_Plan k) = sa_PlanRevisionID inp\<close> by metis
qed

lemma sample_launched_new:
  assumes "st_Attempts (db_Control (sv_DB sample_launched_state)) = [a]"
  shows "a \<in> set (st_Attempts (db_Control (sv_DB sample_launched_state)))"
    "a_ID a \<notin> a_ID ` set (st_Attempts (db_Control (sv_DB sample_admitting)))"
  using assms by (simp_all add: sample_admitting_def sample_approved_db_def sample_db_def empty_db_def empty_store_def)

lemma admission_exact_witness:
  "\<exists>a plan v u. st_Attempts (db_Control (sv_DB sample_launched_state)) = [a] \<and>
     GetPlanRevision sample_approved_db ''o1'' (a_PlanRevisionID a) = Some plan \<and> pr_Status plan = PlanApproved \<and>
     GetProof sample_approved_db ''o1'' = Inr v \<and>
     nextRunnableWorkUnit plan (ListAttempts (db_Control sample_approved_db) ''o1'') v = Inr (Some u) \<and>
     a_WorkUnitID a = wu_ID u"
proof -
  obtain a where a: "st_Attempts (db_Control (sv_DB sample_launched_state)) = [a]" by (rule sample_launched_attempt)
  show ?thesis
    using admission_exact [OF sample_launched_reachable(1) sample_launched_step sample_launched_new [OF a]] a
    by (auto simp: sample_admitting_def)
qed

text \<open>C3: A start command that added an attempt leaves it in one of three states: running, with a bound
  session, under custody; queued, under custody, with an error returned; or failed, its custody
  released, with an error returned.\<close>

theorem start_settles:
  assumes "service_reachable sha (sv_DB s)" "StartAttempt w p oid inp s = (r, s')"
    "a \<in> set (st_Attempts (db_Control (sv_DB s')))"
    "a_ID a \<notin> a_ID ` set (st_Attempts (db_Control (sv_DB s)))"
  shows "a_Status a = AttemptRunning \<and> holds_custody (sv_DB s') (a_ID a) \<and>
      (\<exists>ref\<in>set (st_Sessions (db_Control (sv_DB s'))). sr_AttemptID ref = a_ID a) \<or>
    a_Status a = AttemptQueued \<and> holds_custody (sv_DB s') (a_ID a) \<and> (\<exists>e. r = Inl e) \<or>
    a_Status a = AttemptFailed \<and> \<not> holds_custody (sv_DB s') (a_ID a) \<and> (\<exists>e. r = Inl e)"
proof -
  obtain k now aid fid a0 c t where
      created: "CreateAttemptWithFence (control_view (sv_DB s)) aid fid (admission_of oid k (sa_RequestKey inp) now) = Inr (a0, c)"
      and t: "sv_DB t = (sv_DB s)\<lparr>db_Control := c\<rparr>" "launch w p oid k now a0 t = (r, s')"
      and same: "lineage a = lineage a0"
    using assms by (rule start_created)
  have "standing AttemptQueued True oid (a_ID a0) (sv_DB t)"
    using created_standing [OF created] t(1) by (simp add: admission_of_def)
  then have settled: "launch_settled oid (a_ID a) r (sv_DB s')"
    using tripleD [OF settled_launch _ t(2)] lineage_same(1) [OF same] by simp
  have "a \<in> set (attempt_rows (sv_DB s') (a_ID a))" using assms(3) by (simp add: attempt_rows_def)
  then have "standing st held oid (a_ID a) (sv_DB s') \<Longrightarrow> a_Status a = st \<and> holds_custody (sv_DB s') (a_ID a) = held" for st held
    by (auto simp: standing_def)
  then show ?thesis using settled by (auto simp: launch_settled_def bound_session_def isl_def)
qed

lemma start_settles_witness:
  "\<exists>a. st_Attempts (db_Control (sv_DB sample_launched_state)) = [a] \<and>
     holds_custody (sv_DB sample_launched_state) (a_ID a) \<and>
     isl (fst (StartAttempt (sample_world False) sample_provider ''o1'' sample_start sample_admitting))"
proof -
  obtain a where a: "st_Attempts (db_Control (sv_DB sample_launched_state)) = [a]" "a_Status a = AttemptQueued"
    by (rule sample_launched_attempt)
  show ?thesis
    using start_settles [OF sample_launched_reachable(1) sample_launched_step sample_launched_new [OF a(1)]] a by auto
qed

end
