(* ===== verification/Row_Types.thy ===== *)
theory Row_Types
  imports Service_System
begin

text \<open>
  Type soundness of the database: every stored row passes the validator of its kind, whatever
  transactions committed it and whichever of them changed it since.
\<close>

section \<open>Control rows\<close>

text \<open>A classification records its observation without the domain validator, under the constraints
  of the table alone.\<close>

definition observation_typed :: "observation \<Rightarrow> bool" where
  "observation_typed x \<longleftrightarrow> \<not> blank (ob_Kind x) \<and> json_valid (ob_Payload x)"

definition control_typed :: "(string \<Rightarrow> string) \<Rightarrow> control_store \<Rightarrow> bool" where
  "control_typed sha s \<longleftrightarrow>
     (\<forall>a\<in>set (st_Attempts s). Attempt_Validate (lineage a) = None) \<and>
     (\<forall>r\<in>set (st_Sessions s). AttemptSessionRef_Validate r = None) \<and>
     (\<forall>x\<in>set (st_Observations s). observation_typed x) \<and>
     (\<forall>r\<in>set (st_Recoveries s). AttemptRecoveryReceipt_Validate r = None) \<and>
     (\<forall>r\<in>set (st_Receipts s). AttemptReceipt_Validate sha r = None)"

lemma lineage_status [simp]: "lineage (a\<lparr>a_Status := n, a_UpdatedAt := at\<rparr>) = lineage a"
  by (simp add: lineage_def)

lemma validate_lineage:
  "Attempt_Validate a = None \<longleftrightarrow> Attempt_Validate (lineage a) = None \<and> AttemptStatus_Valid (a_Status a)"
  by (auto simp: Attempt_Validate_def guards lineage_def)

lemma typed_cong:
  "st_Attempts s' = st_Attempts s \<Longrightarrow> st_Sessions s' = st_Sessions s \<Longrightarrow> st_Observations s' = st_Observations s \<Longrightarrow>
   st_Recoveries s' = st_Recoveries s \<Longrightarrow> st_Receipts s' = st_Receipts s \<Longrightarrow> control_typed sha s' = control_typed sha s"
  by (simp add: control_typed_def)

lemma typed_update:
  "update_status s oid aid e n at = Inr (k, s') \<Longrightarrow> control_typed sha s \<Longrightarrow> control_typed sha s'"
  by (auto simp: update_status_def Let_def control_typed_def split: if_splits)

lemma typed_release: "release_fences s aid reason at = Inr (k, s') \<Longrightarrow> control_typed sha s \<Longrightarrow> control_typed sha s'"
  by (auto simp: release_fences_def Let_def control_typed_def split: if_splits)

lemma observation_typed_new:
  "AttemptObservation_Validate (new_observation s obs aid kind text at) = None \<Longrightarrow>
     observation_typed (new_observation s obs aid kind text at)"
  by (auto simp: AttemptObservation_Validate_def new_observation_def observation_typed_def guards split: if_splits)

lemma typed_insert:
  "insert_observation s x = Inr (u, s') \<Longrightarrow> observation_typed x \<Longrightarrow> control_typed sha s \<Longrightarrow> control_typed sha s'"
  by (auto simp: insert_observation_def control_typed_def split: if_splits)

lemma typed_observed:
  assumes "append_validated s (new_observation t obs aid kind text at) = Inr (x, s')" "control_typed sha s"
  shows "control_typed sha s'"
proof -
  have "AttemptObservation_Validate (new_observation t obs aid kind text at) = None"
    and "insert_observation s (new_observation t obs aid kind text at) = Inr ((), s')"
    using assms(1) by (auto simp: append_validated_def and_then_Inr split: option.splits)
  then show ?thesis using typed_insert observation_typed_new assms(2) by blast
qed

lemma receipt_frozen [simp]: "AttemptReceipt_Validate sha (r\<lparr>rp_FrozenAt := f\<rparr>) = AttemptReceipt_Validate sha r"
  by (simp add: AttemptReceipt_Validate_def)

lemma typed_freeze: "control_typed sha s \<Longrightarrow> control_typed sha (freeze_rows s aid at)"
  by (auto simp: freeze_rows_def control_typed_def)

lemma typed_create:
  assumes "CreateAttemptWithFence s aid fid d = Inr (a, s')" "control_typed sha s"
  shows "control_typed sha s'"
proof -
  obtain g s1 where ok: "Attempt_Validate (admitted_attempt s aid d g) = None"
      and ins: "insert_attempt s (admitted_attempt s aid d g) = Inr ((), s1)"
      and fence: "issue_fence s1 (issued_fence fid (ad_FenceSubject d) aid (ad_At d)) (ad_OutcomeID d) = Inr ((), s')"
    using assms(1) by (auto simp: CreateAttemptWithFence_def and_then_Inr Let_def split: option.splits)
  have "Attempt_Validate (lineage (admitted_attempt s aid d g)) = None" using ok validate_lineage by blast
  then have "control_typed sha s1"
    using ins assms(2) by (auto simp: insert_attempt_def control_typed_def split: option.splits if_splits)
  then show ?thesis using fence by (auto simp: issue_fence_def control_typed_def split: option.splits if_splits)
qed

lemma typed_classify:
  assumes "ClassifyAttemptSucceeded s obs c = Inr (u, s')" "control_typed sha s"
  shows "control_typed sha s'"
  using assms(1)
proof (cases rule: classify_cases)
  case (written a r k s1 s3 k')
  let ?s2 = "freeze_rows s1 (cl_AttemptID c) (cl_At c)"
  let ?x = "new_observation ?s2 obs (cl_AttemptID c) (cl_ObservationKind c) (cl_ObservationPayload c) (cl_At c)"
  have "observation_typed ?x"
    using assms(1) written(1-5) unfolding ClassifyAttemptSucceeded_def observation_typed_def
    by (auto simp: and_then_Inr Let_def split: if_splits)
  moreover have "control_typed sha ?s2" using typed_freeze typed_update [OF written(4) assms(2)] .
  ultimately have "control_typed sha s3" using typed_insert [OF written(6)] by blast
  then show ?thesis using typed_release [OF written(7)] by blast
qed (use assms(2) in simp)

lemma control_typed_step: "store_step sha s s' \<Longrightarrow> control_typed sha s \<Longrightarrow> control_typed sha s'"
proof (induction rule: store_step.induct)
  case (create s aid fid d a s')
  then show ?case by (rule typed_create)
next
  case (transition s oid aid e n at k s')
  then show ?case using typed_update by (simp add: TransitionAttemptStatus_def)
next
  case (bind s fresh now r r' s')
  then show ?case
    using bind_session_effect [OF bind(1)] by (auto simp: control_typed_def)
next
  case (observe s obs aid kind payload at o' s')
  then show ?case using typed_observed by (simp add: AppendAttemptObservation_def)
next
  case (prelaunch s obs f o' s')
  then show ?case by (elim prelaunch_parts) (blast intro: typed_observed typed_update typed_release)
next
  case (terminate s obs t r' s')
  from terminate(1) show ?case
  proof (cases rule: terminate_parts)
    case (ended k s1 o' s2)
    have "control_typed sha s2" using typed_observed [OF ended(2) typed_update [OF ended(1) terminate(2)]] .
    then show ?thesis using ended(3) typed_release by blast
  qed (use terminate(2) in simp)
next
  case (release s aid reason at k s')
  then show ?case using typed_release by (auto simp: ReleaseFenceForAttempt_def split: if_splits)
next
  case (renew s aid at k s')
  then show ?case by (auto simp: RenewFenceForAttempt_def control_typed_def)
next
  case (recover s fresh r u s')
  then show ?case
    by (elim recovery_receipt_effect) (auto simp: control_typed_def)
next
  case (save s r u s')
  then show ?case
    using save_receipt_effect [OF save(1)] by (auto simp: control_typed_def)
next
  case (freeze s aid at u s')
  then show ?case using typed_freeze by (auto simp: FreezeAttemptReceipt_def split: option.splits if_splits)
next
  case (classify s obs c u s')
  then show ?case by (rule typed_classify)
qed (simp_all add: control_typed_def)

section \<open>Rows of outcomes, plans and proof\<close>

definition outcome_rows_typed :: "outcome_db \<Rightarrow> bool" where
  "outcome_rows_typed db \<longleftrightarrow>
     (\<forall>r\<in>set (db_Outcomes db). Outcome_Validate (outcome.truncate r) = None) \<and>
     (\<forall>c\<in>set (db_Contracts db). ContractRevision_Validate c = None) \<and>
     (\<forall>p\<in>set (db_Plans db). PlanRevision_Validate p = None) \<and>
     (\<forall>e\<in>set (db_Evidence db). EvidenceItem_Validate e = None) \<and>
     (\<forall>v\<in>set (db_Verifications db). VerificationRun_Validate v = None) \<and>
     (\<forall>d\<in>set (db_Decisions db). AcceptanceDecision_Validate d = None) \<and>
     (\<forall>c\<in>set (db_Corrections db). OutcomeCorrection_Validate c = None) \<and>
     (\<forall>d\<in>set (db_Decompositions db). decomposition_checks d = None) \<and>
     (\<forall>w\<in>set (db_Waivers db). ContributionDependencyWaiver_Validate w = None)"

lemma validate_stamped [simp]: "ContractRevision_Validate (c\<lparr>cr_CreatedAt := at\<rparr>) = ContractRevision_Validate c"
proof -
  have "criterion_check (c\<lparr>cr_CreatedAt := at\<rparr>) = criterion_check c" "expectation_check (c\<lparr>cr_CreatedAt := at\<rparr>) = expectation_check c"
    by (simp_all add: criterion_check_def expectation_check_def fun_eq_iff)
  then show ?thesis by (simp add: ContractRevision_Validate_def)
qed

lemma outcome_row_valid:
  "Outcome_Validate r = None \<Longrightarrow> Outcome_Validate (outcome.truncate (new_outcome_row now r key)) = None"
  by (auto simp: Outcome_Validate_def new_outcome_row_def outcome.defs guards)

lemma fold_max_nonneg [simp]: "0 \<le> foldr max xs (0 :: int)"
  by (induction xs) auto

lemma next_positive: "1 \<le> nextRevisionNumber db oid"
  by (simp add: nextRevisionNumber_def MaxContractRevisionNumber_def)

lemma typed_contract:
  assumes "insertContractRevision db now r = Inr (u, db')" "outcome_rows_typed db"
  shows "outcome_rows_typed db'"
proof -
  obtain q where "ContractRevision_Validate q = None" "db' = db\<lparr>db_Contracts := db_Contracts db @ [q\<lparr>cr_CreatedAt := now\<rparr>]\<rparr>"
    using assms(1) unfolding insertContractRevision_def Let_def by (simp split: option.splits if_split_asm)
  then show ?thesis using assms(2) by (auto simp: outcome_rows_typed_def)
qed

lemma typed_advance:
  "0 \<le> n \<Longrightarrow> outcome_rows_typed db \<Longrightarrow> outcome_rows_typed (snd (advance_current db oid e n at))"
  by (auto simp: advance_current_def Let_def outcome_rows_typed_def Outcome_Validate_def outcome.defs guards)

lemma typed_start:
  assumes "start_outcome db now r key first = Inr (u, db')" "Outcome_Validate r = None" "outcome_rows_typed db"
  shows "outcome_rows_typed db'"
proof -
  let ?db1 = "db\<lparr>db_Outcomes := db_Outcomes db @ [new_outcome_row now r key]\<rparr>"
  let ?n = "nextRevisionNumber ?db1 (o_ID r)"
  obtain db2 where ins: "insertContractRevision ?db1 now (first\<lparr>cr_Number := ?n\<rparr>) = Inr ((), db2)"
      and db': "db' = snd (advance_current db2 (o_ID r) 0 ?n (cr_CreatedAt first))"
    using assms(1) by (auto simp: start_outcome_def Let_def and_then_Inr case_prod_unfold split: if_split_asm)
  have "outcome_rows_typed ?db1" using assms(2,3) outcome_row_valid by (auto simp: outcome_rows_typed_def)
  then show ?thesis using typed_advance typed_contract [OF ins] next_positive [of ?db1 "o_ID r"] by (simp add: db')
qed

lemma typed_links: "insert_links db now ls = Inr (u, db') \<Longrightarrow> outcome_rows_typed db \<Longrightarrow> outcome_rows_typed db'"
  by (induction db now ls rule: insert_links.induct) (auto simp: outcome_rows_typed_def split: if_splits)

lemma typed_decision:
  "insert_decision db d = Inr (u, db') \<Longrightarrow> AcceptanceDecision_Validate d = None \<Longrightarrow> outcome_rows_typed db \<Longrightarrow>
   outcome_rows_typed db'"
  by (auto simp: insert_decision_def outcome_rows_typed_def split: if_splits)

lemma typed_decisions:
  "insert_decisions db ds = Inr (u, db') \<Longrightarrow> \<forall>d\<in>set ds. AcceptanceDecision_Validate d = None \<Longrightarrow>
   outcome_rows_typed db \<Longrightarrow> outcome_rows_typed db'"
  by (induction db ds rule: insert_decisions.induct) (auto simp: and_then_Inr intro: typed_decision)

text \<open>Binding a contribution to its outcome changes nothing that a decomposition is checked for.\<close>

lemma contribution_child [simp]:
  "ProposedContribution_Validate (c\<lparr>pc_ChildOutcomeID := x\<rparr>) = ProposedContribution_Validate c"
  by (simp add: ProposedContribution_Validate_def Let_def)

lemma decomposition_checks_None:
  "decomposition_checks d = None \<longleftrightarrow>
     \<not> blank (de_ID d) \<and> \<not> blank (de_OutcomeID d) \<and> 1 \<le> de_Number d \<and> \<not> blank (de_ContractRevisionID d) \<and>
     DecompositionStatus_Valid (de_Status d) \<and> \<not> blank (de_Rationale d) \<and> de_Contributors d \<noteq> [] \<and>
     (\<forall>c\<in>set (de_Contributors d). ProposedContribution_Validate c = None) \<and> distinct (map pc_Ref (de_Contributors d)) \<and>
     (\<forall>k\<in>set (de_RetainedCriteria d). \<not> blank k \<and> (\<forall>c\<in>set (de_Contributors d). k \<notin> set (pc_ClaimedCriteria c))) \<and>
     (\<forall>x\<in>set (de_Dependencies d). dependency_check (pc_Ref ` set (de_Contributors d)) x = None)"
  by (auto simp: decomposition_checks_def guards retained_check_def find_None_iff
      each_seen_fresh_elem [of contribution_check "\<lambda>c. ProposedContribution_Validate c = None" pc_Ref, OF contribution_check_None])

lemma checks_bound:
  assumes "\<And>c. \<exists>x. f c = c\<lparr>pc_ChildOutcomeID := x\<rparr>"
  shows "decomposition_checks (d\<lparr>de_Contributors := map f (de_Contributors d)\<rparr>) = None \<longleftrightarrow> decomposition_checks d = None"
proof -
  have f: "pc_Ref (f c) = pc_Ref c" "pc_ClaimedCriteria (f c) = pc_ClaimedCriteria c"
      "ProposedContribution_Validate (f c) = ProposedContribution_Validate c" for c
    using assms [of c] by (elim exE; simp)+
  have "pc_Ref \<circ> f = pc_Ref" by (simp add: fun_eq_iff f)
  then show ?thesis by (simp add: decomposition_checks_None f image_image)
qed

lemma typed_bind: "outcome_rows_typed db \<Longrightarrow> outcome_rows_typed (snd (bind_contribution db row child))"
proof -
  assume "outcome_rows_typed db"
  moreover have "decomposition_checks (d\<lparr>de_Contributors := map (\<lambda>c. if hit c then c\<lparr>pc_ChildOutcomeID := child\<rparr> else c)
      (de_Contributors d)\<rparr>) = None \<longleftrightarrow> decomposition_checks d = None" for hit d
  proof (rule checks_bound)
    show "\<exists>x. (if hit c then c\<lparr>pc_ChildOutcomeID := child\<rparr> else c) = c\<lparr>pc_ChildOutcomeID := x\<rparr>" for c
      by (cases "hit c") (auto intro: exI [of _ "pc_ChildOutcomeID c"])
  qed
  ultimately show ?thesis by (auto simp: bind_contribution_def Let_def outcome_rows_typed_def)
qed

lemma typed_authorize_each:
  "authorize_each db now did as = Inr (u, db') \<Longrightarrow> \<forall>a\<in>set as. Outcome_Validate (au_Outcome a) = None \<Longrightarrow>
   outcome_rows_typed db \<Longrightarrow> outcome_rows_typed db'"
proof (induction as arbitrary: db)
  case (Cons a rest)
  obtain db1 db2 where
      start: "start_outcome db now (au_Outcome a) None (au_First a) = Inr ((), db1)" and
      links: "insert_links db1 now (au_Links a) = Inr ((), db2)" and
      more: "authorize_each (snd (bind_contribution db2 (contributionRowID did (au_Ref a)) (o_ID (au_Outcome a))))
        now did rest = Inr (u, db')"
    using Cons.prems(1) by (auto simp: and_then_Inr case_prod_unfold split: if_split_asm)
  have "outcome_rows_typed db1" using typed_start [OF start] Cons.prems(2,3) by simp
  then show ?case using Cons.IH [OF more] Cons.prems(2) typed_links [OF links] typed_bind by simp
qed simp

section \<open>Every step\<close>

lemma outcome_rows_step:
  assumes "db_step sha db db'" "outcome_rows_typed db"
  shows "outcome_rows_typed db'"
  using assms
proof (induction rule: db_step.induct)
  case (start db now r first key u db')
  then show ?case by (auto simp: CreateOutcomeWithContract_def intro: typed_start split: option.splits)
next
  case (contribute db now r first links key u db')
  then show ?case
    by (auto simp: CreateContributionWithContract_def and_then_Inr guards intro: typed_start typed_links split: option.splits)
next
  case (revise db now oid expected r n db')
  then obtain db1 where ins: "insertContractRevision db now (r\<lparr>cr_Number := nextRevisionNumber db oid\<rparr>) = Inr ((), db1)"
      and "db' = snd (advance_current db1 oid expected (nextRevisionNumber db oid) now)"
    by (auto simp: AppendContractRevision_def Let_def and_then_Inr case_prod_unfold split: if_split_asm)
  then show ?case using typed_advance typed_contract [OF ins revise(3)] next_positive [of db oid] by simp
next
  case (plan db linked oid p q db')
  then have "PlanRevision_Validate q = None" "db' = db\<lparr>db_Plans := db_Plans db @ [q]\<rparr>"
    by (auto simp: AppendPlanRevision_def Let_def split: if_splits option.splits)
  then show ?case using plan(2) by (auto simp: outcome_rows_typed_def)
next
  case (approve db oid pid r db')
  from approve(1) obtain f where f: "db' = db\<lparr>db_Plans := map f (db_Plans db)\<rparr>"
      "\<And>p. f p = p \<or> (pr_Status p = PlanProposed \<and> f p = p\<lparr>pr_Status := PlanApproved\<rparr>)" using approve_effect by blast
  have "PlanRevision_Validate (f p) = None" if "PlanRevision_Validate p = None" for p
    using f(2) [of p] that validate_approved by auto
  then show ?case using approve(2) by (auto simp: outcome_rows_typed_def f(1))
next
  case (evidence db e u db')
  then show ?case by (auto simp: CreateEvidenceItem_def outcome_rows_typed_def split: option.splits if_splits)
next
  case (verify db v u db')
  then show ?case by (auto simp: CreateVerificationRun_def outcome_rows_typed_def split: option.splits if_splits)
next
  case (decide db d c u db')
  then obtain db1 where "AcceptanceDecision_Validate d = None" "insert_decision db d = Inr ((), db1)"
      "c = None \<and> db' = db1 \<or> (\<exists>x. c = Some x \<and> OutcomeCorrection_Validate x = None \<and> insert_correction db1 x = Inr (u, db'))"
    by (auto simp: CreateAcceptanceDecision_def and_then_Inr guards correction_lineage_def split: option.splits)
  moreover have "outcome_rows_typed db1" using typed_decision calculation decide(2) by blast
  ultimately show ?case by (auto simp: insert_correction_def outcome_rows_typed_def split: if_splits)
next
  case (decide_batch db ds u db')
  have "\<forall>d\<in>set ds. AcceptanceDecision_Validate d = None" if "each_seen dc_OutcomeID (\<lambda>i seen d. first_error
             [AcceptanceDecision_Validate d,
              refuse (dc_OutcomeID d \<in> set seen)
                (Errorf ''acceptance batch decides outcome %s twice'' [Str (dc_OutcomeID d)])]) 0 [] ds = None"
    using that by (subst (asm) each_seen_fresh_elem [where g = "\<lambda>d. AcceptanceDecision_Validate d = None"]) (auto simp: guards)
  then show ?case
    using decide_batch typed_decisions by (auto simp: CreateAcceptanceDecisionBatch_def split: option.splits if_splits)
next
  case (decompose db x y db')
  let ?n = "foldr max (map de_Number (filter (\<lambda>d. de_OutcomeID d = de_OutcomeID x) (db_Decompositions db))) 0 + 1"
  let ?row = "x\<lparr>de_Number := ?n, de_Contributors := map (\<lambda>c. c\<lparr>pc_ChildOutcomeID := []\<rparr>) (de_Contributors x),
    de_AuthorizedAt := None\<rparr>"
  have new: "DecompositionRevision_Validate x = Some None" "db' = db\<lparr>db_Decompositions := db_Decompositions db @ [?row]\<rparr>"
    using decompose(1) by (auto simp: AppendDecompositionRevision_def Let_def split: if_splits option.splits)
  have "decomposition_checks x = None" using new(1) by (auto simp: DecompositionRevision_Validate_def split: option.splits)
  then have "decomposition_checks ?row = None" using fold_max_nonneg by (simp add: decomposition_checks_None image_image comp_def)
  then show ?case using decompose(2) by (auto simp: outcome_rows_typed_def new(2))
next
  case (authorize db now oid did cs at u db')
  let ?hit = "\<lambda>d. de_ID d = did \<and> de_OutcomeID d = oid \<and> de_Status d = DecompositionProposed"
  let ?db = "db\<lparr>db_Decompositions := map (\<lambda>d. if ?hit d
                   then d\<lparr>de_Status := DecompositionAuthorized, de_AuthorizedAt := Some at\<rparr> else d)
                 (db_Decompositions db)\<rparr>"
  have "authorize_each ?db now did cs = Inr (u, db')" "\<forall>a\<in>set cs. Outcome_Validate (au_Outcome a) = None"
    using authorize(1) by (auto simp: AuthorizeDecompositionRevision_def Let_def guards split: option.splits if_splits)
  moreover have "outcome_rows_typed ?db"
    using authorize(3) by (auto simp: outcome_rows_typed_def decomposition_checks_None)
  ultimately show ?case using typed_authorize_each by blast
next
  case (waive db w u db')
  then show ?case by (auto simp: AppendContributionDependencyWaiver_def outcome_rows_typed_def split: option.splits if_splits)
qed (simp_all add: outcome_rows_typed_def)

end
