(* ===== verification/Run_Offers.thy ===== *)
theory Run_Offers
  imports Row_Types
begin

text \<open>
  The Mission projection and the commands it offers: reading it changes nothing, what it says is
  explained, and a start that it offers is accepted and recorded.
\<close>

section \<open>Reading changes nothing\<close>

interpretation unchanged: service_law "\<lambda>a b. b = a"
  by unfold_locales auto

lemma state_reads_only: "GetRunState w decode oid s = (r, s') \<Longrightarrow> sv_DB s' = sv_DB s"
  using unchanged.keepsD [OF unchanged.keeps_GetRunState] .

lemma view_reads_only: "AttemptView w oid aid s = (r, s') \<Longrightarrow> sv_DB s' = sv_DB s"
  using unchanged.keepsD [OF unchanged.keeps_view] .

section \<open>Where a Mission stands\<close>

lemma replacement_reads_only: "replacementRequired w oid m t = (x, t') \<Longrightarrow> sv_DB t' = sv_DB t"
proof -
  have "unchanged.keeps (replacementRequired w oid m)"
    unfolding replacementRequired_def by (auto intro!: unchanged.keeps_try unchanged.keeps_replacement split: option.split)
  then show "replacementRequired w oid m t = (x, t') \<Longrightarrow> sv_DB t' = sv_DB t" by (rule unchanged.keepsD)
qed

lemma state_for:
  assumes "runStateFor w decode r project s = (Inr v, s')"
  obtains p observed required where "GetProof (sv_DB s) (o_ID r) = Inr p"
    "v = run_state_view_of decode (sv_DB s) r project observed
       ((mission_inputs_of w (sv_DB s) r p)\<lparr>mi_ReplacementRequired := required\<rparr>)"
proof -
  obtain at t where c: "clock w s = (at, t)" and r1: "try_do (reading (\<lambda>db. GetProof db (o_ID r))) (\<lambda>v.
     next_do (reading (\<lambda>db. mission_inputs_of w db r v)) (\<lambda>m.
     try_do (replacementRequired w (o_ID r) m) (\<lambda>required.
     reading (\<lambda>db. Inr (run_state_view_of decode db r project at (m\<lparr>mi_ReplacementRequired := required\<rparr>)))))) t = (Inr v, s')"
    using assms unfolding runStateFor_def by (rule next_do_split)
  have t: "sv_DB t = sv_DB s" using c by (auto simp: clock_def)
  obtain p where p: "GetProof (sv_DB s) (o_ID r) = Inr p" and r2: "next_do (reading (\<lambda>db. mission_inputs_of w db r p)) (\<lambda>m.
     try_do (replacementRequired w (o_ID r) m) (\<lambda>required.
     reading (\<lambda>db. Inr (run_state_view_of decode db r project at (m\<lparr>mi_ReplacementRequired := required\<rparr>))))) t = (Inr v, s')"
    using r1 by (rule try_do_split) (simp_all add: t)
  have r3: "try_do (replacementRequired w (o_ID r) (mission_inputs_of w (sv_DB s) r p)) (\<lambda>required.
     reading (\<lambda>db. Inr (run_state_view_of decode db r project at
       ((mission_inputs_of w (sv_DB s) r p)\<lparr>mi_ReplacementRequired := required\<rparr>)))) t = (Inr v, s')"
    using r2 by (rule next_do_split) (simp add: t)
  from r3 show thesis
  proof (rule try_do_split)
    fix required t' assume "replacementRequired w (o_ID r) (mission_inputs_of w (sv_DB s) r p) t = (Inr required, t')"
      and "reading (\<lambda>db. Inr (run_state_view_of decode db r project at
       ((mission_inputs_of w (sv_DB s) r p)\<lparr>mi_ReplacementRequired := required\<rparr>))) t' = (Inr v, s')"
    then show thesis using that [OF p] t by (auto dest!: replacement_reads_only)
  qed simp
qed

lemma state_view:
  assumes "GetRunState w decode oid s = (Inr v, s')"
  obtains r p project observed required where
    "GetOutcome (sv_DB s) oid = Some r" "GetProof (sv_DB s) (o_ID r) = Inr p"
    "v = run_state_view_of decode (sv_DB s) r project observed
       ((mission_inputs_of w (sv_DB s) r p)\<lparr>mi_ReplacementRequired := required\<rparr>)"
proof -
  obtain r project where "outcome_or_missing (sv_DB s) oid = Inr r" and "runStateFor w decode r project s = (Inr v, s')"
    using assms unfolding GetRunState_def by (auto elim!: try_do_split next_do_split)
  then show thesis using that by (auto simp: outcome_or_missing_def elim: state_for split: option.splits)
qed

text \<open>The reason is there exactly when the owner is needed, and so is the blocker.\<close>

lemmas reason_names = ReasonNoPlan_def ReasonPlanAlreadyProposed_def ReasonPlanNotProposed_def ReasonPlanNotApproved_def
  ReasonPlanAlreadyApproved_def ReasonPlanStale_def ReasonAttemptActive_def ReasonAttemptPaused_def ReasonNoActiveRun_def
  ReasonNothingRunnable_def ReasonStartRequired_def ReasonProofIncomplete_def ReasonReworkRequired_def
  ReasonAlreadyAccepted_def ReasonContributionBlocked_def ReasonAttemptReplacementRequired_def
  ReasonRunIntentUnavailable_def ReasonDeliveryUnavailable_def ReasonRunAlreadyAuthorized_def ReasonRunPaused_def
  ReasonRunIntentPlanSuperseded_def ReasonPlanRevisionRequired_def ReasonContractRevisionRequired_def

definition explained :: "mission_state \<times> string \<times> run_blocker option \<Rightarrow> bool" where
  "explained = (\<lambda>(st, reason, blocker). (reason \<noteq> [] \<longleftrightarrow> st = MissionNeedsYou) \<and>
     (blocker \<noteq> None \<longleftrightarrow> st = MissionNeedsYou) \<and> (\<forall>b. blocker = Some b \<longrightarrow> rb_Code b = reason))"

lemma explained_simps [simp]:
  "explained (needs_you code text detail) \<longleftrightarrow> code \<noteq> []"
  "explained (plain_state st) \<longleftrightarrow> st \<noteq> MissionNeedsYou"
  by (simp_all add: explained_def needs_you_def plain_state_def)

lemma explained_parts:
  assumes coded: "\<And>i f. mi_Intent m = Some i \<Longrightarrow> ri_AdmissionFailure i = Some f \<Longrightarrow> rf_Code f \<noteq> []"
  shows "explained (after_execution decode m)"
proof -
  have first: "explained (not_authorized m)"
    by (simp add: not_authorized_def reason_names split: option.split)
  then have "explained (awaiting_work decode m)"
    using coded by (simp add: awaiting_work_def admission_blocked_def reason_names split: option.split)
  then show ?thesis by (simp add: after_execution_def reason_names split: proof_status.split)
qed

lemma mission_reason:
  assumes "\<And>i f. mi_Intent m = Some i \<Longrightarrow> ri_AdmissionFailure i = Some f \<Longrightarrow> rf_Code f \<noteq> []"
  shows "explained (deriveMissionState decode m)"
  using explained_parts [of m decode, OF assms] by (simp add: deriveMissionState_def reason_names split: option.split)

definition reasoned :: "action_eligibility \<Rightarrow> bool" where
  "reasoned el \<longleftrightarrow> (el_Available el \<longleftrightarrow> el_Reason el = [])"

lemma reasoned_allow: "r \<noteq> [] \<Longrightarrow> reasoned (allow a ok r)"
  by (simp add: reasoned_def allow_def)

lemma reasoned_offers: "reasoned (start_offer m)" "reasoned (pause_offer m)" "reasoned (resume_offer m)" "reasoned (cancel_offer m)"
  unfolding start_offer_def pause_offer_def resume_offer_def cancel_offer_def Let_def
  by (simp_all add: reasoned_allow reason_names split: option.split)

lemma offer_reasons: "el \<in> set (deriveEligibleActions n m) \<Longrightarrow> reasoned el"
  unfolding deriveEligibleActions_def Let_def by (auto simp: reasoned_offers intro: reasoned_allow simp: reason_names)

lemma offer_actions [simp]:
  "el_Action (allow a ok r) = a" "el_Action (start_offer m) = RunActionStart" "el_Action (pause_offer m) = RunActionPause"
  "el_Action (resume_offer m) = RunActionResume" "el_Action (cancel_offer m) = RunActionCancel"
  by (simp_all add: start_offer_def pause_offer_def resume_offer_def cancel_offer_def allow_def Let_def)

lemma offers_in_order:
  "map el_Action (deriveEligibleActions n m) =
     [RunActionClarify, RunActionProposePlan, RunActionReviewPlan, RunActionApprovePlan, RunActionStart, RunActionPause,
      RunActionResume, RunActionCancel, RunActionReviewResult, RunActionRequestChanges, RunActionAccept, RunActionExport]"
  by (simp add: deriveEligibleActions_def Let_def)

section \<open>An offered start\<close>

text \<open>What the offer of a start says about the facts it was derived from.\<close>

lemma start_offered:
  assumes "el \<in> set (deriveEligibleActions n m)" "el_Action el = RunActionStart" "el_Available el"
  obtains p where "mi_Plan m = Some p" "pr_Status p = PlanApproved" "mi_PlanBinds m" "\<not> executing m" "\<not> attempt_paused m"
    "NextRunIntent (desiredRun m) CmdStart \<noteq> None" "correctionRequires m = None"
proof -
  have "el = start_offer m"
    using assms(1,2) unfolding deriveEligibleActions_def Let_def by auto
  then have "plan_approved m" "\<not> executing m" "\<not> attempt_paused m" "commandApplies m CmdStart" "correctionRequires m = None"
    using assms(3) by (auto simp: start_offer_def Let_def allow_def)
  then show thesis using that by (auto simp: plan_approved_def commandApplies_def split: option.splits)
qed

text \<open>No attempt of the outcome is queued or running when none is the active one.\<close>

lemma listed_distinct:
  assumes "custodial sha db" "a \<in> set (st_Attempts (db_Control db))" "b \<in> set (st_Attempts (db_Control db))" "a_ID a = a_ID b"
  shows "a = b"
  using custodial_ok [OF assms(1)] assms(2-4) distinct_map_unique [of a_ID "st_Attempts (db_Control db)" a b]
  by (simp add: store_ok_def lineage_ok_def)

lemma none_executing:
  assumes "custodial sha db" "mi_Active m = activeAttempt (ListAttempts (db_Control db) oid)" "\<not> executing m"
    and a: "a \<in> set (ListAttempts (db_Control db) oid)"
  shows "a_Status a \<noteq> AttemptRunning \<and> a_Status a \<noteq> AttemptQueued"
proof (rule ccontr)
  assume busy: "\<not> (a_Status a \<noteq> AttemptRunning \<and> a_Status a \<noteq> AttemptQueued)"
  then have live: "live (a_Status a)" by (auto simp: live_def)
  have "activeAttempt (ListAttempts (db_Control db) oid) \<noteq> None"
    using a live unfolding activeAttempt_def newest_active_None by (auto simp: active_live)
  then obtain b where b: "newest_active (\<lambda>_. True) None (ListAttempts (db_Control db) oid) = Some b"
    unfolding activeAttempt_def by blast
  from newest_active_Some [OF this] have "b \<in> set (ListAttempts (db_Control db) oid)" "live (a_Status b)"
    by (auto simp: active_live)
  then have "a = b" using one_live [OF assms(1)] listed_distinct [OF assms(1)] a live by (simp add: listed_attempts)
  then show False using assms(2,3) b busy by (simp add: executing_def activeAttempt_def)
qed

lemma accounted_idle:
  "\<forall>a\<in>set as. a_Status a \<noteq> AttemptRunning \<and> a_Status a \<noteq> AttemptQueued \<Longrightarrow> accounted w db as = Inr ()"
  by (induction as) auto

text \<open>The rows that the command trusts.\<close>

lemma service_typed: "service_reachable sha db \<Longrightarrow> outcome_rows_typed db \<and> control_typed sha (db_Control db)"
proof -
  assume "service_reachable sha db"
  then have "db_reachable sha db" by (rule service_db_reachable)
  then show ?thesis
  proof (induction rule: db_reachable.induct)
    case initial
    show ?case by (simp add: outcome_rows_typed_def control_typed_def empty_db_def empty_store_def)
  next
    case (committed db db')
    have rows: "outcome_rows_typed db'" using outcome_rows_step [OF committed(2)] committed(3) by blast
    have "control_typed sha (control_view db)" using committed(3) typed_cong [of "control_view db" "db_Control db"] by (simp add: control_view_def)
    moreover have "same_control db db' \<or> store_step sha (control_view db) (db_Control db')"
      using db_step_effect [OF committed(2) db_reachable_ok [OF committed(1)]] by blast
    ultimately show ?case using rows control_typed_step committed(3) by (auto simp: same_control_def)
  qed
qed

lemma found_outcome:
  assumes "service_reachable sha db" "GetOutcome db oid = Some r"
  shows "o_ID r = oid" "\<not> blank oid" "1 \<le> o_CurrentRevisionNumber r"
proof -
  obtain x where x: "x \<in> set (db_Outcomes db)" "r = outcome.truncate x" "o_ID x = oid"
    using assms(2) by (auto simp: GetOutcome_def outcome_row_by_id_def dest: find_SomeD split: if_splits)
  then show "o_ID r = oid" by (simp add: outcome.defs)
  have "Outcome_Validate r = None" using service_typed [OF assms(1)] x by (simp add: outcome_rows_typed_def)
  then show "\<not> blank oid" using x by (simp add: Outcome_Validate_def guards outcome.defs)
  have "outcome_ok db x" using db_reachable_ok [OF service_db_reachable [OF assms(1)]] x(1) by (simp add: outcomes_ok_def)
  from current_positive [OF this] show "1 \<le> o_CurrentRevisionNumber r" by (simp add: x(2) outcome.defs)
qed

lemma latest_plan_typed:
  assumes "service_reachable sha db" "GetLatestPlanRevision db oid = Some p"
  shows "\<not> blank (pr_ID p)" "pr_OutcomeID p = oid"
proof -
  have "p \<in> set (plans_of db oid)"
    using assms(2) unfolding GetLatestPlanRevision_def
    by (metis list.set_intros(1) list.simps(4,5) neq_Nil_conv option.inject option.simps(3) set_rev set_sort)
  then have p: "p \<in> set (db_Plans db)" "pr_OutcomeID p = oid" by (simp_all add: plans_of_def)
  then have "PlanRevision_Validate p = None" using service_typed [OF assms(1)] by (simp add: outcome_rows_typed_def)
  then show "\<not> blank (pr_ID p)" "pr_OutcomeID p = oid" using p(2) by (simp_all add: PlanRevision_Validate_def guards)
qed

section \<open>The readback\<close>

lemma get_outcome_control [simp]: "GetOutcome (db\<lparr>db_Control := c\<rparr>) oid = GetOutcome db oid"
  by (simp add: GetOutcome_def outcome_row_by_id_def)

lemma proof_control [simp]: "GetProof (db\<lparr>db_Control := c\<rparr>) oid = GetProof db oid"
proof -
  have "ListContractRevisions (db\<lparr>db_Control := c\<rparr>) = ListContractRevisions db"
    by (simp add: ListContractRevisions_def contracts_of_def fun_eq_iff)
  then have "Service_Get (db\<lparr>db_Control := c\<rparr>) oid = Service_Get db oid" by (simp add: Service_Get_def Let_def split: option.split)
  moreover have "child_accepted (db\<lparr>db_Control := c\<rparr>) = child_accepted db"
    by (simp add: child_accepted_def ListAcceptanceDecisions_def fun_eq_iff)
  then have "delegatedCriteria (db\<lparr>db_Control := c\<rparr>) = delegatedCriteria db"
    by (intro ext) (simp add: delegatedCriteria_def ListContributingOutcomes_def ListContributionLinksForParent_def Let_def)
  ultimately show ?thesis
    by (simp add: GetProof_def ListEvidenceItems_def ListVerificationRuns_def ListAcceptanceDecisions_def ListOutcomeCorrections_def)
qed

lemma latest_plan_control [simp]: "GetLatestPlanRevision (db\<lparr>db_Control := c\<rparr>) oid = GetLatestPlanRevision db oid"
  by (simp add: GetLatestPlanRevision_def plans_of_def)

lemma newest_number_mem: "newest_number a as \<in> set (a # as)"
  by (induction a as rule: newest_number.induct) auto

lemma entry_attempts_listed:
  assumes "schedule_of w db r = Some v"
  shows "set (entry_attempts v) \<subseteq> set (ListAttempts (db_Control db) (o_ID r))"
proof -
  obtain p proof_of blocks where
      "deriveSchedule p (ListAttempts (db_Control db) (o_ID r)) proof_of blocks = Inr v"
    using assms
    by (auto simp: schedule_of_def GetSchedule_def and_then_Inr passing_failure_Inr Let_def split: option.splits if_splits sum.splits)
  then obtain current proven active ordered where "current = attemptsForPlan p (ListAttempts (db_Control db) (o_ID r))"
      "sv_WorkUnits v = map (schedule_entry_of p current proof_of proven active blocks) ordered"
    by (auto simp: deriveSchedule_def and_then_Inr Let_def)
  moreover have "se_Attempts (schedule_entry_of p current proof_of proven active blocks u) = attemptsForWorkUnit (wu_ID u) current" for u
    by (simp add: schedule_entry_of_def Let_def split: prod.split)
  ultimately have own: "set (se_Attempts e) \<subseteq> set (ListAttempts (db_Control db) (o_ID r))" if "e \<in> set (sv_WorkUnits v)" for e
    using that by (auto simp: attemptsForWorkUnit_def attemptsForPlan_def)
  show ?thesis
  proof (cases "find (\<lambda>e. wu_ID (se_WorkUnit e) = sv_NextRunnableID v) (sv_WorkUnits v)")
    case (Some e)
    then show ?thesis using own [of e] by (simp add: entry_attempts_def find_SomeD)
  qed (simp add: entry_attempts_def)
qed

lemma replacement_untouched:
  assumes "mi_Schedule m = schedule_of w db r" "sv_DB s = db"
    and new: "\<And>i a. mi_Intent m = Some i \<Longrightarrow> a \<in> set (ListAttempts (db_Control db) (o_ID r)) \<Longrightarrow>
      a_RunIntentGeneration a \<noteq> ri_Generation i"
  shows "replacementRequired w (o_ID r) m s = (Inr False, s)"
proof -
  have "replacementAdmission w (o_ID r) i v s = (Inr (None, False), s)" if "mi_Schedule m = Some v" "mi_Intent m = Some i" for v i
  proof (cases "entry_attempts v")
    case (Cons a as)
    have "newest_number a as \<in> set (entry_attempts v)" using newest_number_mem [of a as] Cons by simp
    then have "a_RunIntentGeneration (newest_number a as) \<noteq> ri_Generation i"
      using entry_attempts_listed [of w db r v] assms(1) that new by auto
    then show ?thesis by (simp add: replacementAdmission_def Cons Let_def give_def)
  qed (simp add: replacementAdmission_def give_def)
  then show ?thesis by (auto simp: replacementRequired_def give_def try_do_def next_do_def split: option.split)
qed

lemma state_returns:
  assumes "GetOutcome (sv_DB s) oid = Some r" "o_ID r = oid" "GetProof (sv_DB s) oid = Inr p"
    and "\<And>i a. CurrentRunIntent (st_Intents (db_Control (sv_DB s))) oid = Some i \<Longrightarrow>
      a \<in> set (ListAttempts (db_Control (sv_DB s)) oid) \<Longrightarrow> a_RunIntentGeneration a \<noteq> ri_Generation i"
  obtains v s' where "GetRunState w decode oid s = (Inr v, s')"
proof -
  let ?m = "mission_inputs_of w (sv_DB s) r p" and ?t = "s\<lparr>sv_Draws := sv_Draws s + 1\<rparr>"
  have "replacementRequired w (o_ID r) ?m ?t = (Inr False, ?t)"
    using assms(4) by (intro replacement_untouched [of _ _ "sv_DB s"]) (simp_all add: mission_inputs_of_def Let_def assms(2))
  then have "\<exists>v. runStateFor w decode r project s = (Inr v, ?t)" for project
    using assms(2,3) by (simp add: runStateFor_def next_do_def try_do_def clock_def reading_def give_def)
  then show thesis using that assms(1)
    by (fastforce simp: GetRunState_def outcome_or_missing_def next_do_def try_do_def reading_def)
qed

section \<open>The command\<close>

lemma authorized_offer:
  assumes reach: "service_reachable sha db" and r: "GetOutcome db oid = Some r" and p: "GetProof db oid = Inr p"
    and plan: "GetLatestPlanRevision db oid = Some q" "pr_Status q = PlanApproved" "BindsCurrentContract q (o_CurrentRevisionNumber r)"
    and idle: "\<not> executing m" "mi_Active m = activeAttempt (ListAttempts (db_Control db) oid)"
    and standing: "correctionRequiringRevision p (Some q) = None"
    and inp: "rc_PlanRevisionID inp = pr_ID q" "rc_ExpectedContractRevision inp = o_CurrentRevisionNumber r"
  shows "authorized_run w db r inp = Inr (pr_ID q, o_CurrentRevisionNumber r)"
proof -
  note o = found_outcome [OF reach r]
  have "\<not> blank (pr_ID q)" using latest_plan_typed [OF reach plan(1)] by simp
  moreover have "approvedPlanForRun db r (rc_PlanRevisionID inp) = Inr q"
    using plan o(1) inp by (simp add: approvedPlanForRun_def)
  moreover have "refuseExecutionAgainstCorrection db (o_ID r) = Inr ()"
    using p o(1) plan(1) standing by (simp add: refuseExecutionAgainstCorrection_def require_def)
  moreover have "refuseUnknownSurvivingWork w db (o_ID r) = Inr ()"
    unfolding refuseUnknownSurvivingWork_def
    using none_executing [OF service_custodial [OF reach] idle(2,1)] o(1) by (intro accounted_idle) simp
  ultimately show ?thesis using o(3) inp plan(3) by (simp add: authorized_run_def require_def BindsCurrentContract_def)
qed

lemma start_runs: "NextRunIntent d CmdStart \<noteq> None \<Longrightarrow> NextRunIntent d CmdStart = Some RunRunning"
  by (cases d) (auto simp: NextRunIntent_def)

text \<open>The intent that an owner's start appends.\<close>

definition start_intent :: "world \<Rightarrow> ident \<Rightarrow> run_command_input \<Rightarrow> outcome_db \<Rightarrow> nat \<Rightarrow> run_intent" where
  "start_intent w oid inp db n = run_intent_of oid (wo_ID w n) RunRunning CmdStart (rc_PlanRevisionID inp)
     (rc_ExpectedContractRevision inp) (current_generation (st_Intents (db_Control db)) oid)
     (runCommandFingerprint (wo_Sha w) oid inp) (trim_space (rc_RequestKey inp)) (wo_Clock w (n + 1))"

lemma start_appends:
  assumes "wf_intents rows" "FindRunIntentByRequestKey rows (trim_space (rc_RequestKey inp)) = None"
    and "NextRunIntent (current_desired rows oid) CmdStart = Some RunRunning"
    and "\<forall>i\<in>set rows. ri_ID i \<noteq> ''ri-'' @ wo_ID w n" "wo_Clock w (n + 1) \<noteq> zero_time"
    and "\<not> blank oid" "\<not> blank (rc_PlanRevisionID inp)" "\<not> blank (rc_RequestKey inp)" "1 \<le> rc_ExpectedContractRevision inp"
    and "rows = st_Intents (db_Control db)"
  shows "AppendRunIntent rows (start_intent w oid inp db n) =
    Inr ((start_intent w oid inp db n)\<lparr>ri_Generation := current_generation rows oid + 1\<rparr>,
      rows @ [persisted ((start_intent w oid inp db n)\<lparr>ri_Generation := current_generation rows oid + 1\<rparr>)])"
proof -
  let ?n = "(start_intent w oid inp db n)\<lparr>ri_Generation := current_generation rows oid + 1\<rparr>"
  have "\<not> blank (trim_space (rc_RequestKey inp))" using assms(8) by (simp add: blank_iff)
  moreover have "\<not> blank (''ri-'' @ wo_ID w n)" using prefixed_not_blank [of "CHR ''r''"] by (simp add: plain_def)
  ultimately have "OutcomeRunIntent_Validate ?n = None"
    using assms current_generation_length [OF assms(1), of oid]
    by (simp add: OutcomeRunIntent_Validate_def start_intent_def run_intent_of_def guards RunIntentDesired_Valid_def)
  moreover have "ri_ID ?n \<notin> ri_ID ` set rows" using assms(4) by (auto simp: start_intent_def run_intent_of_def)
  moreover have "CurrentRunIntent rows oid = None \<Longrightarrow> current_generation rows oid = 0" by (simp add: current_generation_def)
  ultimately show ?thesis using assms(2,3,10)
    by (auto simp: AppendRunIntent_def Let_def start_intent_def run_intent_of_def)
qed

lemma start_recorded:
  assumes "outcome_or_missing (sv_DB s) oid = Inr r" "rc_Command inp = CmdStart" "\<not> blank (rc_RequestKey inp)"
    and "FindRunIntentByRequestKey (st_Intents (db_Control (sv_DB s))) (trim_space (rc_RequestKey inp)) = None"
    and "run_transition w (sv_DB s) r inp = Inr (RunRunning, rc_PlanRevisionID inp, rc_ExpectedContractRevision inp,
      current_generation (st_Intents (db_Control (sv_DB s))) oid)"
    and new: "AppendRunIntent (st_Intents (db_Control (sv_DB s))) (start_intent w oid inp (sv_DB s) (sv_Draws s)) = Inr (n, rows)"
    and running: "ri_Desired n = RunRunning"
  shows "CommandRun w d oid inp s = GetRunState w (cd_Detail d) oid
    (s\<lparr>sv_Draws := sv_Draws s + 2, sv_DB := (sv_DB s)\<lparr>db_Control := (control_view (sv_DB s))\<lparr>st_Intents := rows\<rparr>\<rparr>\<rparr>)"
proof -
  have stop: "applyStopIntent w oid n t = (Inr (), t)" for t using running by (simp add: applyStopIntent_def give_def)
  let ?s = "\<lambda>k. s\<lparr>sv_Draws := sv_Draws s + k\<rparr>"
  have "append_intent (run_intent_of oid (wo_ID w (sv_Draws s)) RunRunning (rc_Command inp) (rc_PlanRevisionID inp)
      (rc_ExpectedContractRevision inp) (current_generation (st_Intents (db_Control (sv_DB s))) oid)
      (runCommandFingerprint (wo_Sha w) oid inp) (trim_space (rc_RequestKey inp)) (wo_Clock w (sv_Draws s + 1))) (?s 2) =
    (Inr n, (?s 2)\<lparr>sv_DB := (sv_DB s)\<lparr>db_Control := (control_view (sv_DB s))\<lparr>st_Intents := rows\<rparr>\<rparr>\<rparr>)"
    using new assms(2) by (simp add: append_intent_def control_commit_def intents_def start_intent_def)
  then show ?thesis using assms(1-5) stop
    by (simp add: CommandRun_def find_intent_def record_command_def
        next_do_def try_do_def reading_def give_def clock_def fresh_def)
qed

lemma generation_bound:
  assumes "i \<in> set rows" "ri_OutcomeID i = oid"
  shows "ri_Generation i \<le> current_generation rows oid"
proof -
  obtain c where c: "CurrentRunIntent rows oid = Some c"
    using assms current_intent_None [of rows oid] by (cases "CurrentRunIntent rows oid") auto
  then show ?thesis using current_intent_max [OF c assms] by (simp add: current_generation_def)
qed

lemma attempts_not_ahead:
  assumes "store_ok c" "a \<in> set (st_Attempts c)"
  shows "a_RunIntentGeneration a \<le> current_generation (st_Intents c) (a_OutcomeID a)"
proof (cases "a_RunIntentGeneration a > 0")
  case True
  then obtain i where "i \<in> set (st_Intents c)" "ri_OutcomeID i = a_OutcomeID a" "ri_Generation i = a_RunIntentGeneration a"
    using assms by (auto simp: store_ok_def authorization_ok_def authorized_def)
  then show ?thesis using generation_bound by metis
next
  case False
  then show ?thesis using current_generation_length [of "st_Intents c"] assms(1) by (simp add: store_ok_def)
qed

text \<open>What the shown projection says of the database when it offers a start.\<close>

lemma offered_facts:
  assumes reach: "service_reachable sha db" and r: "GetOutcome db oid = Some r" and p: "GetProof db (o_ID r) = Inr p"
    and v: "v = run_state_view_of decode db r project observed ((mission_inputs_of w db r p)\<lparr>mi_ReplacementRequired := required\<rparr>)"
    and offer: "el \<in> set (rs_EligibleActions v)" "el_Action el = RunActionStart" "el_Available el"
  obtains q where "GetLatestPlanRevision db oid = Some q"
    "NextRunIntent (current_desired (st_Intents (db_Control db)) oid) CmdStart = Some RunRunning"
    "rh_PlanRevisionID (rs_Freshness v) = pr_ID q" "rh_ContractRevisionNumber (rs_Freshness v) = o_CurrentRevisionNumber r"
    "(case rs_Intent v of None \<Rightarrow> 0 | Some i \<Rightarrow> iv_Generation i) = current_generation (st_Intents (db_Control db)) oid"
    "\<And>inp. rc_PlanRevisionID inp = pr_ID q \<Longrightarrow> rc_ExpectedContractRevision inp = o_CurrentRevisionNumber r \<Longrightarrow>
       authorized_run w db r inp = Inr (pr_ID q, o_CurrentRevisionNumber r)"
proof -
  let ?m = "(mission_inputs_of w db r p)\<lparr>mi_ReplacementRequired := required\<rparr>"
  note o = found_outcome [OF reach r]
  have m: "mi_Plan ?m = GetLatestPlanRevision db oid" "mi_Active ?m = activeAttempt (ListAttempts (db_Control db) oid)"
      "mi_Intent ?m = CurrentRunIntent (st_Intents (db_Control db)) oid" "mi_Proof ?m = p"
    by (simp_all add: mission_inputs_of_def o(1) Let_def)
  have "\<exists>n. rs_EligibleActions v = deriveEligibleActions n ?m" unfolding v
    by (auto simp: run_state_view_of_def Let_def split: prod.split)
  then obtain n where el: "el \<in> set (deriveEligibleActions n ?m)" using offer(1) by auto
  obtain q where plan: "mi_Plan ?m = Some q" and approved: "pr_Status q = PlanApproved" and binds: "mi_PlanBinds ?m"
      and idle: "\<not> executing ?m" and "\<not> attempt_paused ?m" and applies: "NextRunIntent (desiredRun ?m) CmdStart \<noteq> None"
      and standing: "correctionRequires ?m = None" by (rule start_offered [OF el offer(2,3)])
  have q: "GetLatestPlanRevision db oid = Some q" using plan m(1) by simp
  have "BindsCurrentContract q (o_CurrentRevisionNumber r)"
    using binds q by (simp add: mission_inputs_of_def Let_def o(1))
  note auth = authorized_offer [OF reach r _ q approved this idle m(2)]
  show thesis
  proof (rule that [OF q])
    show "NextRunIntent (current_desired (st_Intents (db_Control db)) oid) CmdStart = Some RunRunning"
      using start_runs [OF applies] by (simp add: desiredRun_def current_desired_def m)
    show "rh_PlanRevisionID (rs_Freshness v) = pr_ID q" "rh_ContractRevisionNumber (rs_Freshness v) = o_CurrentRevisionNumber r"
      "(case rs_Intent v of None \<Rightarrow> 0 | Some i \<Rightarrow> iv_Generation i) = current_generation (st_Intents (db_Control db)) oid"
      unfolding v run_state_view_of_def Let_def intent_view_of_def m
      by (simp_all add: q current_generation_def split: prod.split option.split)
  qed (use p standing in \<open>intro auth; simp add: o(1) correctionRequires_def m q\<close>)
qed

end
