(* ===== verification/Run_History.thy ===== *)
theory Run_History
  imports Run_Offers
begin

text \<open>
  The history of run intents only grows: no command removes an authorization, renumbers it or
  changes what it authorizes. A repeated request therefore always finds what it recorded.
\<close>

section \<open>Rows\<close>

definition granted :: "run_intent \<Rightarrow> run_intent" where
  "granted i = i\<lparr>ri_AcknowledgedAt := None, ri_AdmissionFailure := None\<rparr>"

lemma granted_fields [simp]:
  "ri_ID (granted i) = ri_ID i" "ri_OutcomeID (granted i) = ri_OutcomeID i" "ri_Generation (granted i) = ri_Generation i"
  "ri_Desired (granted i) = ri_Desired i" "ri_RequestKey (granted i) = ri_RequestKey i"
  "ri_RequestFingerprint (granted i) = ri_RequestFingerprint i" "ri_PlanRevisionID (granted i) = ri_PlanRevisionID i"
  "ri_ContractRevisionNumber (granted i) = ri_ContractRevisionNumber i"
  by (simp_all add: granted_def)

definition intents_grow :: "intent_rows \<Rightarrow> intent_rows \<Rightarrow> bool" where
  "intents_grow rows rows' \<longleftrightarrow> (\<exists>new. map granted rows' = map granted rows @ new)"

lemma grow_refl [simp]: "intents_grow rows rows"
  by (simp add: intents_grow_def)

lemma grow_trans: "intents_grow a b \<Longrightarrow> intents_grow b c \<Longrightarrow> intents_grow a c"
  unfolding intents_grow_def by (metis append.assoc)

lemma grow_find:
  assumes "intents_grow rows rows'" "FindRunIntentByRequestKey rows key = Some i"
  obtains j where "FindRunIntentByRequestKey rows' key = Some j" "granted j = granted i"
proof -
  obtain new where new: "map granted rows' = map granted rows @ new" using assms(1) by (auto simp: intents_grow_def)
  have find: "map_option granted (FindRunIntentByRequestKey xs key) = FindRunIntentByRequestKey (map granted xs) key" for xs
    unfolding FindRunIntentByRequestKey_def by (induction xs) auto
  have "FindRunIntentByRequestKey (map granted rows) key = Some (granted i)" using find [of rows] assms(2) by simp
  then have "FindRunIntentByRequestKey (map granted rows') key = Some (granted i)"
    unfolding FindRunIntentByRequestKey_def new by (simp add: find_append)
  then show thesis using that find [of rows'] by auto
qed

lemma grow_append: "AppendRunIntent rows i = Inr (r, rows') \<Longrightarrow> intents_grow rows rows'"
  by (cases rule: append_cases [of rows i r rows']) (auto simp: intents_grow_def)

lemma grow_update:
  assumes "\<And>i. granted (f i) = granted i" shows "intents_grow rows (map f rows)"
  by (simp add: intents_grow_def assms comp_def)

lemma grow_acknowledge: "intents_grow rows (AcknowledgeRunIntent rows oid g at)"
  unfolding AcknowledgeRunIntent_def by (rule grow_update) (simp add: granted_def)

lemma grow_failure: "RecordRunAdmissionFailure rows oid g f = Inr (b, rows') \<Longrightarrow> intents_grow rows rows'"
  unfolding RecordRunAdmissionFailure_def Let_def
  by (auto intro!: grow_update simp: granted_def split: if_splits option.splits)

section \<open>Every command\<close>

lemma intents_stay:
  assumes "store_step sha s s'" "st_Intents s' \<noteq> st_Intents s"
  obtains (appended) i r where "AppendRunIntent (st_Intents s) i = Inr (r, st_Intents s')"
    | (acknowledged) oid g at where "st_Intents s' = AcknowledgeRunIntent (st_Intents s) oid g at"
    | (failed) oid g f b where "RecordRunAdmissionFailure (st_Intents s) oid g f = Inr (b, st_Intents s')"
  using assms
proof (cases rule: store_step.cases)
  case (create aid fid d a)
  then show ?thesis using assms(2)
    by (auto simp: CreateAttemptWithFence_def and_then_Inr Let_def insert_attempt_def issue_fence_def split: option.splits if_splits)
next
  case (transition oid aid e n at k)
  then show ?thesis using assms(2) intents_kept(1) by (auto simp: TransitionAttemptStatus_def)
next
  case (bind fresh now r r')
  then show ?thesis using assms(2) by (auto dest!: bind_session_effect(1))
next
  case (observe obs aid kind payload at o')
  then show ?thesis using assms(2) intents_kept(5) by auto
next
  case (prelaunch obs f o')
  then show ?thesis using assms(2) intents_kept(1-3) by (elim prelaunch_parts) metis
next
  case (terminate obs t r')
  from terminate(1) show ?thesis
    by (cases rule: terminate_parts) (use assms(2) intents_kept(1-3) in metis)+
next
  case (release aid reason at k)
  then show ?thesis using assms(2) intents_kept(2) by (auto simp: ReleaseFenceForAttempt_def split: if_splits)
next
  case (renew aid at k)
  then show ?thesis using assms(2) by (auto simp: RenewFenceForAttempt_def)
next
  case (recover fresh r u)
  then show ?thesis using assms(2) intents_kept(6) by auto
next
  case (save r u)
  then show ?thesis using assms(2) by (auto dest!: save_receipt_effect(1))
next
  case (freeze aid at u)
  then show ?thesis using assms(2) by (auto simp: FreezeAttemptReceipt_def freeze_rows_def split: option.splits if_splits)
next
  case (classify obs c u)
  from classify(1) show ?thesis
  proof (cases rule: classify_cases)
    case (written a r k s1 s3 k')
    have "st_Intents s' = st_Intents (freeze_rows s1 (cl_AttemptID c) (cl_At c))"
      using intents_kept(2) [OF written(7)] intents_kept(4) [OF written(6)] by simp
    then show ?thesis using assms(2) intents_kept(1) [OF written(4)] by (simp add: freeze_rows_def)
  qed (use assms(2) in simp)
qed (use assms(2) in simp_all)

definition history_grows :: "outcome_db \<Rightarrow> outcome_db \<Rightarrow> bool" where
  "history_grows db db' \<longleftrightarrow> intents_grow (st_Intents (db_Control db)) (st_Intents (db_Control db'))"

lemma intents_grow_step: "store_step sha s s' \<Longrightarrow> intents_grow (st_Intents s) (st_Intents s')"
proof (cases "st_Intents s' = st_Intents s")
  case False
  assume "store_step sha s s'"
  from intents_stay [OF this False] show ?thesis
    by cases (metis grow_append grow_acknowledge grow_failure)+
qed simp

interpretation history: control_law history_grows sha for sha
proof unfold_locales
  show "history_grows a c" if "history_grows a b" "history_grows b c" for a b c
    using grow_trans that unfolding history_grows_def by blast
  show "history_grows db (db\<lparr>db_Control := c\<rparr>)" if "store_step sha (control_view db) c" for sha db c
    using intents_grow_step [OF that] by (simp add: history_grows_def control_view_def)
qed (simp add: history_grows_def)

context control_law begin

lemma keeps_append: "keeps (append_intent i)"
  unfolding append_intent_def
  by (rule keeps_step) (auto simp: intents_def intro: store_step.intent split: sum.splits)

lemma keeps_failure: "keeps (record_failure i f)"
  unfolding record_failure_def
  by (intro keeps_passing keeps_step) (auto simp: intents_def intro: store_step.admission_failure split: sum.splits)

lemma keeps_acknowledge: "keeps (acknowledge w oid g)"
  unfolding acknowledge_def
  by (intro keeps_next keeps_clock keeps_passing keeps_step) (auto simp: intents_def intro: store_step.acknowledge)

lemma keeps_applyStop: "keeps (applyStopIntent w oid i)"
  unfolding applyStopIntent_def
  by (auto intro!: keeps_next keeps_acknowledge keeps_CancelAttempt split: option.split sum.split)

lemma keeps_record_command: "keeps (record_command w d oid inp x)"
  unfolding record_command_def
  by (auto intro!: keeps_next keeps_try keeps_append keeps_applyStop keeps_GetRunState split: prod.split sum.split)

lemma keeps_CommandRun: "keeps (CommandRun w d oid inp)"
  unfolding CommandRun_def replayed_command_def find_intent_def
  by (auto intro!: keeps_next keeps_try keeps_record_command keeps_GetRunState split: option.split)

lemma keeps_Halt: "keeps (HaltRunForCorrection w oid did)"
  unfolding HaltRunForCorrection_def find_intent_def append_halt_def halt_effect_def
  by (auto intro!: keeps_next keeps_append keeps_applyStop split: option.split sum.split store_error.split)

lemma keeps_collected: "(\<And>x. keeps (f x)) \<Longrightarrow> keeps (collected f xs)"
  by (induction xs) (auto intro!: keeps_next)

lemma keeps_Reconcile: "keeps (ReconcileRunIntents w)"
  unfolding ReconcileRunIntents_def listed_intents_def owed_stop_def
  by (auto intro!: keeps_next keeps_collected keeps_applyStop)

lemma keeps_recovered_failure: "keeps (recordRecoveredPrelaunchFailure d i uid v)"
  unfolding recordRecoveredPrelaunchFailure_def
  by (auto intro!: keeps_try keeps_failure split: sum.split option.split)

lemma keeps_continueOne: "keeps (continueOneRun w p d i)"
proof -
  have "keeps (record_refusal w d i uid key e code)" for uid key e code
    unfolding record_refusal_def Let_def
    by (auto intro!: keeps_next keeps_try keeps_failure keeps_view keeps_recovered_failure split: option.split)
  then show ?thesis unfolding continueOneRun_def runContinuationRequestKey_def Let_def
    by (auto intro!: keeps_next keeps_try keeps_replacement keeps_StartAttempt keeps_recovered_failure
        split: sum.split option.split)
qed

lemma keeps_Continue: "keeps (ContinueAuthorizedRuns w p d)"
  unfolding ContinueAuthorizedRuns_def listed_intents_def continue_authorized_def
  by (auto intro!: keeps_next keeps_collected keeps_continueOne)

lemmas keeps_commands = keeps_attempt_commands keeps_StartAttempt keeps_CommandRun keeps_Halt keeps_Reconcile keeps_Continue

end

lemma history_step: "service_step sha db db' \<Longrightarrow> history_grows db db'"
proof (induction rule: service_step.induct)
  case (outcomes db db')
  then show ?case by (simp add: same_control_def history_grows_def)
next
  case (save db p v c)
  then show ?case using history.control store_step.save by blast
next
  case (freeze db aid at v c)
  then show ?case using history.control store_step.freeze by blast
next
  case (classify db obs cl v c)
  then show ?case using history.control store_step.classify by blast
qed (blast intro: history.keeps_commands [THEN history.keepsD])+

lemma history_steps: "(service_step sha)\<^sup>*\<^sup>* db db' \<Longrightarrow> history_grows db db'"
  by (induction rule: rtranclp_induct) (auto intro: history.idle history.chain history_step)

section \<open>A repeated request\<close>

text \<open>A command that was accepted left its intent under its request key.\<close>

lemma find_append_None: "find P xs = None \<Longrightarrow> find P (xs @ ys) = find P ys"
  by (induction xs) (auto split: if_splits)

lemma append_leaves:
  assumes "AppendRunIntent rows i = Inr (r, rows')"
  obtains j where "FindRunIntentByRequestKey rows' (ri_RequestKey i) = Some j" "ri_OutcomeID j = ri_OutcomeID i"
    "ri_RequestFingerprint j = ri_RequestFingerprint i"
  using assms
proof (cases rule: append_cases)
  case fresh
  then have "FindRunIntentByRequestKey rows' (ri_RequestKey i) = Some (persisted r)"
    by (auto simp: FindRunIntentByRequestKey_def find_append_None persisted_def)
  then show ?thesis using that fresh(2) by (simp add: persisted_def)
qed (use that in auto)

definition remembers :: "world \<Rightarrow> ident \<Rightarrow> run_command_input \<Rightarrow> outcome_db \<Rightarrow> bool" where
  "remembers w oid inp db \<longleftrightarrow>
     (\<exists>i. FindRunIntentByRequestKey (st_Intents (db_Control db)) (trim_space (rc_RequestKey inp)) = Some i \<and>
        ri_OutcomeID i = oid \<and> ri_RequestFingerprint i = runCommandFingerprint (wo_Sha w) oid inp)"

lemma remembers_grows: "remembers w oid inp db \<Longrightarrow> history_grows db db' \<Longrightarrow> remembers w oid inp db'"
  unfolding remembers_def history_grows_def by (metis granted_fields(2,6) grow_find)

lemma recorded_remembered:
  assumes "record_command w d oid inp x s = (Inr v, s')"
  shows "remembers w oid inp (sv_DB s')"
proof -
  obtain desired pid n replaced where x: "x = (desired, pid, n, replaced)" by (cases x)
  obtain u at t i t' where i: "append_intent (run_intent_of oid u desired (rc_Command inp) pid n replaced
       (runCommandFingerprint (wo_Sha w) oid inp) (trim_space (rc_RequestKey inp)) at) t = (Inr i, t')"
      and rest: "try_do (applyStopIntent w oid i) (\<lambda>_. GetRunState w (cd_Detail d) oid) t' = (Inr v, s')"
    using assms unfolding record_command_def x by (auto elim!: next_do_split split: sum.splits)
  let ?new = "run_intent_of oid u desired (rc_Command inp) pid n replaced
       (runCommandFingerprint (wo_Sha w) oid inp) (trim_space (rc_RequestKey inp)) at"
  have "AppendRunIntent (st_Intents (db_Control (sv_DB t))) ?new = Inr (i, st_Intents (db_Control (sv_DB t')))"
    using i by (auto simp: append_intent_def control_commit_def intents_def control_view_def split: sum.splits)
  from append_leaves [OF this] have "remembers w oid inp (sv_DB t')"
    unfolding remembers_def run_intent_of_def by auto
  moreover have "history_grows (sv_DB t') (sv_DB s')"
    using history.keeps_try [OF history.keeps_applyStop history.keeps_GetRunState] rest by (rule history.keepsD)
  ultimately show ?thesis by (rule remembers_grows)
qed

lemma command_remembered:
  assumes "CommandRun w d oid inp s = (Inr v, s')"
  shows "remembers w oid inp (sv_DB s')"
proof -
  let ?key = "trim_space (rc_RequestKey inp)"
  obtain r where valid: "RunCommand_Valid (rc_Command inp)" "\<not> blank (rc_RequestKey inp)"
    and rest: "next_do (find_intent ?key) (\<lambda>existing.
        case existing of Some replay \<Rightarrow> replayed_command w d oid inp replay
        | None \<Rightarrow> try_do (reading (\<lambda>db. run_transition w db r inp)) (record_command w d oid inp)) s = (Inr v, s')"
    using assms unfolding CommandRun_def by (auto split: if_splits elim!: try_do_split)
  show ?thesis
  proof (cases "FindRunIntentByRequestKey (st_Intents (db_Control (sv_DB s))) ?key")
    case (Some i)
    have run: "replayed_command w d oid inp i s = (Inr v, s')"
      using rest by (auto simp: find_intent_def Some elim!: next_do_split)
    then have "sv_DB s' = sv_DB s" and "ri_OutcomeID i = oid" "ri_RequestFingerprint i = runCommandFingerprint (wo_Sha w) oid inp"
      by (auto simp: replayed_command_def state_reads_only split: if_splits)
    then show ?thesis using Some by (simp add: remembers_def)
  next
    case None
    obtain x where "record_command w d oid inp x s = (Inr v, s')"
      using rest by (auto simp: find_intent_def None elim!: next_do_split try_do_split)
    then show ?thesis by (rule recorded_remembered)
  qed
qed

end
