(* ===== verification/Run_Samples.thy ===== *)
theory Run_Samples
  imports Run_History Service_Samples
begin

text \<open>
  A sample Mission, evaluated step by step: the projection offers a start, the start is given, and
  the run is paused while nothing is live.
\<close>

definition sample_codec :: codec where
  "sample_codec = \<lparr>cd_Detail = (\<lambda>_. None), cd_Prelaunch = (\<lambda>_. Inl (Errorf [] [])), cd_Message = (\<lambda>_. ''refused''),
     cd_DetailJSON = (\<lambda>_. ''{}'')\<rparr>"

definition sample_mission :: "(api_error + run_state_view) \<times> service_state" where
  "sample_mission = GetRunState (sample_world False) (cd_Detail sample_codec) ''o1'' sample_admitting"

definition sample_offer :: action_eligibility where
  "sample_offer = \<lparr>el_Action = RunActionStart, el_Available = True, el_Reason = []\<rparr>"

lemma sample_evaluated:
  "case sample_mission of (Inl e, s) \<Rightarrow> False | (Inr v, s) \<Rightarrow> sample_offer \<in> set (rs_EligibleActions v) \<and>
     rh_PlanRevisionID (rs_Freshness v) = ''p1'' \<and> rh_ContractRevisionNumber (rs_Freshness v) = 1 \<and>
     rs_Intent v = None \<and> sv_Draws s = 1"
  by code_simp

lemma sample_no_intents: "st_Intents (db_Control (sv_DB sample_admitting)) = []"
  by (simp add: sample_admitting_def sample_control empty_db_def empty_store_def)

definition sample_run_start :: run_command_input where
  "sample_run_start = \<lparr>rc_Command = CmdStart, rc_PlanRevisionID = ''p1'', rc_ExpectedContractRevision = 1,
     rc_ExpectedGeneration = 0, rc_RequestKey = ''go''\<rparr>"

section \<open>The start and the pause\<close>

definition sample_run_pause :: run_command_input where
  "sample_run_pause = \<lparr>rc_Command = CmdPause, rc_PlanRevisionID = [], rc_ExpectedContractRevision = 0,
     rc_ExpectedGeneration = 1, rc_RequestKey = ''hold''\<rparr>"

definition sample_intent :: run_intent where
  "sample_intent = (start_intent (sample_world False) ''o1'' sample_run_start sample_approved_db 0)\<lparr>ri_Generation := 1\<rparr>"

definition sample_running :: service_state where
  "sample_running = \<lparr>sv_DB = sample_approved_db\<lparr>db_Control := (control_view sample_approved_db)\<lparr>st_Intents :=
     [persisted sample_intent]\<rparr>\<rparr>, sv_Draws = 2\<rparr>"

definition sample_paused :: "(api_error + run_state_view) \<times> service_state" where
  "sample_paused = CommandRun (sample_world False) sample_codec ''o1'' sample_run_pause sample_running"

lemma sample_start_allowed:
  "run_transition (sample_world False) sample_approved_db sample_row sample_run_start = Inr (RunRunning, ''p1'', 1, 0)"
  by code_simp

lemma sample_start_recorded:
  "AppendRunIntent [] (start_intent (sample_world False) ''o1'' sample_run_start sample_approved_db 0) =
     Inr (sample_intent, [persisted sample_intent])"
  by code_simp

lemma sample_started:
  "CommandRun (sample_world False) sample_codec ''o1'' sample_run_start sample_admitting =
     GetRunState (sample_world False) (cd_Detail sample_codec) ''o1'' sample_running"
proof -
  have inp: "rc_Command sample_run_start = CmdStart" "rc_PlanRevisionID sample_run_start = ''p1''"
      "rc_ExpectedContractRevision sample_run_start = 1" by (simp_all add: sample_run_start_def)
  have key: "\<not> blank (rc_RequestKey sample_run_start)" by code_simp
  have none: "st_Intents (db_Control sample_approved_db) = []" using sample_no_intents by (simp add: sample_admitting_def)
  note trans = sample_start_allowed and new = sample_start_recorded
  have running: "ri_Desired sample_intent = RunRunning" by (simp add: sample_intent_def start_intent_def run_intent_of_def)
  have zero: "current_generation [] ''o1'' = 0" by (simp add: current_generation_def CurrentRunIntent_def)
  show ?thesis
    by (subst start_recorded [where r = sample_row and n = sample_intent and rows = "[persisted sample_intent]"])
      (simp_all add: sample_admitting_def sample_authority none inp key trans new running zero
        FindRunIntentByRequestKey_def, simp add: sample_running_def numeral_2_eq_2)
qed

definition sample_pause_intent :: run_intent where
  "sample_pause_intent = run_intent_of ''o1'' ''iii'' RunPaused CmdPause ''p1'' 1 1 ''v'' ''hold'' 13"

lemma sample_pause_allowed:
  "run_transition (sample_world False) (sv_DB sample_running) sample_row sample_run_pause = Inr (RunPaused, ''p1'', 1, 1)"
  by code_simp

lemma sample_pause_facts:
  "outcome_or_missing (sv_DB sample_running) ''o1'' = Inr sample_row"
  "run_transition (sample_world False) (sv_DB sample_running) sample_row sample_run_pause = Inr (RunPaused, ''p1'', 1, 1)"
  "st_Intents (db_Control (sv_DB sample_running)) = [persisted sample_intent]"
  "ListAttempts (db_Control (sv_DB sample_running)) ''o1'' = []"
proof -
  have "outcome_or_missing (sv_DB sample_running) = outcome_or_missing sample_approved_db"
    by (simp add: fun_eq_iff sample_running_def outcome_or_missing_def GetOutcome_def outcome_row_by_id_def)
  then show "outcome_or_missing (sv_DB sample_running) ''o1'' = Inr sample_row" by (simp add: sample_authority(1))
  show "st_Intents (db_Control (sv_DB sample_running)) = [persisted sample_intent]"
    "ListAttempts (db_Control (sv_DB sample_running)) ''o1'' = []"
    by (simp_all add: sample_running_def control_view_def sample_control ListAttempts_def empty_db_def empty_store_def)
qed (rule sample_pause_allowed)

lemma sample_pause_recorded:
  "AppendRunIntent [persisted sample_intent] sample_pause_intent =
     Inr (sample_pause_intent\<lparr>ri_Generation := 2\<rparr>, [persisted sample_intent, persisted (sample_pause_intent\<lparr>ri_Generation := 2\<rparr>)])"
  by code_simp

lemma sample_pause_appended:
  "AppendRunIntent [persisted sample_intent] sample_pause_intent =
     Inr (sample_pause_intent\<lparr>ri_Generation := 2\<rparr>, [persisted sample_intent, persisted (sample_pause_intent\<lparr>ri_Generation := 2\<rparr>)])"
  "FindRunIntentByRequestKey [persisted sample_intent] (trim_space (rc_RequestKey sample_run_pause)) = None"
  "runCommandFingerprint (wo_Sha (sample_world False)) ''o1'' sample_run_pause = ''v''"
  "trim_space (rc_RequestKey sample_run_pause) = ''hold''" "\<not> blank (rc_RequestKey sample_run_pause)"
  by (rule sample_pause_recorded | code_simp)+

lemma sample_stopped:
  assumes "st_Attempts (db_Control (sv_DB s)) = []" "ri_Desired i = RunPaused"
  shows "applyStopIntent (sample_world False) ''o1'' i s = (Inr (), s\<lparr>sv_Draws := sv_Draws s + 1, sv_DB := (sv_DB s)\<lparr>db_Control :=
    (control_view (sv_DB s))\<lparr>st_Intents := AcknowledgeRunIntent (st_Intents (control_view (sv_DB s))) ''o1'' (ri_Generation i)
      (10 + int (sv_Draws s))\<rparr>\<rparr>\<rparr>)"
  using assms
  by (simp add: applyStopIntent_def activeAttemptUnderAuthorization_def ListAttempts_def acknowledge_def action_defs
      intents_def sample_world_def)

lemma sample_pause_given: "run_intent_of ''o1'' ''iii'' RunPaused (rc_Command sample_run_pause) ''p1'' 1 1 ''v'' ''hold'' 13 = sample_pause_intent"
  "RunCommand_Valid (rc_Command sample_run_pause)"
  by (simp_all add: sample_pause_intent_def sample_run_pause_def)

lemma sample_paused_intents:
  "st_Intents (db_Control (sv_DB (snd sample_paused))) =
     AcknowledgeRunIntent [persisted sample_intent, persisted (sample_pause_intent\<lparr>ri_Generation := 2\<rparr>)] ''o1'' 2 14"
proof -
  let ?rows = "[persisted sample_intent, persisted (sample_pause_intent\<lparr>ri_Generation := 2\<rparr>)]"
  let ?db = "(sv_DB sample_running)\<lparr>db_Control := (control_view (sv_DB sample_running))\<lparr>st_Intents := ?rows\<rparr>\<rparr>"
  let ?db' = "?db\<lparr>db_Control := (control_view ?db)\<lparr>st_Intents := AcknowledgeRunIntent ?rows ''o1'' 2 14\<rparr>\<rparr>"
  have draws: "sv_Draws sample_running = 2" by (simp add: sample_running_def)
  have drawn: "sample_running\<lparr>sv_Draws := 4\<rparr> = \<lparr>sv_DB = sv_DB sample_running, sv_Draws = 4\<rparr>"
    by (simp add: sample_running_def)
  have empty: "st_Attempts (db_Control (sv_DB sample_running)) = []"
    by (simp add: sample_running_def control_view_def sample_control empty_db_def empty_store_def)
  have ids: "wo_ID (sample_world False) 2 = ''iii''" "wo_Clock (sample_world False) 3 = 13" by code_simp+
  have new: "append_intent (run_intent_of ''o1'' ''iii'' RunPaused (rc_Command sample_run_pause) ''p1'' 1 1 ''v'' ''hold'' 13)
      \<lparr>sv_DB = sv_DB sample_running, sv_Draws = 4\<rparr> = (Inr (sample_pause_intent\<lparr>ri_Generation := 2\<rparr>), \<lparr>sv_DB = ?db, sv_Draws = 4\<rparr>)"
    by (simp add: append_intent_def control_commit_def intents_def sample_pause_given sample_pause_facts sample_pause_appended)
  have "applyStopIntent (sample_world False) ''o1'' (sample_pause_intent\<lparr>ri_Generation := 2\<rparr>) \<lparr>sv_DB = ?db, sv_Draws = 4\<rparr> =
      (Inr (), \<lparr>sv_DB = ?db', sv_Draws = 5\<rparr>)"
    by (subst sample_stopped) (simp_all add: empty control_view_def sample_pause_intent_def run_intent_of_def)
  then have "sample_paused = GetRunState (sample_world False) (cd_Detail sample_codec) ''o1'' \<lparr>sv_DB = ?db', sv_Draws = 5\<rparr>"
    unfolding sample_paused_def CommandRun_def record_command_def find_intent_def
    using new sample_pause_facts sample_pause_appended sample_pause_given
    by (simp add: action_defs draws drawn ids)
  then have "sv_DB (snd sample_paused) = ?db'" using state_reads_only by (metis prod.collapse service_state.select_convs(1))
  then show ?thesis by simp
qed

lemma sample_proof_reads: "\<not> isl (GetProof (sv_DB sample_running) ''o1'')"
  by code_simp

lemma sample_started_ok:
  obtains v t where "GetRunState (sample_world False) (cd_Detail sample_codec) ''o1'' sample_running = (Inr v, t)"
proof -
  have "\<not> isl (GetProof (sv_DB sample_running) ''o1'')" by (rule sample_proof_reads)
  then have proven: "GetProof (sv_DB sample_running) ''o1'' = Inr (projr (GetProof (sv_DB sample_running) ''o1''))" by (rule computed)
  have "GetOutcome (sv_DB sample_running) ''o1'' = Some sample_row"
    using sample_pause_facts(1) by (auto simp: outcome_or_missing_def split: option.splits)
  then show thesis
    by (rule state_returns [where r = sample_row and w = "sample_world False" and decode = "cd_Detail sample_codec"])
      (use proven sample_pause_facts(4) that in \<open>simp_all add: sample_row_def\<close>)
qed

lemma command_step: "service_step sha (sv_DB s) (sv_DB (snd (CommandRun w d oid c s)))"
  by (rule service_step.command [OF prod.collapse [symmetric]])

lemma sample_run_steps:
  "service_step sha (sv_DB sample_admitting) (sv_DB sample_running)"
  "service_step sha (sv_DB sample_running) (sv_DB (snd sample_paused))"
proof -
  have "sv_DB (snd (GetRunState (sample_world False) (cd_Detail sample_codec) ''o1'' sample_running)) = sv_DB sample_running"
    using state_reads_only by (metis prod.collapse)
  then show "service_step sha (sv_DB sample_admitting) (sv_DB sample_running)"
    using command_step [of sha sample_admitting "sample_world False" sample_codec "''o1''" sample_run_start]
    unfolding sample_started by simp
  show "service_step sha (sv_DB sample_running) (sv_DB (snd sample_paused))"
    unfolding sample_paused_def by (rule command_step)
qed

lemma sample_paused_reachable: "service_reachable sha (sv_DB (snd sample_paused))"
proof -
  have "service_reachable sha (sv_DB sample_admitting)" using sample_service_reachable by (simp add: sample_admitting_def)
  then show ?thesis using sample_run_steps by (blast intro: service_reachable.next_state)
qed

end
