(* ===== verification/Run_Properties.thy ===== *)
theory Run_Properties
  imports Run_Samples
begin

text \<open>
  The promises around run authorizations: what the projection offers is accepted, a stop that is
  acknowledged is true, a request acts once, and no attempt is silently retried.
\<close>

section \<open>An offer is kept\<close>

text \<open>C5: A start that the Mission projection offers is accepted: the command that names the plan, the
  contract revision and the run generation the owner was shown, under a fresh request key, returns
  the new Mission state, and the outcome's current run intent is then a running one of the next
  generation for exactly that plan and revision.\<close>

theorem offered_start_accepted:
  assumes reach: "service_reachable sha (sv_DB s)" and shown: "GetRunState w decode oid s = (Inr v, s1)"
    and offer: "el \<in> set (rs_EligibleActions v)" "el_Action el = RunActionStart" "el_Available el"
    and named: "rc_Command inp = CmdStart" "rc_PlanRevisionID inp = rh_PlanRevisionID (rs_Freshness v)"
      "rc_ExpectedContractRevision inp = rh_ContractRevisionNumber (rs_Freshness v)"
      "rc_ExpectedGeneration inp = (case rs_Intent v of None \<Rightarrow> 0 | Some i \<Rightarrow> iv_Generation i)"
    and fresh_key: "\<not> blank (rc_RequestKey inp)"
      "FindRunIntentByRequestKey (st_Intents (db_Control (sv_DB s))) (trim_space (rc_RequestKey inp)) = None"
    and fresh_row: "\<forall>i\<in>set (st_Intents (db_Control (sv_DB s))). ri_ID i \<noteq> ''ri-'' @ wo_ID w (sv_Draws s1)"
      "wo_Clock w (sv_Draws s1 + 1) \<noteq> zero_time"
  shows "\<exists>v' s2 i. CommandRun w d oid inp s1 = (Inr v', s2) \<and>
     CurrentRunIntent (st_Intents (db_Control (sv_DB s2))) oid = Some i \<and> ri_Desired i = RunRunning \<and>
     ri_PlanRevisionID i = rh_PlanRevisionID (rs_Freshness v) \<and>
     ri_ContractRevisionNumber i = rh_ContractRevisionNumber (rs_Freshness v) \<and>
     ri_Generation i = (case rs_Intent v of None \<Rightarrow> 0 | Some i \<Rightarrow> iv_Generation i) + 1"
proof -
  let ?db = "sv_DB s" let ?rows = "st_Intents (db_Control ?db)"
  have db: "sv_DB s1 = ?db" by (rule state_reads_only [OF shown])
  obtain r p project observed required where r: "GetOutcome ?db oid = Some r" and p: "GetProof ?db (o_ID r) = Inr p"
      and v: "v = run_state_view_of decode ?db r project observed ((mission_inputs_of w ?db r p)\<lparr>mi_ReplacementRequired := required\<rparr>)"
    by (rule state_view [OF shown])
  note o = found_outcome [OF reach r]
  obtain q where q: "GetLatestPlanRevision ?db oid = Some q"
      and applies: "NextRunIntent (current_desired ?rows oid) CmdStart = Some RunRunning"
      and fresh: "rh_PlanRevisionID (rs_Freshness v) = pr_ID q" "rh_ContractRevisionNumber (rs_Freshness v) = o_CurrentRevisionNumber r"
        "(case rs_Intent v of None \<Rightarrow> 0 | Some i \<Rightarrow> iv_Generation i) = current_generation ?rows oid"
      and auth: "authorized_run w ?db r inp = Inr (pr_ID q, o_CurrentRevisionNumber r)"
    by (rule offered_facts [OF reach r p v offer]) (use named in auto)
  have wf: "wf_intents ?rows" using custodial_ok [OF service_custodial [OF reach]] by (simp add: store_ok_def)
  have trans: "run_transition w ?db r inp = Inr (RunRunning, rc_PlanRevisionID inp, rc_ExpectedContractRevision inp,
      current_generation ?rows oid)"
    using auth applies named fresh o(1)
    by (auto simp: run_transition_def Let_def current_generation_def current_desired_def split: option.splits)
  let ?n = "(start_intent w oid inp ?db (sv_Draws s1))\<lparr>ri_Generation := current_generation ?rows oid + 1\<rparr>"
  have new: "AppendRunIntent ?rows (start_intent w oid inp ?db (sv_Draws s1)) = Inr (?n, ?rows @ [persisted ?n])"
    using fresh named(2,3) o latest_plan_typed [OF reach q] fresh_key fresh_row applies
    by (intro start_appends [OF wf]) simp_all
  let ?s2 = "s1\<lparr>sv_Draws := sv_Draws s1 + 2, sv_DB := ?db\<lparr>db_Control := (control_view ?db)\<lparr>st_Intents := ?rows @ [persisted ?n]\<rparr>\<rparr>\<rparr>"
  have run: "CommandRun w d oid inp s1 = GetRunState w (cd_Detail d) oid ?s2"
    using r trans new named(1) fresh_key db
    by (subst start_recorded [where r = r and n = ?n]) (simp_all add: outcome_or_missing_def start_intent_def run_intent_of_def)
  have oid: "ri_OutcomeID (start_intent w oid inp ?db (sv_Draws s1)) = oid"
      "ri_RequestKey (start_intent w oid inp ?db (sv_Draws s1)) = trim_space (rc_RequestKey inp)"
    by (simp_all add: start_intent_def run_intent_of_def)
  have current: "CurrentRunIntent (?rows @ [persisted ?n]) oid = Some (persisted ?n)"
    using append_current [OF wf new] fresh_key(2) by (simp add: oid)
  have ahead: "a_RunIntentGeneration a \<noteq> ri_Generation (persisted ?n)" if "a \<in> set (ListAttempts (db_Control ?db) oid)" for a
    using attempts_not_ahead [OF custodial_ok [OF service_custodial [OF reach]], of a] that by (simp add: listed_attempts)
  obtain v' s3 where "GetRunState w (cd_Detail d) oid ?s2 = (Inr v', s3)"
    by (rule state_returns [of ?s2 oid r p]) (use r o(1) p current ahead in \<open>auto simp: ListAttempts_def\<close>)
  moreover have "sv_DB s3 = sv_DB ?s2" using state_reads_only calculation by blast
  moreover have "ri_Desired ?n = RunRunning" "ri_PlanRevisionID ?n = rc_PlanRevisionID inp"
      "ri_ContractRevisionNumber ?n = rc_ExpectedContractRevision inp"
    by (simp_all add: start_intent_def run_intent_of_def)
  ultimately show ?thesis using run current named(2,3) fresh(3) by auto
qed



lemma offered_start_accepted_witness:
  "\<exists>v' s2 i. CommandRun (sample_world False) sample_codec ''o1'' sample_run_start (snd sample_mission) = (Inr v', s2) \<and>
     CurrentRunIntent (st_Intents (db_Control (sv_DB s2))) ''o1'' = Some i \<and> ri_Generation i = 1"
proof -
  let ?w = "sample_world False"
  obtain v s1 where m: "sample_mission = (Inr v, s1)" and offered: "sample_offer \<in> set (rs_EligibleActions v)"
      and v: "rh_PlanRevisionID (rs_Freshness v) = ''p1''" "rh_ContractRevisionNumber (rs_Freshness v) = 1"
        "rs_Intent v = None" "sv_Draws s1 = 1"
    using sample_evaluated by (auto split: prod.splits sum.splits)
  have reach: "service_reachable (wo_Sha ?w) (sv_DB sample_admitting)"
    using sample_service_reachable by (simp add: sample_admitting_def)
  have offer: "el_Action sample_offer = RunActionStart" "el_Available sample_offer" by (simp_all add: sample_offer_def)
  have inp: "rc_Command sample_run_start = CmdStart" "rc_PlanRevisionID sample_run_start = rh_PlanRevisionID (rs_Freshness v)"
      "rc_ExpectedContractRevision sample_run_start = rh_ContractRevisionNumber (rs_Freshness v)"
      "rc_ExpectedGeneration sample_run_start = (case rs_Intent v of None \<Rightarrow> 0 | Some i \<Rightarrow> iv_Generation i)"
    by (simp_all add: v sample_run_start_def)
  have key: "\<not> blank (rc_RequestKey sample_run_start)" by code_simp
  have fresh: "FindRunIntentByRequestKey (st_Intents (db_Control (sv_DB sample_admitting))) k = None"
      "\<forall>i\<in>set (st_Intents (db_Control (sv_DB sample_admitting))). ri_ID i \<noteq> ''ri-'' @ wo_ID ?w (sv_Draws s1)" for k
    by (simp_all add: sample_no_intents FindRunIntentByRequestKey_def)
  have clock: "wo_Clock ?w (sv_Draws s1 + 1) \<noteq> zero_time" by (simp add: v sample_world_def)
  from offered_start_accepted [OF reach m [unfolded sample_mission_def] offered offer inp key fresh clock, of sample_codec] v
  show ?thesis by (simp only: add_0 option.case m snd_conv) blast
qed

section \<open>A stop is true\<close>

text \<open>C4: A pause or a cancellation is acknowledged only when it is true, and stays true: in every
  state the service reaches, no live attempt of the outcome was admitted under the acknowledged
  stop's generation or an earlier one.\<close>

theorem stop_acknowledgement_truthful:
  assumes "service_reachable sha db" "i \<in> set (st_Intents (db_Control db))"
    and "ri_Desired i = RunPaused \<or> ri_Desired i = RunCancelled" "ri_AcknowledgedAt i \<noteq> None"
  shows "\<forall>a\<in>set (st_Attempts (db_Control db)). a_OutcomeID a = ri_OutcomeID i \<and> live (a_Status a) \<longrightarrow>
     a_RunIntentGeneration a > ri_Generation i"
proof -
  have "honoured (db_Control db)" using service_custodial [OF assms(1)] by (simp add: custodial_def)
  then show ?thesis using assms(2-4) by (simp add: honoured_def stop_done_def stopped_def)
qed

lemma stop_acknowledgement_truthful_witness:
  "\<exists>i\<in>set (st_Intents (db_Control (sv_DB (snd sample_paused)))). ri_Generation i = 2 \<and> ri_Desired i = RunPaused \<and>
     (\<forall>a\<in>set (st_Attempts (db_Control (sv_DB (snd sample_paused)))). a_OutcomeID a = ri_OutcomeID i \<and> live (a_Status a) \<longrightarrow>
       a_RunIntentGeneration a > 2)"
proof -
  let ?i = "(persisted (sample_pause_intent\<lparr>ri_Generation := 2\<rparr>))\<lparr>ri_AcknowledgedAt := Some 14\<rparr>"
  have i: "ri_Generation ?i = 2" "ri_Desired ?i = RunPaused" "ri_AcknowledgedAt ?i = Some 14" "ri_OutcomeID ?i = ''o1''"
    by (simp_all add: persisted_def sample_pause_intent_def run_intent_of_def)
  have mem: "?i \<in> set (st_Intents (db_Control (sv_DB (snd sample_paused))))"
    unfolding sample_paused_intents by (simp add: AcknowledgeRunIntent_def persisted_def sample_pause_intent_def run_intent_of_def)
  have stop: "ri_Desired ?i = RunPaused \<or> ri_Desired ?i = RunCancelled" "ri_AcknowledgedAt ?i \<noteq> None" by (simp_all only: i) simp_all
  have "\<forall>a\<in>set (st_Attempts (db_Control (sv_DB (snd sample_paused)))). a_OutcomeID a = ri_OutcomeID ?i \<and> live (a_Status a) \<longrightarrow>
      a_RunIntentGeneration a > ri_Generation ?i"
    by (rule stop_acknowledgement_truthful [OF sample_paused_reachable [of "\<lambda>x. x"] mem stop])
  then show ?thesis using mem i by (intro bexI [OF _ mem] conjI) (simp_all only: i)
qed

section \<open>A request acts once\<close>

text \<open>C6: A run command that was accepted acts once. Whatever the service did since, delivering the
  same request again is nothing but a reading of the Mission: it returns its current state and
  writes nothing, even when the clock, the identities and the providers answer differently.\<close>

theorem command_acts_once:
  assumes run: "CommandRun w d oid inp s = (Inr v, s1)" and since: "(service_step sha)\<^sup>*\<^sup>* (sv_DB s1) (sv_DB t)"
    and hash: "wo_Sha w' = wo_Sha w" "runCommandFingerprint (wo_Sha w) oid inp \<noteq> []"
  shows "CommandRun w' d' oid inp t = GetRunState w' (cd_Detail d') oid t \<and> sv_DB (snd (CommandRun w' d' oid inp t)) = sv_DB t"
proof -
  have "remembers w oid inp (sv_DB t)"
    using remembers_grows [OF command_remembered [OF run] history_steps [OF since]] .
  then obtain i where i: "FindRunIntentByRequestKey (st_Intents (db_Control (sv_DB t))) (trim_space (rc_RequestKey inp)) = Some i"
      "ri_OutcomeID i = oid" "ri_RequestFingerprint i = runCommandFingerprint (wo_Sha w') oid inp"
    using hash(1) by (auto simp: remembers_def runCommandFingerprint_def)
  have "runCommandFingerprint (wo_Sha w') oid inp \<noteq> []" using hash by (simp add: runCommandFingerprint_def)
  then have replay: "replayed_command w' d' oid inp i = GetRunState w' (cd_Detail d') oid"
    by (simp add: replayed_command_def i(2,3))
  have "RunCommand_Valid (rc_Command inp)" "\<not> blank (rc_RequestKey inp)"
    using run by (auto simp: CommandRun_def give_def split: if_splits)
  then have again: "CommandRun w' d' oid inp t = GetRunState w' (cd_Detail d') oid t"
    using replay i(1)
    by (simp add: CommandRun_def find_intent_def GetRunState_def try_do_def next_do_def reading_def split: sum.split)
  moreover have "sv_DB (snd (GetRunState w' (cd_Detail d') oid t)) = sv_DB t"
    using state_reads_only by (metis prod.collapse)
  ultimately show ?thesis by simp
qed

lemma command_acts_once_witness:
  "sv_DB (snd (CommandRun (sample_world True) sample_codec ''o1'' sample_run_start (snd sample_paused))) = sv_DB (snd sample_paused)"
proof -
  obtain v s1 where run: "CommandRun (sample_world False) sample_codec ''o1'' sample_run_start sample_admitting = (Inr v, s1)"
    using sample_started_ok unfolding sample_started by metis
  then have "sv_DB s1 = sv_DB sample_running" unfolding sample_started by (rule state_reads_only)
  then have since: "(service_step (\<lambda>x. x))\<^sup>*\<^sup>* (sv_DB s1) (sv_DB (snd sample_paused))"
    using sample_run_steps(2) by (simp add: r_into_rtranclp)
  have "wo_Sha (sample_world True) = wo_Sha (sample_world False)"
    "runCommandFingerprint (wo_Sha (sample_world False)) ''o1'' sample_run_start \<noteq> []"
    by (simp_all add: sample_world_def runCommandFingerprint_def)
  from command_acts_once [OF run since this, of sample_codec] show ?thesis by (rule conjunct2)
qed

text \<open>C8: The history of run authorizations is append-only. Whatever the service does, every recorded
  intent stays where it is, with its outcome, generation, plan, contract revision, request key and
  fingerprint; only its acknowledgement and its admission failure may be filled in.\<close>

theorem run_history_append_only:
  assumes "(service_step sha)\<^sup>*\<^sup>* db db'"
  shows "\<exists>new. map granted (st_Intents (db_Control db')) = map granted (st_Intents (db_Control db)) @ new"
  using history_steps [OF assms] by (simp add: history_grows_def intents_grow_def)

lemma run_history_append_only_witness:
  "\<exists>new. map granted (st_Intents (db_Control (sv_DB (snd sample_paused)))) =
     map granted (st_Intents (db_Control (sv_DB sample_running))) @ new"
  by (rule run_history_append_only [of "\<lambda>x. x", OF r_into_rtranclp]) (rule sample_run_steps(2))

section \<open>No silent retry\<close>

lemma key_withheld:
  assumes "entry_attempts v = a # as" "a_RunIntentGeneration (newest_number a as) = ri_Generation i"
    and "\<forall>x\<in>set (st_Observations (db_Control (sv_DB s))). ob_AttemptID x = a_ID (newest_number a as) \<longrightarrow>
      \<not> systemOwnedPrelaunchObservationKind (ob_Kind x)"
    and "\<forall>r\<in>set (st_Recoveries (db_Control (sv_DB s))). rv_AttemptID r = a_ID (newest_number a as) \<longrightarrow> rv_Resolution r \<noteq> RecoveryReplacement"
  shows "\<exists>t. runContinuationRequestKey w i v s = (Inr None, t) \<or> (\<exists>e. runContinuationRequestKey w i v s = (Inl e, t))"
proof -
  let ?n = "newest_number a as"
  obtain y t where y: "AttemptView w (ri_OutcomeID i) (a_ID ?n) s = (y, t)" by (cases "AttemptView w (ri_OutcomeID i) (a_ID ?n) s")
  have "replacement_verdict ?n v' = (Some ?n, True)" if "y = Inr v'" for v'
  proof -
    have "av_Observations v' = ListAttemptObservations (db_Control (sv_DB s)) (a_ID ?n)"
      "av_Receipts v' = ListRecoveryReceipts (db_Control (sv_DB s)) (a_ID ?n)"
      using y that unfolding AttemptView_def readModel_def
      by (auto simp: Let_def clock_def requireAttempt_def GetAttempt_def dest!: find_SomeD elim!: try_do_split next_do_split
        split: option.splits if_splits)
    then show ?thesis using assms(3,4)
      by (auto simp: replacement_verdict_def list_ex_iff ListAttemptObservations_def ListRecoveryReceipts_def)
  qed
  then show ?thesis using assms(1,2) y
    by (cases y) (auto simp: runContinuationRequestKey_def replacementAdmission_def try_do_def next_do_def give_def Let_def)
qed

text \<open>C7: A continuation never retries on its own: when the next unit's newest attempt was already
  made under the current authorization, and neither its launch was refused by the system before it
  reached the provider nor did the owner ask for a replacement, the tick admits nothing and writes nothing.\<close>

theorem continuation_never_retries:
  assumes run: "continueOneRun w p d i s = (r, s')"
    and schedule: "GetSchedule (wo_Sha w) (sv_DB s) (ri_OutcomeID i) (ri_PlanRevisionID i) = Inr v"
    and tried: "entry_attempts v = a # as" "a_RunIntentGeneration (newest_number a as) = ri_Generation i"
    and launched: "\<forall>x\<in>set (st_Observations (db_Control (sv_DB s))). ob_AttemptID x = a_ID (newest_number a as) \<longrightarrow>
      \<not> systemOwnedPrelaunchObservationKind (ob_Kind x)"
    and unasked: "\<forall>x\<in>set (st_Recoveries (db_Control (sv_DB s))). rv_AttemptID x = a_ID (newest_number a as) \<longrightarrow>
      rv_Resolution x \<noteq> RecoveryReplacement"
  shows "sv_DB s' = sv_DB s"
proof -
  obtain t where t: "runContinuationRequestKey w i v s = (Inr None, t) \<or> (\<exists>e. runContinuationRequestKey w i v s = (Inl e, t))"
    using key_withheld [OF tried launched unasked] by blast
  have "unchanged.keeps (runContinuationRequestKey w i v)"
    unfolding runContinuationRequestKey_def Let_def by (auto intro!: unchanged.keeps_try unchanged.keeps_replacement)
  then have "sv_DB t = sv_DB s" using t unchanged.keepsD by metis
  then show ?thesis using run schedule t
    by (auto simp: continueOneRun_def try_do_def next_do_def reading_def Let_def give_def split: if_splits)
qed

definition sample_cancelled :: attempt where
  "sample_cancelled = \<lparr>a_ID = ''a1'', a_OutcomeID = ''o1'', a_PlanRevisionID = ''p1'', a_WorkUnitID = ''u1'', a_Number = 1,
     a_Status = AttemptCancelled, a_ContractRevisionNumber = 1, a_RunIntentGeneration = 1, a_RequestKey = ''k'',
     a_CreatedAt = 12, a_UpdatedAt = 13\<rparr>"

definition sample_tried :: service_state where
  "sample_tried = \<lparr>sv_DB = sample_approved_db\<lparr>db_Control := (control_view sample_approved_db)\<lparr>st_Attempts := [sample_cancelled],
     st_Intents := [persisted sample_intent]\<rparr>\<rparr>, sv_Draws = 20\<rparr>"

lemma sample_tried_schedule:
  "case GetSchedule (\<lambda>_. ''v'') (sv_DB sample_tried) ''o1'' ''p1'' of Inl _ \<Rightarrow> False
     | Inr v \<Rightarrow> entry_attempts v = [sample_cancelled] \<and> sv_NextRunnableID v = ''u1''"
  by code_simp

lemma continuation_never_retries_witness:
  "sv_DB (snd (continueOneRun (sample_world False) sample_provider sample_codec (persisted sample_intent) sample_tried)) =
     sv_DB sample_tried"
proof -
  obtain v where v: "GetSchedule (wo_Sha (sample_world False)) (sv_DB sample_tried) (ri_OutcomeID (persisted sample_intent))
      (ri_PlanRevisionID (persisted sample_intent)) = Inr v" "entry_attempts v = [sample_cancelled]"
    using sample_tried_schedule
    by (auto simp: sample_world_def persisted_def sample_intent_def start_intent_def run_intent_of_def sample_run_start_def
        split: sum.splits)
  have gen: "a_RunIntentGeneration (newest_number sample_cancelled []) = ri_Generation (persisted sample_intent)"
    by (simp add: sample_cancelled_def persisted_def sample_intent_def)
  have none: "st_Observations (db_Control (sv_DB sample_tried)) = []" "st_Recoveries (db_Control (sv_DB sample_tried)) = []"
    by (simp_all add: sample_tried_def control_view_def sample_control empty_db_def empty_store_def)
  obtain r s' where run: "continueOneRun (sample_world False) sample_provider sample_codec (persisted sample_intent) sample_tried = (r, s')"
    by (cases "continueOneRun (sample_world False) sample_provider sample_codec (persisted sample_intent) sample_tried")
  have "sv_DB s' = sv_DB sample_tried"
    by (rule continuation_never_retries [OF run v(1,2) gen]) (simp_all add: none)
  then show ?thesis by (simp add: run)
qed

section \<open>A resume that is offered and refused\<close>

text \<open>The projection offers a resume without looking at the active correction, which the command does
  look at: with a correction that asks for a new revision, the offer stands and the command refuses.\<close>

lemma resume_offered_against_correction:
  assumes "m = mission_inputs_of w db r p" "GetProof db (o_ID r) = Inr p"
    and "mi_Intent m = Some i" "ri_Desired i = RunPaused" "plan_approved m" "correctionRequires m \<noteq> None"
  shows "el_Available (resume_offer m) \<and> isl (authorized_run w db r inp)"
proof
  have "commandApplies m CmdResume" using assms(3,4) by (simp add: commandApplies_def desiredRun_def NextRunIntent_def)
  then show "el_Available (resume_offer m)"
    using assms(1,5) by (simp add: resume_offer_def allow_def mission_inputs_of_def Let_def)
  have target: "correctionRequiringRevision p (GetLatestPlanRevision db (o_ID r)) \<noteq> None"
    using assms(1,6) by (simp add: correctionRequires_def mission_inputs_of_def Let_def)
  then have "pv_ActiveCorrection p \<noteq> None" by (cases "pv_ActiveCorrection p") (simp_all add: correctionRequiringRevision_def)
  then have "isl (refuseExecutionAgainstCorrection db (o_ID r))"
    using target assms(2) by (simp add: refuseExecutionAgainstCorrection_def require_def)
  then have "authorized_run w db r inp \<noteq> Inr x" for x by (auto simp: authorized_run_def and_then_Inr)
  then show "isl (authorized_run w db r inp)" by (cases "authorized_run w db r inp") auto
qed

end
