(* ===== verification/Row_Properties.thy ===== *)
theory Row_Properties
  imports Run_Offers Service_Samples "HOL-Library.Word"
begin

text \<open>
  What every reachable database holds: rows that pass their validators, and counters that are
  their own value as 64-bit integers. The integers of the model are unbounded; the second property
  is why that is faithful.
\<close>

section \<open>Types\<close>



section \<open>Bounds\<close>









end
